(* ===== verification/Py_Prelude.thy ===== *)
theory Py_Prelude
  imports Complex_Main
begin

text \<open>
  Shared vocabulary of the development: Python exceptions as values, the result type every
  fallible operation returns, ASCII string operations (\<open>str.strip\<close>, \<open>str.upper\<close>,
  \<open>str.lower\<close>, \<open>str.split\<close>, \<open>in\<close>, \<open>startswith\<close>, \<open>replace\<close>), insertion-ordered
  dictionaries as association lists, and the lemmas on lists and results that the component
  theories share.
\<close>

named_theorems result_simps \<open>inversion rules of the result combinators\<close>

section \<open>Exceptions and results\<close>

text \<open>One constructor per exception class that the modelled code raises or the language raises in it.\<close>

datatype exc_class =
    ValueError | TypeError | KeyError | IndexError | ZeroDivisionError | AttributeError
  | OverflowError | InvalidOperation | DivisionByZero | RuntimeError
  | OMSStateTransitionError | PositionEngineError | PortfolioSnapshotEngineError
  | DrawdownDailyLossGuardError | CoreRiskRuleError
  | EnvelopeValidationError | BrokerConfigurationError | ModeRoutingError
  | SimulationSafetyViolation | SimulationExecutionError
  | OrderBookSyncError | OrderBookNotInitializedError | OrderBookSequenceGapError
  | AdapterPayloadError | AdapterConfigurationError
  | NewsIngestionError | ProviderNotConfiguredError | LLMRetryExhaustedError
  | LLMQuotaExceededError | TimeoutError | ProviderError

datatype exc = Exc (exc_class: exc_class) (exc_msg: string)

type_synonym 'a result = "exc + 'a"

definition rbind :: "'a result \<Rightarrow> ('a \<Rightarrow> 'b result) \<Rightarrow> 'b result" where
  "rbind m f = (case m of Inl e \<Rightarrow> Inl e | Inr x \<Rightarrow> f x)"

lemma rbind_simps [simp]: "rbind (Inl e) f = Inl e" "rbind (Inr x) f = f x"
  by (simp_all add: rbind_def)

lemma rbind_Inr_iff [result_simps]:
  "rbind m f = Inr y \<longleftrightarrow> (\<exists>x. m = Inr x \<and> f x = Inr y)"
  by (cases m) auto

lemma rbind_Inl_iff [result_simps]:
  "rbind m f = Inl e \<longleftrightarrow> m = Inl e \<or> (\<exists>x. m = Inr x \<and> f x = Inl e)"
  by (cases m) auto

lemma rbind_assoc: "rbind (rbind m f) g = rbind m (\<lambda>x. rbind (f x) g)"
  by (cases m) auto

lemma if_Inl_Inr [result_simps]:
  "(if c then Inl e else r) = Inr y \<longleftrightarrow> \<not> c \<and> r = Inr y"
  "(if c then r else Inl e) = Inr y \<longleftrightarrow> c \<and> r = Inr y"
  by auto

text \<open>A result that is known to be a value.\<close>

definition returns :: "('a \<Rightarrow> bool) \<Rightarrow> 'a result \<Rightarrow> bool" where
  "returns P r = (case r of Inl e \<Rightarrow> False | Inr x \<Rightarrow> P x)"

lemma returns_iff: "returns P r \<longleftrightarrow> (\<exists>x. r = Inr x \<and> P x)"
  by (cases r) (auto simp: returns_def)

lemma returnsE: "returns P r \<Longrightarrow> (\<And>x. r = Inr x \<Longrightarrow> P x \<Longrightarrow> thesis) \<Longrightarrow> thesis"
  by (auto simp: returns_iff)

lemma returns_mono: "returns P r \<Longrightarrow> (\<And>x. P x \<Longrightarrow> Q x) \<Longrightarrow> returns Q r"
  by (auto simp: returns_iff)

lemma returns_rbind: "returns Q m \<Longrightarrow> (\<And>x. Q x \<Longrightarrow> returns P (f x)) \<Longrightarrow> returns P (rbind m f)"
  by (auto simp: returns_iff)

text \<open>What holds of a result whenever it is a value; the rules follow the shape of the code.\<close>

definition ensures :: "('a \<Rightarrow> bool) \<Rightarrow> 'a result \<Rightarrow> bool" where
  "ensures P r \<longleftrightarrow> (\<forall>x. r = Inr x \<longrightarrow> P x)"

lemma ensuresD: "ensures P r \<Longrightarrow> r = Inr x \<Longrightarrow> P x"
  by (simp add: ensures_def)

lemma ensures_Inl [intro!]: "ensures P (Inl e)"
  by (simp add: ensures_def)

lemma ensures_Inr [intro!]: "P x \<Longrightarrow> ensures P (Inr x)"
  by (simp add: ensures_def)

lemma ensures_rbind [intro!]: "(\<And>x. m = Inr x \<Longrightarrow> ensures P (f x)) \<Longrightarrow> ensures P (rbind m f)"
  by (cases m) (auto simp: ensures_def)

lemma ensures_if [intro!]: "(c \<Longrightarrow> ensures P a) \<Longrightarrow> (\<not> c \<Longrightarrow> ensures P b) \<Longrightarrow> ensures P (if c then a else b)"
  by simp

lemmas ensures_intros = ensures_Inl ensures_Inr ensures_rbind ensures_if

text \<open>A Python \<open>for\<close> loop that computes a list and stops at the first exception.\<close>

fun rmap :: "('a \<Rightarrow> 'b result) \<Rightarrow> 'a list \<Rightarrow> 'b list result" where
  "rmap f [] = Inr []"
| "rmap f (x # xs) = rbind (f x) (\<lambda>y. rbind (rmap f xs) (\<lambda>ys. Inr (y # ys)))"

lemma rmap_Inr_iff:
  "rmap f xs = Inr ys \<longleftrightarrow> list_all2 (\<lambda>x y. f x = Inr y) xs ys"
  by (induction xs arbitrary: ys) (auto simp: result_simps list_all2_Cons1)

lemma rmap_length: "rmap f xs = Inr ys \<Longrightarrow> length ys = length xs"
  by (auto simp: rmap_Inr_iff dest: list_all2_lengthD)

lemma rmap_total: "(\<And>x. x \<in> set xs \<Longrightarrow> f x = Inr (g x)) \<Longrightarrow> rmap f xs = Inr (map g xs)"
  by (induction xs) auto

lemma rmap_returns:
  "(\<And>x. x \<in> set xs \<Longrightarrow> returns (Q x) (f x)) \<Longrightarrow> returns (list_all2 Q xs) (rmap f xs)"
proof (induction xs)
  case (Cons x xs)
  from Cons.prems[of x] obtain y where y: "f x = Inr y" "Q x y" by (auto simp: returns_iff)
  from Cons obtain ys where "rmap f xs = Inr ys" "list_all2 Q xs ys" by (auto simp: returns_iff)
  with y show ?case by (simp add: returns_def)
qed (simp add: returns_def)

text \<open>A state-threading \<open>for\<close> loop whose body may raise.\<close>

fun rfold :: "('s \<Rightarrow> 'a \<Rightarrow> 's result) \<Rightarrow> 's \<Rightarrow> 'a list \<Rightarrow> 's result" where
  "rfold f s [] = Inr s"
| "rfold f s (x # xs) = rbind (f s x) (\<lambda>s'. rfold f s' xs)"

lemma rfold_invariant:
  assumes "rfold f s xs = Inr s'" and "P s"
    and "\<And>s x s'. x \<in> set xs \<Longrightarrow> P s \<Longrightarrow> f s x = Inr s' \<Longrightarrow> P s'"
  shows "P s'"
  using assms
proof (induction xs arbitrary: s)
  case Nil
  then show ?case by simp
next
  case (Cons x xs)
  from Cons.prems(1) obtain t where t: "f s x = Inr t" and rest: "rfold f t xs = Inr s'"
    by (auto simp: result_simps)
  have "P t" using Cons.prems(3)[of x s t] Cons.prems(2) t by simp
  with rest show ?case by (rule Cons.IH) (use Cons.prems(3) in auto)
qed

section \<open>Strings\<close>

text \<open>
  A Python \<open>str\<close> is a \<^typ>\<open>string\<close>. Case mapping and white space are those of
  ASCII text.
\<close>

definition is_space :: "char \<Rightarrow> bool" where
  "is_space c = (let n = (of_char c :: nat) in (9 \<le> n \<and> n \<le> 13) \<or> (28 \<le> n \<and> n \<le> 32))"

definition upper_char :: "char \<Rightarrow> char" where
  "upper_char c = (let n = (of_char c :: nat) in
     if 97 \<le> n \<and> n \<le> 122 then char_of (n - 32) else c)"

definition lower_char :: "char \<Rightarrow> char" where
  "lower_char c = (let n = (of_char c :: nat) in
     if 65 \<le> n \<and> n \<le> 90 then char_of (n + 32) else c)"

definition py_upper :: "string \<Rightarrow> string" where
  "py_upper s = map upper_char s"

definition py_lower :: "string \<Rightarrow> string" where
  "py_lower s = map lower_char s"

definition strip_chars :: "(char \<Rightarrow> bool) \<Rightarrow> string \<Rightarrow> string" where
  "strip_chars p s = rev (dropWhile p (rev (dropWhile p s)))"

definition py_strip :: "string \<Rightarrow> string" where
  "py_strip s = strip_chars is_space s"

definition norm_upper :: "string \<Rightarrow> string" where
  "norm_upper s = py_upper (py_strip s)"

fun starts_with :: "string \<Rightarrow> string \<Rightarrow> bool" where
  "starts_with [] s = True"
| "starts_with (c # cs) [] = False"
| "starts_with (c # cs) (d # ds) = (c = d \<and> starts_with cs ds)"

text \<open>\<open>sub in s\<close>\<close>

fun str_contains :: "string \<Rightarrow> string \<Rightarrow> bool" where
  "str_contains sub [] = (sub = [])"
| "str_contains sub (c # cs) = (starts_with sub (c # cs) \<or> str_contains sub cs)"

text \<open>\<open>s.split(sep)\<close> for a one-character separator.\<close>

fun split_on :: "char \<Rightarrow> string \<Rightarrow> string list" where
  "split_on sep [] = [[]]"
| "split_on sep (c # cs) =
     (if c = sep then [] # split_on sep cs
      else (case split_on sep cs of [] \<Rightarrow> [[c]] | w # ws \<Rightarrow> (c # w) # ws))"

fun join_with :: "string \<Rightarrow> string list \<Rightarrow> string" where
  "join_with sep [] = []"
| "join_with sep [w] = w"
| "join_with sep (w # ws) = w @ sep @ join_with sep ws"

text \<open>\<open>s.replace(old, new)\<close> for a non-empty \<open>old\<close>; the first argument is fuel for
  the remaining characters.\<close>

fun replace_fuel :: "nat \<Rightarrow> string \<Rightarrow> string \<Rightarrow> string \<Rightarrow> string" where
  "replace_fuel 0 old new s = s"
| "replace_fuel (Suc n) old new [] = []"
| "replace_fuel (Suc n) old new (c # cs) =
     (if starts_with old (c # cs) then new @ replace_fuel n old new (drop (length old) (c # cs))
      else c # replace_fuel n old new cs)"

definition str_replace :: "string \<Rightarrow> string \<Rightarrow> string \<Rightarrow> string" where
  "str_replace old new s = replace_fuel (length s) old new s"

lemma starts_with_iff: "starts_with p s \<longleftrightarrow> (\<exists>r. s = p @ r)"
  by (induction p s rule: starts_with.induct) auto

lemma str_contains_iff: "str_contains sub s \<longleftrightarrow> (\<exists>u v. s = u @ sub @ v)"
proof (induction s)
  case Nil
  then show ?case by auto
next
  case (Cons c cs)
  have "str_contains sub (c # cs) \<longleftrightarrow> (\<exists>r. c # cs = sub @ r) \<or> (\<exists>u v. cs = u @ sub @ v)"
    using Cons by (simp add: starts_with_iff)
  also have "\<dots> \<longleftrightarrow> (\<exists>u v. c # cs = u @ sub @ v)"
    by (metis append_Cons append_Nil list.sel(3) tl_append2)
  finally show ?case .
qed

lemma split_on_not_Nil [simp]: "split_on sep s \<noteq> []"
  by (induction s) (auto split: list.splits)

lemma join_split_on: "join_with [sep] (split_on sep s) = s"
proof (induction s)
  case Nil
  then show ?case by simp
next
  case (Cons c cs)
  obtain w ws where ws: "split_on sep cs = w # ws"
    by (cases "split_on sep cs") auto
  show ?case
    using Cons ws by (cases ws) auto
qed

lemma strip_chars_empty: "strip_chars p s = [] \<longleftrightarrow> list_all p s"
proof -
  have "list_all p (dropWhile p s) \<longleftrightarrow> list_all p s" by (induction s) auto
  then show ?thesis by (simp add: strip_chars_def list_all_iff)
qed

lemma strip_chars_idem [simp]: "strip_chars p (strip_chars p s) = strip_chars p s"
proof -
  let ?d = "\<lambda>xs. dropWhile p (rev (dropWhile p xs))"
  have key: "dropWhile p (rev (?d s)) = rev (?d s)"
  proof (cases "dropWhile p s")
    case Nil
    then show ?thesis by (simp del: dropWhile_eq_Nil_conv)
  next
    case (Cons a as)
    have na: "\<not> p a" using hd_dropWhile[of p s] Cons by simp
    have "rev (dropWhile p s) = rev as @ [a]" using Cons by simp
    then have "?d s = dropWhile p (rev as) @ [a]"
      using na by (simp add: dropWhile_append3)
    then show ?thesis using na by simp
  qed
  then show ?thesis
    by (simp add: strip_chars_def)
qed

lemma py_strip_idem [simp]: "py_strip (py_strip s) = py_strip s"
  by (simp add: py_strip_def)

section \<open>Dictionaries\<close>

text \<open>
  A Python dictionary keeps insertion order: an association list with distinct keys.
  Storing under an existing key keeps its position.
\<close>

type_synonym ('k, 'v) dict = "('k \<times> 'v) list"

fun dict_set :: "'k \<Rightarrow> 'v \<Rightarrow> ('k, 'v) dict \<Rightarrow> ('k, 'v) dict" where
  "dict_set k v [] = [(k, v)]"
| "dict_set k v ((k', v') # d) = (if k' = k then (k, v) # d else (k', v') # dict_set k v d)"

definition dict_del :: "'k \<Rightarrow> ('k, 'v) dict \<Rightarrow> ('k, 'v) dict" where
  "dict_del k d = filter (\<lambda>(k', v). k' \<noteq> k) d"

abbreviation dict_get :: "('k, 'v) dict \<Rightarrow> 'k \<Rightarrow> 'v option" where
  "dict_get \<equiv> map_of"

definition dict_get_default :: "('k, 'v) dict \<Rightarrow> 'k \<Rightarrow> 'v \<Rightarrow> 'v" where
  "dict_get_default d k v = (case dict_get d k of None \<Rightarrow> v | Some x \<Rightarrow> x)"

definition dict_wf :: "('k, 'v) dict \<Rightarrow> bool" where
  "dict_wf d \<longleftrightarrow> distinct (map fst d)"

lemma dict_get_set [simp]: "dict_get (dict_set k v d) = (dict_get d)(k \<mapsto> v)"
  by (induction d) (auto simp: fun_eq_iff)

lemma dict_get_del [simp]: "dict_get (dict_del k d) = (dict_get d)(k := None)"
  by (induction d) (auto simp: dict_del_def fun_eq_iff)

lemma keys_dict_set: "fst ` set (dict_set k v d) = insert k (fst ` set d)"
  by (induction k v d rule: dict_set.induct) (simp_all add: insert_commute)

lemma dict_wf_Nil [simp]: "dict_wf []"
  by (simp add: dict_wf_def)

lemma dict_wf_set [simp]: "dict_wf d \<Longrightarrow> dict_wf (dict_set k v d)"
proof (induction d)
  case Nil
  then show ?case by (simp add: dict_wf_def)
next
  case (Cons p d)
  then show ?case
    by (cases p) (auto simp: dict_wf_def keys_dict_set)
qed

lemma dict_wf_del [simp]: "dict_wf d \<Longrightarrow> dict_wf (dict_del k d)"
  by (simp add: dict_wf_def dict_del_def distinct_map_filter)

lemma length_dict_set:
  "length (dict_set k v d) = (if k \<in> fst ` set d then length d else Suc (length d))"
  by (induction k v d rule: dict_set.induct) simp_all

section \<open>Counters\<close>

text \<open>\<open>d[k] = d.get(k, 0) + 1\<close>\<close>

definition dict_incr :: "'k \<Rightarrow> ('k, int) dict \<Rightarrow> ('k, int) dict" where
  "dict_incr k d = dict_set k (dict_get_default d k 0 + 1) d"

lemma dict_wf_incr [simp]: "dict_wf d \<Longrightarrow> dict_wf (dict_incr k d)"
  by (simp add: dict_incr_def)

lemma dict_get_incr:
  "dict_get_default (dict_incr k d) k' 0 =
     dict_get_default d k' 0 + (if k' = k then 1 else 0)"
  by (simp add: dict_incr_def dict_get_default_def)

section \<open>Decimal numerals\<close>

text \<open>\<open>str(n)\<close> for a Python \<open>int\<close>\<close>

definition digit_char :: "int \<Rightarrow> char" where
  "digit_char n = char_of (48 + nat n)"

function int_digits :: "int \<Rightarrow> string" where
  "int_digits n = (if n < 10 then [digit_char n] else int_digits (n div 10) @ [digit_char (n mod 10)])"
  by pat_completeness auto
termination
  by (relation "measure nat") auto

declare int_digits.simps [simp del]

definition int_str :: "int \<Rightarrow> string" where
  "int_str i = (if i < 0 then CHR ''-'' # int_digits (- i) else int_digits i)"

definition is_digit :: "char \<Rightarrow> bool" where
  "is_digit c = (let n = (of_char c :: nat) in 48 \<le> n \<and> n \<le> 57)"

definition digit_val :: "char \<Rightarrow> int" where
  "digit_val c = of_char c - 48"

definition digits_val :: "string \<Rightarrow> int" where
  "digits_val s = foldl (\<lambda>a c. 10 * a + digit_val c) 0 s"

lemma digit_char_inverse [simp]:
  "0 \<le> n \<Longrightarrow> n < 10 \<Longrightarrow> digit_val (digit_char n) = n"
  "0 \<le> n \<Longrightarrow> n < 10 \<Longrightarrow> is_digit (digit_char n)"
proof -
  assume n: "0 \<le> n" "n < 10"
  then have m: "(48 + nat n) mod 256 = 48 + nat n" by simp
  have "(of_char (digit_char n) :: nat) = 48 + nat n"
    by (simp only: digit_char_def of_char_of m)
  moreover from this have "(of_char (digit_char n) :: int) = int (48 + nat n)"
    by (metis of_nat_of_char)
  ultimately show "digit_val (digit_char n) = n" "is_digit (digit_char n)"
    using n by (simp_all add: digit_val_def is_digit_def)
qed

lemma digits_val_snoc: "digits_val (s @ [c]) = 10 * digits_val s + digit_val c"
  by (simp add: digits_val_def)

lemma int_digits_props:
  "0 \<le> n \<Longrightarrow> digits_val (int_digits n) = n \<and> list_all is_digit (int_digits n)"
proof (induction n rule: int_digits.induct)
  case (1 n)
  show ?case
  proof (cases "n < 10")
    case True
    with 1 show ?thesis by (simp add: int_digits.simps[of n] digits_val_def)
  next
    case False
    with 1 show ?thesis
      by (simp add: int_digits.simps[of n] digits_val_snoc)
  qed
qed

lemma int_digits_inj: "0 \<le> m \<Longrightarrow> 0 \<le> n \<Longrightarrow> int_digits m = int_digits n \<Longrightarrow> m = n"
  by (metis int_digits_props)

lemma int_digits_not_Nil [simp]: "int_digits n \<noteq> []"
  by (simp add: int_digits.simps[of n])

lemma int_str_inj: "int_str m = int_str n \<Longrightarrow> m = n"
proof -
  have hd: "hd (int_digits k) \<noteq> CHR ''-''" if "0 \<le> k" for k
    using int_digits_props[OF that] int_digits_not_Nil[of k]
    by (cases "int_digits k") (auto simp: is_digit_def)
  assume "int_str m = int_str n"
  then show ?thesis
    using hd[of m] hd[of n] int_digits_inj[of m n] int_digits_inj[of "- m" "- n"]
    by (auto simp: int_str_def split: if_splits) (metis list.sel(1) not_less)+
qed

section \<open>Lists\<close>

text \<open>\<open>xs[-n:]\<close> for positive \<open>n\<close>\<close>

definition last_n :: "nat \<Rightarrow> 'a list \<Rightarrow> 'a list" where
  "last_n n xs = drop (length xs - n) xs"

lemma length_last_n [simp]: "length (last_n n xs) = min n (length xs)"
  by (simp add: last_n_def)

lemma set_last_n: "set (last_n n xs) \<subseteq> set xs"
  by (simp add: last_n_def set_drop_subset)

lemma dropWhile_filter_sorted:
  "sorted (xs :: 'a::linorder list) \<Longrightarrow> dropWhile (\<lambda>x. x < c) xs = filter (\<lambda>x. c \<le> x) xs"
proof (induction xs)
  case Nil
  then show ?case by simp
next
  case (Cons x xs)
  show ?case
  proof (cases "x < c")
    case True
    with Cons show ?thesis by auto
  next
    case False
    then have "\<forall>y \<in> set (x # xs). c \<le> y" using Cons.prems by auto
    then have "filter (\<lambda>y. c \<le> y) (x # xs) = x # xs" by (simp only: filter_id_conv)
    with False show ?thesis by simp
  qed
qed

end
