(* ===== verification/Py_Numbers.thy ===== *)
theory Py_Numbers
  imports Py_Prelude
begin

text \<open>
  Python's two inexact number types. A finite \<open>Decimal\<close> or \<open>float\<close> is the rational
  number it denotes; an arithmetic operation is the exact rational operation followed by the
  rounding of the type: 28 significant decimal digits, half to even (\<open>dec\<close>), for the default
  \<open>decimal\<close> context, and 53 significant bits with gradual underflow at \<open>2 ^ (- 1074)\<close>
  (\<open>dbl\<close>) for a \<open>float\<close>. The theory proves that both roundings are monotone, odd and
  idempotent, which is what the component theories use.
\<close>

named_theorems decimal_ops \<open>definitions of the Decimal operations\<close>

section \<open>Rounding to a significand of given size\<close>

definition half_even :: "rat \<Rightarrow> int" where
  "half_even x = (let f = \<lfloor>x\<rfloor>; d = x - of_int f in
     if d < 1 / 2 then f else if 1 / 2 < d then f + 1 else if even f then f else f + 1)"

function ilog :: "int \<Rightarrow> int \<Rightarrow> nat" where
  "ilog b n = (if b < 2 \<or> n < b then 0 else Suc (ilog b (n div b)))"
  by pat_completeness auto
termination
proof (relation "measure (\<lambda>(b, n). nat n)")
  fix b n :: int
  assume "\<not> (b < 2 \<or> n < b)"
  then have "n div b < n" "0 < n" by (simp_all add: int_div_less_self)
  then show "((b, n div b), b, n) \<in> measure (\<lambda>(b, n). nat n)" by simp
qed simp

declare ilog.simps [simp del]

definition rpow :: "nat \<Rightarrow> int \<Rightarrow> rat" where
  "rpow b e = of_nat b powi e"

text \<open>The exponent of the leading digit of a non-zero number.\<close>

definition expo :: "nat \<Rightarrow> rat \<Rightarrow> int" where
  "expo b x = (case quotient_of \<bar>x\<bar> of (n, d) \<Rightarrow>
     let e = int (ilog (int b) n) - int (ilog (int b) d)
     in if rpow b e \<le> \<bar>x\<bar> then e else e - 1)"

definition rnd :: "nat \<Rightarrow> nat \<Rightarrow> int \<Rightarrow> rat \<Rightarrow> rat" where
  "rnd b p emin x = (if x = 0 then 0 else
     let k = max (expo b x - int p + 1) emin; u = rpow b k
     in of_int (half_even (x / u)) * u)"

subsection \<open>Half-even rounding to an integer\<close>

lemma half_even_of_int [simp]: "half_even (of_int n) = n"
  by (simp add: half_even_def)

lemma half_even_bounds: "\<lfloor>x\<rfloor> \<le> half_even x" "half_even x \<le> \<lfloor>x\<rfloor> + 1"
  by (simp_all add: half_even_def Let_def)

lemma half_even_mono: "x \<le> y \<Longrightarrow> half_even x \<le> half_even y"
proof (cases "\<lfloor>x\<rfloor> = \<lfloor>y\<rfloor>")
  case True
  moreover assume "x \<le> y"
  ultimately show ?thesis by (simp add: half_even_def Let_def)
next
  case False
  moreover assume "x \<le> y"
  ultimately have "\<lfloor>x\<rfloor> + 1 \<le> \<lfloor>y\<rfloor>" using floor_mono[of x y] by linarith
  then show ?thesis using half_even_bounds[of x] half_even_bounds[of y] by linarith
qed

lemma half_even_minus: "half_even (- x) = - half_even x"
proof (cases "x = of_int \<lfloor>x\<rfloor>")
  case True
  then obtain n where "x = of_int n" by blast
  then show ?thesis by (simp add: half_even_def Let_def)
next
  case False
  then have "of_int \<lfloor>x\<rfloor> < x" using of_int_floor_le[of x] by linarith
  then have fl: "\<lfloor>- x\<rfloor> = - \<lfloor>x\<rfloor> - 1"
    by (intro floor_unique) (simp_all, linarith+)
  show ?thesis
    unfolding half_even_def Let_def fl by (auto simp: field_simps)
qed

lemma half_even_le_int: "x \<le> of_int n \<Longrightarrow> half_even x \<le> n"
  using half_even_mono[of x "of_int n"] by simp

lemma half_even_ge_int: "of_int n \<le> x \<Longrightarrow> n \<le> half_even x"
  using half_even_mono[of "of_int n" x] by simp

lemma half_even_error: "\<bar>of_int (half_even x) - x\<bar> \<le> 1 / 2"
proof -
  have "0 \<le> x - of_int \<lfloor>x\<rfloor>" "x - of_int \<lfloor>x\<rfloor> < 1" by linarith+
  then show ?thesis unfolding half_even_def Let_def abs_if by (auto simp del: of_int_floor_le)
qed

subsection \<open>Powers and exponents\<close>

lemma rpow_pos: "2 \<le> b \<Longrightarrow> 0 < rpow b e"
  by (simp add: rpow_def)

lemma rpow_add: "2 \<le> b \<Longrightarrow> rpow b (d + e) = rpow b d * rpow b e"
  by (simp add: rpow_def power_int_add)

lemma rpow_diff: "2 \<le> b \<Longrightarrow> rpow b (d - e) = rpow b d / rpow b e"
  by (simp add: rpow_def power_int_diff)

lemma rpow_mono: "2 \<le> b \<Longrightarrow> d \<le> e \<Longrightarrow> rpow b d \<le> rpow b e"
  by (simp add: rpow_def power_int_increasing)

lemma rpow_strict: "2 \<le> b \<Longrightarrow> rpow b d < rpow b e \<Longrightarrow> d < e"
  using rpow_mono[of b e d] by linarith

lemma rpow_nat: "rpow b (int n) = of_int (int b ^ n)"
  by (simp add: rpow_def)

lemma rpow_of_nat: "rpow b (int n) = of_nat b ^ n"
  by (simp add: rpow_def)

lemma rpow_minus: "rpow b (- int j) = 1 / of_nat b ^ j"
  by (simp add: rpow_def power_int_minus divide_inverse)

lemma ilog_bounds:
  "2 \<le> b \<Longrightarrow> 0 < n \<Longrightarrow> b ^ ilog b n \<le> n \<and> n < b ^ Suc (ilog b n)"
proof (induction b n rule: ilog.induct)
  case (1 b n)
  show ?case
  proof (cases "n < b")
    case True
    with 1 show ?thesis by (simp add: ilog.simps[of b n])
  next
    case False
    then have "0 < n div b" using 1(2) by (simp add: pos_imp_zdiv_pos_iff)
    with 1 False have IH: "b ^ ilog b (n div b) \<le> n div b" "n div b < b ^ Suc (ilog b (n div b))"
      by auto
    have n: "n = b * (n div b) + n mod b" "0 \<le> n mod b" "n mod b < b"
      using 1(2) by simp_all
    have "b * b ^ ilog b (n div b) \<le> b * (n div b)"
      using IH(1) 1(2) by (intro mult_left_mono) auto
    also have "\<dots> \<le> n" using n by linarith
    finally have lo: "b ^ Suc (ilog b (n div b)) \<le> n" by simp
    have "n < b * (n div b + 1)" unfolding distrib_left using n by linarith
    also have "\<dots> \<le> b * b ^ Suc (ilog b (n div b))"
      using IH(2) 1(2) by (intro mult_left_mono) auto
    finally have "n < b ^ Suc (Suc (ilog b (n div b)))" by simp
    with lo False 1(2) show ?thesis by (simp add: ilog.simps[of b n])
  qed
qed

lemma ilog_rpow:
  assumes b: "2 \<le> b" and n: "0 < n"
  shows "rpow b (int (ilog (int b) n)) \<le> of_int n"
    and "of_int n < rpow b (int (ilog (int b) n) + 1)"
proof -
  let ?i = "ilog (int b) n"
  have "int b ^ ?i \<le> n" "n < int b ^ Suc ?i"
    using ilog_bounds[of "int b" n] b n by auto
  then have "of_int (int b ^ ?i) \<le> (of_int n :: rat)" "(of_int n :: rat) < of_int (int b ^ Suc ?i)"
    by (simp_all only: of_int_le_iff of_int_less_iff)
  then show "rpow b (int ?i) \<le> of_int n" "of_int n < rpow b (int ?i + 1)"
    using rpow_nat[of b ?i] rpow_nat[of b "Suc ?i"] by (simp_all add: add.commute)
qed

lemma cross_less:
  "0 < (d :: rat) \<Longrightarrow> 0 < d' \<Longrightarrow> n * d' < n' * d \<Longrightarrow> n / d < n' / d'"
  by (simp add: field_simps)

lemma expo_bounds:
  assumes b: "2 \<le> b" and x: "x \<noteq> 0"
  shows "rpow b (expo b x) \<le> \<bar>x\<bar>" and "\<bar>x\<bar> < rpow b (expo b x + 1)"
proof -
  obtain n d where q: "quotient_of \<bar>x\<bar> = (n, d)" by force
  have d: "0 < d" using q by (rule quotient_of_denom_pos)
  have xe: "\<bar>x\<bar> = of_int n / of_int d" using q by (rule quotient_of_div)
  have n: "0 < n"
    using xe x d by (metis abs_ge_zero abs_zero divide_less_0_iff not_less_iff_gr_or_eq of_int_0
        of_int_0_less_iff of_int_less_0_iff div_0 abs_eq_0 linorder_not_less)
  let ?i = "int (ilog (int b) n)" and ?j = "int (ilog (int b) d)"
  note N = ilog_rpow[OF b n] and D = ilog_rpow[OF b d] and pos = rpow_pos[OF b]
  have d': "(0 :: rat) < of_int d" using d by simp
  have "of_int n * rpow b ?j < rpow b (?i + 1) * of_int d"
    using N(2) D(1) pos n d' by (intro mult_less_le_imp_less) (simp_all add: less_imp_le)
  then have "\<bar>x\<bar> < rpow b (?i + 1) / rpow b ?j"
    unfolding xe using d' pos by (intro cross_less)
  then have up: "\<bar>x\<bar> < rpow b (?i - ?j + 1)"
    by (simp add: rpow_diff[OF b, symmetric] algebra_simps)
  have "rpow b ?i * of_int d < of_int n * rpow b (?j + 1)"
    using N(1) D(2) pos n d' by (intro mult_le_less_imp_less) (simp_all add: less_imp_le)
  then have "rpow b ?i / rpow b (?j + 1) < \<bar>x\<bar>"
    unfolding xe using d' pos by (intro cross_less)
  then have lo: "rpow b (?i - ?j - 1) < \<bar>x\<bar>"
    by (simp add: rpow_diff[OF b, symmetric] algebra_simps)
  show "rpow b (expo b x) \<le> \<bar>x\<bar>" "\<bar>x\<bar> < rpow b (expo b x + 1)"
    using up lo by (simp_all add: expo_def q Let_def)
qed

lemma expo_le:
  assumes "2 \<le> b" "x \<noteq> 0" "\<bar>x\<bar> < rpow b e"
  shows "expo b x < e"
  using expo_bounds(1)[OF assms(1,2)] assms(3) rpow_strict[OF assms(1)] by (meson le_less_trans)

lemma expo_ge:
  assumes "2 \<le> b" "x \<noteq> 0" "rpow b e \<le> \<bar>x\<bar>"
  shows "e \<le> expo b x"
  using expo_bounds(2)[OF assms(1,2)] assms(3) rpow_strict[OF assms(1), of e "expo b x + 1"] by linarith

lemma expo_minus [simp]: "expo b (- x) = expo b x"
  by (simp add: expo_def)

section \<open>The laws of a rounding\<close>

text \<open>
  What the arithmetic of the code relies on: the rounding of a number type is monotone, odd and
  leaves the numbers of the type alone. A number is representable when it is its own rounding.
\<close>

locale rounding =
  fixes r :: "rat \<Rightarrow> rat"
  assumes mono: "x \<le> y \<Longrightarrow> r x \<le> r y"
    and idem: "r (r x) = r x"
    and zero: "r 0 = 0"
    and minus: "r (- x) = - r x"
begin

lemma nonneg: "0 \<le> x \<Longrightarrow> 0 \<le> r x"
  using mono[of 0 x] zero by simp

lemma nonpos: "x \<le> 0 \<Longrightarrow> r x \<le> 0"
  using mono[of x 0] zero by simp

lemma abs: "r \<bar>x\<bar> = \<bar>r x\<bar>"
proof (cases "0 \<le> x")
  case True
  then show ?thesis using nonneg[of x] by simp
next
  case False
  then show ?thesis using nonpos[of x] minus[of x] by simp
qed

lemma upper: "r y = y \<Longrightarrow> x \<le> y \<Longrightarrow> r x \<le> y"
  using mono[of x y] by simp

lemma lower: "r y = y \<Longrightarrow> y \<le> x \<Longrightarrow> y \<le> r x"
  using mono[of y x] by simp

lemma sign: "0 < r x \<Longrightarrow> 0 < x" "r x < 0 \<Longrightarrow> x < 0"
  using nonpos[of x] nonneg[of x] by force+

lemma between: "r a = a \<Longrightarrow> r c = c \<Longrightarrow> a \<le> x \<Longrightarrow> x \<le> c \<Longrightarrow> a \<le> r x \<and> r x \<le> c"
  using upper lower by blast

lemma minus_fixed: "r x = x \<Longrightarrow> r (- x) = - x"
  by (simp add: minus)

lemma abs_fixed: "r x = x \<Longrightarrow> r \<bar>x\<bar> = \<bar>x\<bar>"
  by (simp add: abs)

lemma diff_anti: "r (x - y) = - r (y - x)"
  using minus[of "y - x"] by simp

end

text \<open>The numbers with \<open>p\<close> digits in base \<open>b\<close> and exponent at least \<open>emin\<close>.\<close>

locale significand =
  fixes b p :: nat and emin :: int
  assumes base: "2 \<le> b" and prec: "1 \<le> p"
begin

lemma rnd_minus: "rnd b p emin (- x) = - rnd b p emin x"
  by (simp add: rnd_def Let_def half_even_minus)

lemma rnd_scaled:
  assumes m: "\<bar>m\<bar> < int b ^ p" and j: "emin \<le> j"
  shows "rnd b p emin (of_int m * rpow b j) = of_int m * rpow b j"
proof (cases "m = 0")
  case True
  then show ?thesis by (simp add: rnd_def)
next
  case False
  let ?x = "of_int m * rpow b j"
  let ?k = "max (expo b ?x - int p + 1) emin"
  have pos: "0 < rpow b j" by (rule rpow_pos[OF base])
  then have nz: "?x \<noteq> 0" using False by simp
  have "(of_int \<bar>m\<bar> :: rat) < rpow b (int p)" using m by (simp only: rpow_nat of_int_less_iff)
  then have "\<bar>?x\<bar> < rpow b (int p + j)"
    using pos by (simp add: abs_mult rpow_add[OF base])
  then have "expo b ?x < int p + j" by (rule expo_le[OF base nz])
  then have kj: "?k \<le> j" using j by simp
  define k where "k = ?k"
  define i where "i = nat (j - k)"
  have rj: "rpow b j = of_nat b ^ i * rpow b k"
    using kj by (simp add: rpow_of_nat[symmetric] rpow_add[OF base, symmetric] i_def k_def)
  have "?x / rpow b k = of_int (m * int b ^ i)"
    using rpow_pos[OF base, of k] by (simp add: rj)
  then have "half_even (?x / rpow b k) = m * int b ^ i"
    by (simp only: half_even_of_int)
  then have "of_int (half_even (?x / rpow b k)) * rpow b k = ?x"
    by (simp only: rj of_int_mult of_int_power of_int_of_nat_eq mult.assoc)
  then show ?thesis using nz by (simp add: rnd_def Let_def k_def)
qed

lemma rnd_power: "emin \<le> j \<Longrightarrow> rnd b p emin (rpow b (int p + j)) = rpow b (int p + j)"
proof -
  assume j: "emin \<le> j"
  have "\<bar>int b ^ (p - 1)\<bar> < int b ^ p"
    using base prec by (simp add: power_strict_increasing)
  then have "rnd b p emin (of_int (int b ^ (p - 1)) * rpow b (j + 1))
      = of_int (int b ^ (p - 1)) * rpow b (j + 1)"
    using j by (intro rnd_scaled) auto
  moreover have "of_int (int b ^ (p - 1)) * rpow b (j + 1) = rpow b (int p + j)"
    using prec by (simp add: rpow_of_nat[symmetric] rpow_add[OF base, symmetric] of_nat_diff add.commute)
  ultimately show ?thesis by simp
qed

lemma rnd_form:
  obtains m j where "rnd b p emin x = of_int m * rpow b j" "emin \<le> j" "\<bar>m\<bar> \<le> int b ^ p"
    "x \<noteq> 0 \<longrightarrow> j = max (expo b x - int p + 1) emin \<and> m = half_even (x / rpow b j)"
proof (cases "x = 0")
  case True
  then show ?thesis using that[of 0 emin] by (simp add: rnd_def)
next
  case False
  let ?k = "max (expo b x - int p + 1) emin"
  have "\<bar>x\<bar> < rpow b (expo b x + 1)" by (rule expo_bounds(2)[OF base False])
  also have "\<dots> \<le> rpow b (int p + ?k)" by (intro rpow_mono[OF base]) auto
  finally have "\<bar>x / rpow b ?k\<bar> \<le> of_int (int b ^ p)"
    using rpow_pos[OF base, of ?k]
    by (simp add: abs_divide pos_divide_le_eq rpow_add[OF base] rpow_of_nat)
  then have "x / rpow b ?k \<le> of_int (int b ^ p)" "of_int (- (int b ^ p)) \<le> x / rpow b ?k"
    by (simp_all only: abs_le_iff of_int_minus minus_le_iff)
  then have "half_even (x / rpow b ?k) \<le> int b ^ p" "- (int b ^ p) \<le> half_even (x / rpow b ?k)"
    by (simp_all only: half_even_le_int half_even_ge_int)
  then show ?thesis
    using that[of "half_even (x / rpow b ?k)" ?k] False by (simp add: rnd_def Let_def abs_le_iff)
qed

lemma rnd_idem: "rnd b p emin (rnd b p emin x) = rnd b p emin x"
proof -
  obtain m j where form: "rnd b p emin x = of_int m * rpow b j" "emin \<le> j" "\<bar>m\<bar> \<le> int b ^ p"
    by (rule rnd_form)
  consider "\<bar>m\<bar> < int b ^ p" | "m = int b ^ p" | "m = - (int b ^ p)"
    using form(3) by linarith
  then show ?thesis
  proof cases
    case 1
    then show ?thesis using form rnd_scaled by simp
  next
    case 2
    then have "rnd b p emin x = rpow b (int p + j)"
      using form(1) by (simp add: rpow_add[OF base] rpow_nat)
    then show ?thesis using rnd_power[OF form(2)] by simp
  next
    case 3
    then have "rnd b p emin x = - rpow b (int p + j)"
      using form(1) by (simp add: rpow_add[OF base] rpow_nat)
    then show ?thesis using rnd_power[OF form(2)] rnd_minus by simp
  qed
qed

lemma rnd_mono_pos:
  assumes x: "0 < x" and xy: "x \<le> y"
  shows "rnd b p emin x \<le> rnd b p emin y"
proof -
  obtain m j where X: "rnd b p emin x = of_int m * rpow b j" "emin \<le> j" "\<bar>m\<bar> \<le> int b ^ p"
    "j = max (expo b x - int p + 1) emin" "m = half_even (x / rpow b j)"
    using rnd_form[of x] x by force
  obtain n k where Y: "rnd b p emin y = of_int n * rpow b k" "emin \<le> k" "\<bar>n\<bar> \<le> int b ^ p"
    "k = max (expo b y - int p + 1) emin" "n = half_even (y / rpow b k)"
    using rnd_form[of y] x xy by force
  have ey: "rpow b (expo b y) \<le> y"
    using expo_bounds(1)[OF base, of y] x xy by simp
  have "rpow b (expo b x) \<le> \<bar>y\<bar>" using expo_bounds(1)[OF base, of x] x xy by simp
  then have "expo b x \<le> expo b y" using x xy by (intro expo_ge[OF base]) auto
  then have jk: "j \<le> k" using X(4) Y(4) by simp
  show ?thesis
  proof (cases "j = k")
    case True
    have "x / rpow b k \<le> y / rpow b k"
      using xy rpow_pos[OF base, of k] by (simp add: divide_right_mono)
    then have "m \<le> n" using X(5) Y(5) True half_even_mono by simp
    then show ?thesis
      using True X(1) Y(1) rpow_pos[OF base, of k] by (simp add: mult_right_mono)
  next
    case False
    with jk have jk': "j + 1 \<le> k" by simp
    have "of_int m * rpow b j \<le> rpow b (int p) * rpow b j"
      using X(3) rpow_pos[OF base, of j]
      by (intro mult_right_mono) (auto simp: rpow_nat simp del: of_int_power)
    also have "\<dots> = rpow b (int p + j)" by (simp add: rpow_add[OF base])
    also have "\<dots> \<le> rpow b (int (p - 1) + k)"
      using jk' prec by (intro rpow_mono[OF base]) auto
    also have "\<dots> = of_int (int b ^ (p - 1)) * rpow b k"
      by (simp add: rpow_add[OF base] rpow_of_nat)
    also have "\<dots> \<le> of_int n * rpow b k"
    proof -
      have "k = expo b y - int p + 1" using Y(4) jk' X(2) by simp
      then have "rpow b (int (p - 1)) * rpow b k \<le> y"
        using ey prec by (simp add: rpow_add[OF base, symmetric] of_nat_diff)
      then have "of_int (int b ^ (p - 1)) \<le> y / rpow b k"
        using rpow_pos[OF base, of k] by (simp add: pos_le_divide_eq rpow_of_nat)
      then have "int b ^ (p - 1) \<le> n" unfolding Y(5) by (rule half_even_ge_int)
      then show ?thesis
        using rpow_pos[OF base, of k] by (intro mult_right_mono) (auto simp only: of_int_le_iff)
    qed
    finally show ?thesis using X(1) Y(1) by simp
  qed
qed

lemma rnd_nonneg: "0 < x \<Longrightarrow> 0 \<le> rnd b p emin x"
proof -
  assume x: "0 < x"
  obtain m j where X: "rnd b p emin x = of_int m * rpow b j" "m = half_even (x / rpow b j)"
    using rnd_form[of x] x by force
  have "of_int 0 \<le> x / rpow b j" using x rpow_pos[OF base, of j] by simp
  then have "0 \<le> m" unfolding X(2) by (rule half_even_ge_int)
  then show ?thesis using X(1) rpow_pos[OF base, of j] by simp
qed

lemma rnd_mono: "x \<le> y \<Longrightarrow> rnd b p emin x \<le> rnd b p emin y"
proof -
  assume xy: "x \<le> y"
  consider "0 < x" | "y < 0" | "x \<le> 0" "0 \<le> y" by linarith
  then show ?thesis
  proof cases
    case 1
    then show ?thesis using xy by (rule rnd_mono_pos)
  next
    case 2
    then have "rnd b p emin (- y) \<le> rnd b p emin (- x)" using xy by (intro rnd_mono_pos) auto
    then show ?thesis by (simp add: rnd_minus)
  next
    case 3
    have z: "rnd b p emin 0 = 0" by (simp add: rnd_def)
    have "0 \<le> rnd b p emin (- x)" using 3(1) z rnd_nonneg[of "- x"] by (cases "x = 0") auto
    moreover have "0 \<le> rnd b p emin y" using 3(2) z rnd_nonneg[of y] by (cases "y = 0") auto
    ultimately show ?thesis by (simp add: rnd_minus)
  qed
qed

lemma rnd_error:
  assumes x: "x \<noteq> 0" and normal: "emin \<le> expo b x - int p + 1"
  shows "\<bar>rnd b p emin x - x\<bar> \<le> \<bar>x\<bar> * rpow b (1 - int p) / 2"
proof -
  define u where "u = rpow b (expo b x - int p + 1)"
  have u: "0 < u" using base by (simp add: u_def rpow_pos)
  have "rnd b p emin x - x = (of_int (half_even (x / u)) - x / u) * u"
    using x normal u by (simp add: rnd_def Let_def max_absorb1 u_def[symmetric] left_diff_distrib)
  then have "\<bar>rnd b p emin x - x\<bar> \<le> 1 / 2 * u"
    using half_even_error[of "x / u"] u by (simp add: abs_mult mult_right_mono del: of_int_diff)
  moreover have "u = rpow b (expo b x) * rpow b (1 - int p)"
    using rpow_add[of b "expo b x" "1 - int p"] base by (simp add: u_def algebra_simps)
  moreover have "\<dots> \<le> \<bar>x\<bar> * rpow b (1 - int p)"
    using expo_bounds(1)[OF _ x, of b] base rpow_pos[of b "1 - int p"] by (simp add: mult_right_mono)
  ultimately show ?thesis by simp
qed

sublocale rounding "rnd b p emin"
  by unfold_locales (simp_all add: rnd_mono rnd_idem rnd_minus, simp add: rnd_def)

end

section \<open>Decimal arithmetic\<close>

text \<open>
  A finite \<open>Decimal\<close> is a \<^typ>\<open>rat\<close>; \<open>+\<close>, \<open>-\<close>, \<open>*\<close> and \<open>/\<close> round their exact
  result to the 28 digits of the default context. The unary minus and \<open>abs\<close> of the code are
  applied to results of such operations and to inputs, which they leave exact up to the same
  rounding.
\<close>

type_synonym decimal = rat

definition dec :: "rat \<Rightarrow> decimal" where
  "dec x = rnd 10 28 (- 1000026) x"

definition dadd :: "decimal \<Rightarrow> decimal \<Rightarrow> decimal" where
  "dadd x y = dec (x + y)"

definition dsub :: "decimal \<Rightarrow> decimal \<Rightarrow> decimal" where
  "dsub x y = dec (x - y)"

definition dmul :: "decimal \<Rightarrow> decimal \<Rightarrow> decimal" where
  "dmul x y = dec (x * y)"

text \<open>Only for a non-zero divisor: \<open>Decimal\<close> division by zero raises, and the code that
  divides guards its divisor.\<close>

definition ddiv :: "decimal \<Rightarrow> decimal \<Rightarrow> decimal" where
  "ddiv x y = dec (x / y)"

text \<open>\<open>abs(x)\<close> and \<open>-x\<close> also round to the context.\<close>

definition dabs :: "decimal \<Rightarrow> decimal" where
  "dabs x = dec \<bar>x\<bar>"

definition dneg :: "decimal \<Rightarrow> decimal" where
  "dneg x = dec (- x)"

lemmas decimal_defs [decimal_ops] = dadd_def dsub_def dmul_def ddiv_def dabs_def dneg_def

interpretation dec_format: significand 10 28 "- 1000026"
  by unfold_locales auto

interpretation decr: rounding dec
  unfolding dec_def[abs_def] by (rule dec_format.rounding_axioms)

lemma dec_0 [simp]: "dec 0 = 0"
  by (rule decr.zero)

lemma dec_dec [simp]: "dec (dec x) = dec x"
  by (rule decr.idem)

lemma dec_minus: "dec (- x) = - dec x"
  by (rule decr.minus)

lemma dec_abs: "dec \<bar>x\<bar> = \<bar>dec x\<bar>"
  by (rule decr.abs)

text \<open>A number with at most 28 digits is exact.\<close>

lemma dec_exact: "\<bar>m\<bar> < 10 ^ 28 \<Longrightarrow> j \<le> 1000026 \<Longrightarrow> dec (of_int m / 10 ^ j) = of_int m / 10 ^ j"
proof -
  assume m: "\<bar>m\<bar> < 10 ^ 28" and j: "j \<le> 1000026"
  have "rpow 10 (- int j) = 1 / 10 ^ j"
    by (simp add: rpow_def power_int_minus divide_inverse)
  then show ?thesis
    using dec_format.rnd_scaled[of m "- int j"] m j by (simp add: dec_def)
qed

lemma dec_int: "\<bar>m\<bar> < 10 ^ 28 \<Longrightarrow> dec (of_int m) = of_int m"
  using dec_exact[of m 0] by simp

lemma dec_error: "1 / 10 ^ 9 \<le> \<bar>x\<bar> \<Longrightarrow> \<bar>dec x - x\<bar> \<le> \<bar>x\<bar> / (2 * 10 ^ 27)"
proof -
  assume x: "1 / 10 ^ 9 \<le> \<bar>x\<bar>"
  then have x0: "x \<noteq> 0" by auto
  have "rpow 10 (- int 9) \<le> \<bar>x\<bar>" using x unfolding rpow_minus by simp
  then have "- int 9 \<le> expo 10 x" by (intro expo_ge x0) auto
  then have "\<bar>dec x - x\<bar> \<le> \<bar>x\<bar> * rpow 10 (1 - int 28) / 2"
    unfolding dec_def by (intro dec_format.rnd_error x0) auto
  also have "rpow 10 (1 - int 28) = 1 / 10 ^ 27"
    using rpow_minus[of 10 27] by simp
  finally show ?thesis by simp
qed

text \<open>A fast path for evaluation: a number with at most nine decimal places and at most 28 digits
  is not rounded.\<close>

lemma dec_code [code]:
  "dec x = (case quotient_of x of (n, d) \<Rightarrow>
     let m = n * 1000000000 in
     if m mod d = 0 \<and> \<bar>m div d\<bar> < 10 ^ 28 then x else rnd 10 28 (- 1000026) x)"
proof -
  obtain n d where q: "quotient_of x = (n, d)" by (cases "quotient_of x")
  have d: "0 < d" and x: "x = of_int n / of_int d"
    using quotient_of_denom_pos[OF q] quotient_of_div[OF q] by simp_all
  have "dec x = x" if "n * 1000000000 mod d = 0" "\<bar>n * 1000000000 div d\<bar> < 10 ^ 28"
  proof -
    have "of_int (n * 1000000000 div d) = (of_int (n * 1000000000) / of_int d :: rat)"
      using that(1) d by (metis mod_eq_0_iff_dvd of_int_div)
    then have e: "x = of_int (n * 1000000000 div d) / 10 ^ 9" by (simp add: x)
    have "dec (of_int (n * 1000000000 div d) / 10 ^ 9) = of_int (n * 1000000000 div d) / 10 ^ 9"
      using that(2) by (rule dec_exact) simp
    then show ?thesis by (simp only: e[symmetric])
  qed
  then show ?thesis by (simp add: q dec_def Let_def)
qed

section \<open>Floating point\<close>

definition dbl :: "rat \<Rightarrow> rat" where
  "dbl x = rnd 2 53 (- 1074) x"

interpretation dbl_format: significand 2 53 "- 1074"
  by unfold_locales auto

interpretation dblr: rounding dbl
  unfolding dbl_def[abs_def] by (rule dbl_format.rounding_axioms)

lemma dbl_0 [simp]: "dbl 0 = 0"
  by (rule dblr.zero)

lemma dbl_dbl [simp]: "dbl (dbl x) = dbl x"
  by (rule dblr.idem)

lemma dbl_int: "\<bar>m\<bar> < 2 ^ 53 \<Longrightarrow> dbl (of_int m) = of_int m"
  using dbl_format.rnd_scaled[of m 0] by (simp add: dbl_def rpow_def)

lemma dbl_1 [simp]: "dbl 1 = 1"
  using dbl_int[of 1] by simp

lemma dbl_code [code]:
  "dbl x = (case quotient_of x of (n, d) \<Rightarrow>
     let m = n * 1024 in
     if m mod d = 0 \<and> \<bar>m div d\<bar> < 2 ^ 53 then x else rnd 2 53 (- 1074) x)"
proof -
  obtain n d where q: "quotient_of x = (n, d)" by (cases "quotient_of x")
  have d: "0 < d" and x: "x = of_int n / of_int d"
    using quotient_of_denom_pos[OF q] quotient_of_div[OF q] by simp_all
  have "dbl x = x" if "n * 1024 mod d = 0" "\<bar>n * 1024 div d\<bar> < 2 ^ 53"
  proof -
    have "of_int (n * 1024 div d) = (of_int (n * 1024) / of_int d :: rat)"
      using that(1) d by (metis mod_eq_0_iff_dvd of_int_div)
    then have e: "x = of_int (n * 1024 div d) * rpow 2 (- 10)"
      by (simp add: x rpow_def power_int_minus)
    have "dbl (of_int (n * 1024 div d) * rpow 2 (- 10)) = of_int (n * 1024 div d) * rpow 2 (- 10)"
      using dbl_format.rnd_scaled[of "n * 1024 div d" "- 10"] that(2) by (simp add: dbl_def)
    then show ?thesis by (simp only: e[symmetric])
  qed
  then show ?thesis by (simp add: q dbl_def Let_def)
qed

end
