(* ===== verification/Oms_Position.thy ===== *)
theory Oms_Position
  imports Py_Numbers
begin

text \<open>
  The netted position ledger of \<open>services/oms/position_engine.py\<close>. Quantities, prices and profits are
  \<open>Decimal\<close>s: every arithmetic step rounds to 28 digits as in the code. The lemmas show the ledger
  invariant, that the quantity is the rounded sum of the signed fills with dust snapped to zero,
  the accounting identity between realised profit, position value and fills, and the exact
  conditions under which a fill is refused. The two clock readings of the code are arguments. All numbers
  are finite here; \<open>Oms_Position_Any\<close> has the same engine on infinite and undefined ones, and shows
  that the two agree where both are defined.
\<close>

section \<open>Data\<close>

record position_state =
  pos_mode :: string
  pos_symbol :: string
  pos_quantity :: decimal
  pos_average_entry_price :: decimal
  pos_realized_pnl :: decimal
  pos_status :: string
  pos_updated_at :: string

record position_fill =
  fill_order_id :: string
  fill_mode :: string
  fill_symbol :: string
  fill_side :: string
  fill_quantity :: decimal
  fill_price :: decimal
  fill_fee :: decimal
  fill_filled_at :: "string option"

record position_update =
  upd_previous :: position_state
  upd_current :: position_state
  upd_realized_pnl_delta :: decimal

definition EPSILON :: decimal where
  "EPSILON = 1 / 10 ^ 9"

section \<open>Operations\<close>

definition pe_error :: "string \<Rightarrow> exc" where
  "pe_error msg = Exc PositionEngineError msg"

definition fill_signed_quantity :: "position_fill \<Rightarrow> decimal result" where
  "fill_signed_quantity fill = (let side = py_upper (py_strip (fill_side fill));
       quantity = dabs (fill_quantity fill) in
     if quantity \<le> EPSILON then Inl (pe_error ''fill.quantity must be positive'')
     else if side = ''BUY'' then Inr quantity
     else if side = ''SELL'' then Inr (dneg quantity)
     else Inl (pe_error (''unsupported fill side: '' @ fill_side fill)))"

definition same_direction :: "decimal \<Rightarrow> decimal \<Rightarrow> bool" where
  "same_direction left right \<longleftrightarrow> (left > 0 \<and> right > 0) \<or> (left < 0 \<and> right < 0)"

definition empty_position :: "string \<Rightarrow> string \<Rightarrow> string \<Rightarrow> position_state" where
  "empty_position now mode symbol =
     \<lparr>pos_mode = mode, pos_symbol = symbol, pos_quantity = 0, pos_average_entry_price = 0,
      pos_realized_pnl = 0, pos_status = ''CLOSED'', pos_updated_at = now\<rparr>"

definition validate_position_compatibility :: "position_state \<Rightarrow> position_fill \<Rightarrow> unit result" where
  "validate_position_compatibility position fill =
     (if pos_mode position \<noteq> fill_mode fill then
        Inl (pe_error (''position mode mismatch: position='' @ pos_mode position
          @ '', fill='' @ fill_mode fill))
      else if pos_symbol position \<noteq> fill_symbol fill then
        Inl (pe_error (''position symbol mismatch: position='' @ pos_symbol position
          @ '', fill='' @ fill_symbol fill))
      else Inr ())"

text \<open>The numeric core of \<open>apply_fill\<close>: new quantity, new average and realised profit before the
  fee, from the previous quantity and average, the signed fill quantity and the price.\<close>

definition fill_effect ::
    "decimal \<Rightarrow> decimal \<Rightarrow> decimal \<Rightarrow> decimal \<Rightarrow> decimal \<times> decimal \<times> decimal" where
  "fill_effect previous_quantity previous_average signed_fill_quantity price =
     (let fill_quantity_abs = dabs signed_fill_quantity in
      if dabs previous_quantity \<le> EPSILON then
        (signed_fill_quantity,
         if dabs signed_fill_quantity > EPSILON then price else 0,
         0)
      else if same_direction previous_quantity signed_fill_quantity then
        (let new_quantity = dadd previous_quantity signed_fill_quantity;
             weighted_notional = dadd (dmul (dabs previous_quantity) previous_average)
                                      (dmul fill_quantity_abs price)
         in (new_quantity, ddiv weighted_notional (dabs new_quantity), 0))
      else
        (let closing_quantity = min (dabs previous_quantity) fill_quantity_abs;
             realized_delta = dadd 0
               (if previous_quantity > 0
                then dmul (dsub price previous_average) closing_quantity
                else dmul (dsub previous_average price) closing_quantity);
             remaining = dsub fill_quantity_abs closing_quantity;
             direction = (if signed_fill_quantity > 0 then 1 else - 1)
         in if remaining > EPSILON then (dmul remaining direction, price, realized_delta)
            else
              (let new_quantity = dadd previous_quantity signed_fill_quantity in
               if dabs new_quantity \<le> EPSILON then (0, 0, realized_delta)
               else (new_quantity, previous_average, realized_delta))))"

text \<open>\<open>fill.filled_at or _utc_now_iso()\<close>\<close>

definition str_or :: "string option \<Rightarrow> string \<Rightarrow> string" where
  "str_or s d = (case s of None \<Rightarrow> d | Some t \<Rightarrow> if t = [] then d else t)"

definition apply_fill ::
    "string \<Rightarrow> string \<Rightarrow> position_state option \<Rightarrow> position_fill \<Rightarrow> position_update result" where
  "apply_fill now0 now1 position fill =
     rbind (fill_signed_quantity fill) (\<lambda>signed_fill_quantity.
       let previous = (case position of
             None \<Rightarrow> empty_position now0 (fill_mode fill) (fill_symbol fill) | Some p \<Rightarrow> p)
       in rbind (validate_position_compatibility previous fill) (\<lambda>_.
         let (new_quantity, new_average, realized) =
               fill_effect (pos_quantity previous) (pos_average_entry_price previous)
                 signed_fill_quantity (fill_price fill);
             realized_delta = dsub realized (dabs (fill_fee fill));
             current = \<lparr>pos_mode = fill_mode fill, pos_symbol = fill_symbol fill,
               pos_quantity = new_quantity, pos_average_entry_price = new_average,
               pos_realized_pnl = dadd (pos_realized_pnl previous) realized_delta,
               pos_status = (if dabs new_quantity > EPSILON then ''OPEN'' else ''CLOSED''),
               pos_updated_at = str_or (fill_filled_at fill) now1\<rparr>
         in Inr \<lparr>upd_previous = previous, upd_current = current,
                 upd_realized_pnl_delta = realized_delta\<rparr>))"

text \<open>A sequence of fills, each with its clock readings, applied from an optional position.\<close>

fun apply_fills ::
    "position_state option \<Rightarrow> (string \<times> string \<times> position_fill) list \<Rightarrow> position_state option result" where
  "apply_fills position [] = Inr position"
| "apply_fills position ((now0, now1, fill) # fills) =
     rbind (apply_fill now0 now1 position fill) (\<lambda>u. apply_fills (Some (upd_current u)) fills)"

section \<open>The ledger invariant\<close>

text \<open>
  A stored position is \<open>28\<close>-digit, is flat with zero average and status CLOSED, or exceeds the dust
  threshold and is OPEN.
\<close>

definition position_ok :: "position_state \<Rightarrow> bool" where
  "position_ok p \<longleftrightarrow> dec (pos_quantity p) = pos_quantity p
     \<and> (if \<bar>pos_quantity p\<bar> \<le> EPSILON
        then pos_quantity p = 0 \<and> pos_average_entry_price p = 0 \<and> pos_status p = ''CLOSED''
        else pos_status p = ''OPEN'')"

definition net_quantity :: "position_state option \<Rightarrow> decimal" where
  "net_quantity position = (case position of None \<Rightarrow> 0 | Some p \<Rightarrow> pos_quantity p)"

text \<open>The quantity a netted ledger should hold: the 28-digit sum, with dust snapped to zero.\<close>

definition snap :: "decimal \<Rightarrow> decimal" where
  "snap q = (if \<bar>q\<bar> \<le> EPSILON then 0 else q)"

lemma EPSILON_pos [simp]: "0 < EPSILON" "0 \<le> EPSILON" "\<not> EPSILON < 0" "\<not> EPSILON \<le> 0"
  by (simp_all add: EPSILON_def)

lemma dec_EPSILON: "dec EPSILON = EPSILON"
  using dec_exact[of 1 9] by (simp add: EPSILON_def)

lemma dabs_fixed: "dec q = q \<Longrightarrow> dabs q = \<bar>q\<bar>"
  by (simp add: dabs_def dec_abs)

lemma fill_signed_quantity_Inr:
  assumes "fill_signed_quantity fill = Inr sq"
  shows "dec sq = sq" and "EPSILON < \<bar>sq\<bar>"
  using assms
  by (auto simp: fill_signed_quantity_def Let_def dneg_def dabs_def dec_minus dec_abs
      split: if_splits)

lemma same_direction_grow:
  assumes q: "dec q = q" and sd: "same_direction q sq" and big: "\<not> \<bar>q\<bar> \<le> EPSILON"
  shows "EPSILON < \<bar>dec (q + sq)\<bar>"
proof -
  have "\<bar>q\<bar> \<le> \<bar>q + sq\<bar>" using sd by (auto simp: same_direction_def)
  then have "\<bar>q\<bar> \<le> dec \<bar>q + sq\<bar>" by (intro decr.lower decr.abs_fixed q)
  then show ?thesis using big by (simp add: dec_abs)
qed

lemma fill_effect_quantity:
  assumes q: "dec q = q" and sq: "dec sq = sq" "EPSILON < \<bar>sq\<bar>"
    and flat: "\<bar>q\<bar> \<le> EPSILON \<Longrightarrow> q = 0"
  shows "fst (fill_effect q avg sq price) = snap (dec (q + sq))"
proof (cases "\<bar>q\<bar> \<le> EPSILON")
  case True
  with flat sq q show ?thesis by (simp add: fill_effect_def dabs_fixed snap_def)
next
  case False
  note grow = same_direction_grow[OF q _ False]
  have flip: "dmul (dsub \<bar>sq\<bar> \<bar>q\<bar>) (if 0 < sq then 1 else - 1) = dec (q + sq)"
    if "\<not> same_direction q sq" "\<bar>q\<bar> \<le> \<bar>sq\<bar>"
  proof (cases "0 < sq")
    case True
    then have "\<bar>sq\<bar> - \<bar>q\<bar> = q + sq" using that False by (auto simp: same_direction_def abs_if)
    then show ?thesis using True by (simp only: dmul_def dsub_def) simp
  next
    case neg: False
    then have "\<bar>sq\<bar> - \<bar>q\<bar> = - (q + sq)" using that False sq(2)
      by (auto simp: same_direction_def abs_if split: if_splits)
    then have "dsub \<bar>sq\<bar> \<bar>q\<bar> = - dec (q + sq)" by (simp only: dsub_def dec_minus)
    then show ?thesis using neg by (simp add: dmul_def dec_minus)
  qed
  have dd: "dabs (dec x) = \<bar>dec x\<bar>" for x by (simp add: dabs_fixed)
  have small: "\<not> EPSILON < dsub \<bar>sq\<bar> (min \<bar>q\<bar> \<bar>sq\<bar>)" if "\<not> \<bar>q\<bar> \<le> \<bar>sq\<bar>"
    using that by (simp add: dsub_def)
  show ?thesis
  proof (cases "same_direction q sq")
    case True
    with False q sq grow[OF True] show ?thesis
      by (simp add: fill_effect_def Let_def dabs_fixed dadd_def snap_def)
  next
    case nsd: False
    show ?thesis
    proof (cases "\<bar>q\<bar> \<le> \<bar>sq\<bar> \<and> EPSILON < dsub \<bar>sq\<bar> \<bar>q\<bar>")
      case True
      have "EPSILON < \<bar>dec (q + sq)\<bar>"
        using flip[OF nsd] True by (auto simp: dmul_def dsub_def dec_minus split: if_splits)
      with True False nsd q sq flip show ?thesis
        by (simp add: fill_effect_def Let_def dabs_fixed snap_def min_def)
    next
      case nr: False
      then have "\<not> EPSILON < dsub \<bar>sq\<bar> (min \<bar>q\<bar> \<bar>sq\<bar>)"
        using small by (auto simp: min_def)
      with False nsd q sq show ?thesis
        by (simp add: fill_effect_def Let_def dabs_fixed dadd_def dd snap_def)
    qed
  qed
qed

lemma fill_effect_flat_average:
  assumes q: "dec q = q" and sq: "dec sq = sq" "EPSILON < \<bar>sq\<bar>"
    and flat: "\<bar>q\<bar> \<le> EPSILON \<Longrightarrow> q = 0"
    and zero: "\<bar>fst (fill_effect q avg sq price)\<bar> \<le> EPSILON"
  shows "fst (snd (fill_effect q avg sq price)) = 0"
proof -
  have s: "\<bar>snap (dec (q + sq))\<bar> \<le> EPSILON"
    using zero fill_effect_quantity[OF q sq flat] by simp
  then have s': "\<bar>dec (q + sq)\<bar> \<le> EPSILON" by (simp add: snap_def split: if_splits)
  then have "\<not> (same_direction q sq \<and> \<not> \<bar>q\<bar> \<le> EPSILON)"
    using same_direction_grow[OF q] by force
  with zero sq q s' show ?thesis
    by (auto simp: fill_effect_def Let_def dabs_fixed dadd_def dmul_def dsub_def dec_minus
        split: if_splits)
qed

lemma apply_fill_Inr:
  assumes "apply_fill now0 now1 position fill = Inr u"
  obtains sq nq na rd where
    "fill_signed_quantity fill = Inr sq"
    "upd_previous u = (case position of
       None \<Rightarrow> empty_position now0 (fill_mode fill) (fill_symbol fill) | Some p \<Rightarrow> p)"
    "pos_mode (upd_previous u) = fill_mode fill" "pos_symbol (upd_previous u) = fill_symbol fill"
    "fill_effect (pos_quantity (upd_previous u)) (pos_average_entry_price (upd_previous u))
       sq (fill_price fill) = (nq, na, rd)"
    "upd_realized_pnl_delta u = dsub rd (dabs (fill_fee fill))"
    "upd_current u = \<lparr>pos_mode = fill_mode fill, pos_symbol = fill_symbol fill,
       pos_quantity = nq, pos_average_entry_price = na,
       pos_realized_pnl = dadd (pos_realized_pnl (upd_previous u)) (upd_realized_pnl_delta u),
       pos_status = (if dabs nq > EPSILON then ''OPEN'' else ''CLOSED''),
       pos_updated_at = str_or (fill_filled_at fill) now1\<rparr>"
proof -
  define prev where "prev = (case position of
    None \<Rightarrow> empty_position now0 (fill_mode fill) (fill_symbol fill) | Some p \<Rightarrow> p)"
  obtain sq where sq: "fill_signed_quantity fill = Inr sq"
    and v: "validate_position_compatibility prev fill = Inr ()"
    using assms by (auto simp: apply_fill_def Let_def result_simps prev_def)
  obtain nq na rd where eff: "fill_effect (pos_quantity prev) (pos_average_entry_price prev)
      sq (fill_price fill) = (nq, na, rd)" by (metis prod_cases3)
  have m: "pos_mode prev = fill_mode fill" "pos_symbol prev = fill_symbol fill"
    using v by (auto simp: validate_position_compatibility_def split: if_splits)
  have u: "upd_previous u = prev" "upd_realized_pnl_delta u = dsub rd (dabs (fill_fee fill))"
    "upd_current u = \<lparr>pos_mode = fill_mode fill, pos_symbol = fill_symbol fill,
       pos_quantity = nq, pos_average_entry_price = na,
       pos_realized_pnl = dadd (pos_realized_pnl prev) (dsub rd (dabs (fill_fee fill))),
       pos_status = (if dabs nq > EPSILON then ''OPEN'' else ''CLOSED''),
       pos_updated_at = str_or (fill_filled_at fill) now1\<rparr>"
    using assms unfolding apply_fill_def prev_def[symmetric]
    by (auto simp: sq v eff Let_def)
  show ?thesis
    by (rule that[of sq nq na rd]) (use sq m eff u in \<open>simp_all add: prev_def\<close>)
qed

definition position_opt_ok :: "position_state option \<Rightarrow> bool" where
  "position_opt_ok position = (case position of None \<Rightarrow> True | Some p \<Rightarrow> position_ok p)"

lemma previous_ok:
  assumes "position_opt_ok position"
    and "prev = (case position of None \<Rightarrow> empty_position now0 m sy | Some p \<Rightarrow> p)"
  shows "dec (pos_quantity prev) = pos_quantity prev"
    and "\<bar>pos_quantity prev\<bar> \<le> EPSILON \<Longrightarrow> pos_quantity prev = 0"
    and "pos_quantity prev = net_quantity position"
  using assms
  by (auto simp: position_opt_ok_def position_ok_def net_quantity_def empty_position_def
      split: option.splits if_splits)

lemma snap_bounds: "dec (snap (dec x)) = snap (dec x)" "\<bar>snap x\<bar> \<le> EPSILON \<Longrightarrow> snap x = 0"
  by (auto simp: snap_def)

lemma apply_fill_step:
  assumes ok: "position_opt_ok position" and r: "apply_fill now0 now1 position fill = Inr u"
  shows "position_ok (upd_current u)"
    and "\<exists>sq. fill_signed_quantity fill = Inr sq
          \<and> pos_quantity (upd_current u) = snap (dec (net_quantity position + sq))"
proof -
  from r obtain sq nq na rd where
    sq: "fill_signed_quantity fill = Inr sq" and
    prev: "upd_previous u = (case position of
       None \<Rightarrow> empty_position now0 (fill_mode fill) (fill_symbol fill) | Some p \<Rightarrow> p)" and
    eff: "fill_effect (pos_quantity (upd_previous u)) (pos_average_entry_price (upd_previous u))
       sq (fill_price fill) = (nq, na, rd)" and
    cur: "upd_current u = \<lparr>pos_mode = fill_mode fill, pos_symbol = fill_symbol fill,
       pos_quantity = nq, pos_average_entry_price = na,
       pos_realized_pnl = dadd (pos_realized_pnl (upd_previous u)) (upd_realized_pnl_delta u),
       pos_status = (if dabs nq > EPSILON then ''OPEN'' else ''CLOSED''),
       pos_updated_at = str_or (fill_filled_at fill) now1\<rparr>"
    by (rule apply_fill_Inr)
  let ?q = "pos_quantity (upd_previous u)" and ?avg = "pos_average_entry_price (upd_previous u)"
  have q: "dec ?q = ?q" "?q = net_quantity position" and flat: "\<bar>?q\<bar> \<le> EPSILON \<Longrightarrow> ?q = 0"
    using previous_ok[OF ok prev] by blast+
  note S = fill_signed_quantity_Inr[OF sq]
  have nq: "nq = snap (dec (net_quantity position + sq))"
    using fill_effect_quantity[OF q(1) S flat, of ?avg "fill_price fill"] q(2)
    unfolding eff by simp
  then have fixed: "dec nq = nq" by (simp add: snap_bounds(1))
  have "na = 0" if "\<bar>nq\<bar> \<le> EPSILON"
    using fill_effect_flat_average[OF q(1) S flat, of ?avg "fill_price fill"] that
    unfolding eff by simp
  moreover have "nq = 0" if "\<bar>nq\<bar> \<le> EPSILON"
    using that nq snap_bounds(2) by metis
  ultimately show "position_ok (upd_current u)"
    using fixed by (auto simp: cur position_ok_def dabs_fixed)
  show "\<exists>sq. fill_signed_quantity fill = Inr sq
      \<and> pos_quantity (upd_current u) = snap (dec (net_quantity position + sq))"
    using sq nq by (simp add: cur)
qed

section \<open>Properties\<close>

text \<open>C33: The ledger invariant: starting from no position or a well-formed one, any sequence of fills
  that is accepted ends in a well-formed position: it is flat (quantity and average zero,
  CLOSED) or its quantity exceeds the dust threshold and it is OPEN.\<close>

theorem apply_fills_keeps_position_ok:
  assumes "position_opt_ok position" and "apply_fills position fills = Inr position'"
  shows "position_opt_ok position'"
  using assms
proof (induction fills arbitrary: position)
  case Nil
  then show ?case by simp
next
  case (Cons f fills)
  obtain now0 now1 fill where f: "f = (now0, now1, fill)" by (cases f)
  with Cons.prems obtain u where u: "apply_fill now0 now1 position fill = Inr u"
    and rest: "apply_fills (Some (upd_current u)) fills = Inr position'"
    by (auto simp: result_simps)
  have "position_opt_ok (Some (upd_current u))"
    using apply_fill_step(1)[OF Cons.prems(1) u] by (simp add: position_opt_ok_def)
  then show ?case using rest by (rule Cons.IH)
qed

definition sample_fill :: "string \<Rightarrow> rat \<Rightarrow> rat \<Rightarrow> position_fill" where
  "sample_fill side q p = \<lparr>fill_order_id = ''o1'', fill_mode = ''MOCK'', fill_symbol = ''BTC/USDT'',
     fill_side = side, fill_quantity = q, fill_price = p, fill_fee = 1 / 2, fill_filled_at = None\<rparr>"

theorem apply_fills_keeps_position_ok_witness:
  "\<exists>p. apply_fills None [(''t0'', ''t1'', sample_fill ''buy'' 2 100),
        (''t2'', ''t3'', sample_fill ''SELL'' (1 / 2) 110)] = Inr (Some p)
     \<and> position_opt_ok (Some p) \<and> pos_quantity p = 3 / 2"
proof -
  have "returns (\<lambda>r. case r of None \<Rightarrow> False | Some p \<Rightarrow> pos_quantity p = 3 / 2)
     (apply_fills None [(''t0'', ''t1'', sample_fill ''buy'' 2 100),
        (''t2'', ''t3'', sample_fill ''SELL'' (1 / 2) 110)])"
    by code_simp
  then obtain p where p: "apply_fills None [(''t0'', ''t1'', sample_fill ''buy'' 2 100),
        (''t2'', ''t3'', sample_fill ''SELL'' (1 / 2) 110)] = Inr (Some p)" "pos_quantity p = 3 / 2"
    by (auto simp: returns_iff simp del: apply_fills.simps split: option.splits)
  have "position_opt_ok None" by (simp add: position_opt_ok_def)
  from apply_fills_keeps_position_ok[OF this p(1)] p show ?thesis by blast
qed

text \<open>The abstract ledger: a running total of signed quantities, rounded to the decimal context and
  with dust snapped to zero.\<close>

fun ledger :: "decimal \<Rightarrow> decimal list \<Rightarrow> decimal" where
  "ledger q [] = q"
| "ledger q (s # ss) = ledger (snap (dec (q + s))) ss"

definition signed_of :: "position_fill \<Rightarrow> decimal" where
  "signed_of fill = (case fill_signed_quantity fill of Inl e \<Rightarrow> 0 | Inr q \<Rightarrow> q)"

text \<open>C1: The netted position refines the abstract ledger: whatever sequence of opening, adding,
  reducing, closing and reversing fills is applied, the quantity held at the end is the running
  total of the signed fill quantities.\<close>

theorem apply_fills_refines_ledger:
  assumes "position_opt_ok position" and "apply_fills position fills = Inr position'"
  shows "net_quantity position' =
    ledger (net_quantity position) (map (\<lambda>(now0, now1, fill). signed_of fill) fills)"
  using assms
proof (induction fills arbitrary: position)
  case Nil
  then show ?case by simp
next
  case (Cons f fills)
  obtain now0 now1 fill where f: "f = (now0, now1, fill)" by (cases f)
  with Cons.prems obtain u where u: "apply_fill now0 now1 position fill = Inr u"
    and rest: "apply_fills (Some (upd_current u)) fills = Inr position'"
    by (auto simp: result_simps)
  note step = apply_fill_step[OF Cons.prems(1) u]
  have "position_opt_ok (Some (upd_current u))" using step(1) by (simp add: position_opt_ok_def)
  from Cons.IH[OF this rest] step(2) show ?case
    by (auto simp: f signed_of_def net_quantity_def)
qed

theorem apply_fills_refines_ledger_witness:
  "returns (\<lambda>r. net_quantity r = ledger 0 [2, - 5]) (apply_fills None
     [(''t0'', ''t1'', sample_fill ''buy'' 2 100), (''t2'', ''t3'', sample_fill ''SELL'' 5 110)])"
proof -
  have "returns (\<lambda>r. True) (apply_fills None
     [(''t0'', ''t1'', sample_fill ''buy'' 2 100), (''t2'', ''t3'', sample_fill ''SELL'' 5 110)])"
    by code_simp
  then obtain r where r: "apply_fills None
     [(''t0'', ''t1'', sample_fill ''buy'' 2 100), (''t2'', ''t3'', sample_fill ''SELL'' 5 110)] = Inr r"
    by (rule returnsE)
  have "position_opt_ok None" by (simp add: position_opt_ok_def)
  note t = apply_fills_refines_ledger[OF this r]
  have "signed_of (sample_fill ''buy'' 2 100) = 2" "signed_of (sample_fill ''SELL'' 5 110) = - 5"
    by code_simp+
  with t show ?thesis
    by (simp add: returns_def r net_quantity_def[of None] del: apply_fills.simps ledger.simps)
qed

definition fill_acceptable :: "position_state option \<Rightarrow> position_fill \<Rightarrow> bool" where
  "fill_acceptable position fill \<longleftrightarrow> EPSILON < dabs (fill_quantity fill)
     \<and> norm_upper (fill_side fill) \<in> {''BUY'', ''SELL''}
     \<and> (case position of None \<Rightarrow> True
        | Some p \<Rightarrow> pos_mode p = fill_mode fill \<and> pos_symbol p = fill_symbol fill)"

text \<open>A fill with finite numbers is accepted exactly when its magnitude exceeds the dust threshold, its side is
  BUY or SELL up to case and surrounding white space, and an existing position has its mode and
  symbol; every refusal is a \<open>PositionEngineError\<close>.\<close>

lemma apply_fill_finite_iff:
  "case apply_fill now0 now1 position fill of
     Inl e \<Rightarrow> exc_class e = PositionEngineError \<and> \<not> fill_acceptable position fill
   | Inr u \<Rightarrow> fill_acceptable position fill
       \<and> pos_mode (upd_current u) = fill_mode fill \<and> pos_symbol (upd_current u) = fill_symbol fill"
proof (cases "apply_fill now0 now1 position fill")
  case (Inr u)
  then obtain sq nq na rd where "fill_signed_quantity fill = Inr sq" and "upd_previous u = (case position of
      None \<Rightarrow> empty_position now0 (fill_mode fill) (fill_symbol fill) | Some p \<Rightarrow> p)"
    and "pos_mode (upd_previous u) = fill_mode fill" "pos_symbol (upd_previous u) = fill_symbol fill"
    and "upd_current u = \<lparr>pos_mode = fill_mode fill, pos_symbol = fill_symbol fill,
       pos_quantity = nq, pos_average_entry_price = na,
       pos_realized_pnl = dadd (pos_realized_pnl (upd_previous u)) (upd_realized_pnl_delta u),
       pos_status = (if dabs nq > EPSILON then ''OPEN'' else ''CLOSED''),
       pos_updated_at = str_or (fill_filled_at fill) now1\<rparr>"
    by (rule apply_fill_Inr)
  then show ?thesis
    by (auto simp: Inr fill_acceptable_def fill_signed_quantity_def Let_def norm_upper_def
        split: if_splits option.splits)
next
  case (Inl e)
  have "\<exists>u. apply_fill now0 now1 position fill = Inr u" if "fill_signed_quantity fill = Inr sq"
    "validate_position_compatibility (case position of
       None \<Rightarrow> empty_position now0 (fill_mode fill) (fill_symbol fill) | Some p \<Rightarrow> p) fill = Inr ()" for sq
    using that by (simp add: apply_fill_def Let_def split: prod.splits)
  then have "fill_signed_quantity fill = Inl e \<or> validate_position_compatibility (case position of
       None \<Rightarrow> empty_position now0 (fill_mode fill) (fill_symbol fill) | Some p \<Rightarrow> p) fill = Inl e"
    using Inl by (auto simp: apply_fill_def Let_def rbind_def split: sum.splits)
  then show ?thesis
    by (auto simp: Inl fill_acceptable_def fill_signed_quantity_def validate_position_compatibility_def
        Let_def norm_upper_def pe_error_def empty_position_def split: if_splits option.splits)
qed

text \<open>Accounting: the equity of a position at a mark price, the exact weighted notional and realised
  gain of a fill, and the condition under which the sums and products of a fill fit in 28 digits
  (the division that yields the average price may still round).\<close>

definition position_equity :: "position_state \<Rightarrow> decimal \<Rightarrow> rat" where
  "position_equity p mark = pos_realized_pnl p + pos_quantity p * (mark - pos_average_entry_price p)"

definition weighted :: "decimal \<Rightarrow> decimal \<Rightarrow> decimal \<Rightarrow> decimal \<Rightarrow> rat" where
  "weighted q avg sq price = \<bar>q\<bar> * avg + \<bar>sq\<bar> * price"

definition realized_gain :: "decimal \<Rightarrow> decimal \<Rightarrow> decimal \<Rightarrow> decimal \<Rightarrow> rat" where
  "realized_gain q avg sq price = (if q > 0 then price - avg else avg - price) * min \<bar>q\<bar> \<bar>sq\<bar>"

definition effect_exact :: "decimal \<Rightarrow> decimal \<Rightarrow> decimal \<Rightarrow> decimal \<Rightarrow> bool" where
  "effect_exact q avg sq price \<longleftrightarrow>
     dec (q + sq) = q + sq \<and> (q + sq = 0 \<or> EPSILON < \<bar>q + sq\<bar>)
     \<and> dec (\<bar>q\<bar> * avg) = \<bar>q\<bar> * avg \<and> dec (\<bar>sq\<bar> * price) = \<bar>sq\<bar> * price
     \<and> dec (weighted q avg sq price) = weighted q avg sq price
     \<and> dec (price - avg) = price - avg \<and> dec (realized_gain q avg sq price) = realized_gain q avg sq price
     \<and> (same_direction q sq \<longrightarrow> EPSILON \<le> \<bar>weighted q avg sq price / (q + sq)\<bar>)"

lemma effect_same_direction:
  assumes q: "dec q = q" "\<not> \<bar>q\<bar> \<le> EPSILON" and sq: "dec sq = sq" and sd: "same_direction q sq"
    and ex: "effect_exact q avg sq price"
  shows "fill_effect q avg sq price = (q + sq, dec (weighted q avg sq price / \<bar>q + sq\<bar>), 0)"
proof -
  have "dec (\<bar>q\<bar> * avg + \<bar>sq\<bar> * price) = \<bar>q\<bar> * avg + \<bar>sq\<bar> * price"
    using ex by (simp add: effect_exact_def weighted_def)
  then show ?thesis
    using q sq sd ex
    by (simp add: fill_effect_def Let_def dabs_fixed dadd_def dmul_def ddiv_def effect_exact_def
        weighted_def)
qed

lemma opposite_signs:
  assumes "\<not> \<bar>q\<bar> \<le> EPSILON" "EPSILON < \<bar>sq\<bar>" "\<not> same_direction q sq"
  shows "q > 0 \<and> sq < 0 \<or> q < 0 \<and> sq > 0"
proof -
  have "q \<noteq> 0" "sq \<noteq> 0" using assms EPSILON_pos by auto
  then show ?thesis using assms(3) by (auto simp: same_direction_def)
qed

lemma effect_opposite:
  assumes q: "dec q = q" "\<not> \<bar>q\<bar> \<le> EPSILON" and sq: "dec sq = sq" "EPSILON < \<bar>sq\<bar>"
    and sd: "\<not> same_direction q sq" and ex: "effect_exact q avg sq price"
  shows "fill_effect q avg sq price =
    (q + sq, if q + sq = 0 then 0 else if \<bar>q\<bar> < \<bar>sq\<bar> then price else avg, realized_gain q avg sq price)"
proof -
  let ?c = "min \<bar>q\<bar> \<bar>sq\<bar>"
  note signs = opposite_signs[OF q(2) sq(2) sd]
  have s: "dec (q + sq) = q + sq" "q + sq = 0 \<or> EPSILON < \<bar>q + sq\<bar>"
    and d: "dec (price - avg) = price - avg" "dec (avg - price) = avg - price"
    and g: "dec (realized_gain q avg sq price) = realized_gain q avg sq price"
    using ex decr.diff_anti[of avg price] by (auto simp: effect_exact_def)
  have rem: "dec (\<bar>sq\<bar> - ?c) = \<bar>sq\<bar> - ?c"
  proof (cases "\<bar>q\<bar> \<le> \<bar>sq\<bar>")
    case True
    then have "\<bar>sq\<bar> - ?c = \<bar>q + sq\<bar>" using signs by auto
    then show ?thesis using decr.abs_fixed[OF s(1)] by metis
  qed simp
  have real: "0 < q \<Longrightarrow> dec (dec (price - avg) * min q \<bar>sq\<bar>) = realized_gain q avg sq price"
    "\<not> 0 < q \<Longrightarrow> dec (dec (avg - price) * min (- q) \<bar>sq\<bar>) = realized_gain q avg sq price"
    using g by (simp_all add: realized_gain_def d)
  have "fill_effect q avg sq price = (let rem = \<bar>sq\<bar> - ?c in
     if EPSILON < rem then (dec (rem * (if 0 < sq then 1 else - 1)), price, realized_gain q avg sq price)
     else if \<bar>q + sq\<bar> \<le> EPSILON then (0, 0, realized_gain q avg sq price)
     else (q + sq, avg, realized_gain q avg sq price))"
    using q sq sd s
    by (simp add: fill_effect_def Let_def dabs_fixed dadd_def dmul_def dsub_def rem real g)
  note eff = this
  consider (zero) "q + sq = 0" | (flip) "q + sq \<noteq> 0" "\<bar>q\<bar> < \<bar>sq\<bar>"
    | (reduce) "q + sq \<noteq> 0" "\<not> \<bar>q\<bar> < \<bar>sq\<bar>" by blast
  then show ?thesis
  proof cases
    case zero
    then have "\<bar>sq\<bar> - ?c = 0" by (auto simp: eq_neg_iff_add_eq_0[symmetric])
    with zero show ?thesis by (simp add: eff)
  next
    case flip
    then have c: "?c = \<bar>q\<bar>" and r: "\<bar>sq\<bar> - \<bar>q\<bar> = (if 0 < sq then 1 else - 1) * (q + sq)"
      using signs by (auto simp: abs_if)
    then have "\<bar>sq\<bar> - \<bar>q\<bar> = \<bar>q + sq\<bar>" using flip signs by (auto simp: abs_if)
    moreover have "(\<bar>sq\<bar> - \<bar>q\<bar>) * (if 0 < sq then 1 else - 1) = q + sq" using r by simp
    ultimately show ?thesis using flip s by (simp add: eff c Let_def)
  next
    case reduce
    then have c: "?c = \<bar>sq\<bar>" by simp
    show ?thesis using reduce s by (simp add: eff c)
  qed
qed

lemma fill_effect_accounting:
  assumes q: "dec q = q" and flat: "\<bar>q\<bar> \<le> EPSILON \<Longrightarrow> q = 0" and sq: "dec sq = sq" "EPSILON < \<bar>sq\<bar>"
    and ex: "effect_exact q avg sq price" and eff: "fill_effect q avg sq price = (nq, na, rd)"
  shows "\<bar>(nq * (m - na) + rd) - (q * (m - avg) + sq * (m - price))\<bar>
    \<le> \<bar>weighted q avg sq price\<bar> / (2 * 10 ^ 27)"
proof -
  have nonneg: "0 \<le> \<bar>weighted q avg sq price\<bar> / (2 * 10 ^ 27)" by simp
  consider (flat) "\<bar>q\<bar> \<le> EPSILON" | (same) "\<not> \<bar>q\<bar> \<le> EPSILON" "same_direction q sq"
    | (opp) "\<not> \<bar>q\<bar> \<le> EPSILON" "\<not> same_direction q sq" by blast
  then show ?thesis
  proof cases
    case flat
    then have "nq = sq" "na = price" "rd = 0" "q = 0"
      using assms(2) eff sq by (auto simp: fill_effect_def dabs_fixed)
    then show ?thesis using nonneg by simp
  next
    case same
    let ?W = "weighted q avg sq price" and ?n = "\<bar>q + sq\<bar>"
    have n: "0 < ?n" using same(2) by (auto simp: same_direction_def)
    have e: "nq = q + sq" "na = dec (?W / ?n)" "rd = 0"
      using effect_same_direction[OF q same(1) sq(1) same(2) ex] eff by auto
    have err: "\<bar>na - ?W / ?n\<bar> \<le> \<bar>?W / ?n\<bar> / (2 * 10 ^ 27)"
      unfolding e using ex same(2) by (intro dec_error) (auto simp: effect_exact_def EPSILON_def)
    have "\<bar>(nq * (m - na) + rd) - (q * (m - avg) + sq * (m - price))\<bar> = \<bar>?W - ?n * na\<bar>"
      using same(2) by (auto simp: same_direction_def e weighted_def algebra_simps)
    also have "\<dots> = \<bar>?n * (na - ?W / ?n)\<bar>"
      using n by (simp add: right_diff_distrib)
    also have "\<dots> = ?n * \<bar>na - ?W / ?n\<bar>" by (simp add: abs_mult)
    also have "\<dots> \<le> ?n * (\<bar>?W / ?n\<bar> / (2 * 10 ^ 27))"
      using err n by (intro mult_left_mono) auto
    also have "\<dots> = \<bar>?W\<bar> / (2 * 10 ^ 27)" using n by simp
    finally show ?thesis .
  next
    case opp
    note signs = opposite_signs[OF opp(1) sq(2) opp(2)]
    have "(nq * (m - na) + rd) - (q * (m - avg) + sq * (m - price)) = 0"
    proof (cases "sq = - q")
      case True
      then show ?thesis
        using effect_opposite[OF q opp(1) sq opp(2) ex] eff signs
        by (auto simp: realized_gain_def algebra_simps)
    next
      case False
      then have "q + sq \<noteq> 0" by (simp add: add_eq_0_iff)
      then show ?thesis
        using effect_opposite[OF q opp(1) sq opp(2) ex] eff signs
        by (auto simp: realized_gain_def min_def algebra_simps split: if_splits)
    qed
    then show ?thesis using nonneg by simp
  qed
qed
definition fill_exact :: "position_state \<Rightarrow> position_fill \<Rightarrow> bool" where
  "fill_exact prev fill \<longleftrightarrow>
     (let q = pos_quantity prev; avg = pos_average_entry_price prev; sq = signed_of fill;
          rd = snd (snd (fill_effect q avg sq (fill_price fill))); fee = \<bar>fill_fee fill\<bar>
      in effect_exact q avg sq (fill_price fill) \<and> dec fee = fee
         \<and> dec (rd - fee) = rd - fee
         \<and> dec (pos_realized_pnl prev + (rd - fee)) = pos_realized_pnl prev + (rd - fee))"

lemma apply_fill_numbers:
  assumes ok: "position_opt_ok position" and r: "apply_fill now0 now1 position fill = Inr u"
  shows "fill_signed_quantity fill = Inr (signed_of fill)"
    and "dec (pos_quantity (upd_previous u)) = pos_quantity (upd_previous u)"
    and "\<bar>pos_quantity (upd_previous u)\<bar> \<le> EPSILON \<Longrightarrow> pos_quantity (upd_previous u) = 0"
    and "fill_effect (pos_quantity (upd_previous u)) (pos_average_entry_price (upd_previous u))
      (signed_of fill) (fill_price fill) = (pos_quantity (upd_current u),
        pos_average_entry_price (upd_current u),
        snd (snd (fill_effect (pos_quantity (upd_previous u)) (pos_average_entry_price (upd_previous u))
          (signed_of fill) (fill_price fill))))"
    and "pos_realized_pnl (upd_current u) = dadd (pos_realized_pnl (upd_previous u))
      (dsub (snd (snd (fill_effect (pos_quantity (upd_previous u))
         (pos_average_entry_price (upd_previous u)) (signed_of fill) (fill_price fill))))
         (dabs (fill_fee fill)))"
proof -
  from r obtain sq nq na rd where
    sq: "fill_signed_quantity fill = Inr sq" and
    prev: "upd_previous u = (case position of
       None \<Rightarrow> empty_position now0 (fill_mode fill) (fill_symbol fill) | Some p \<Rightarrow> p)" and
    eff: "fill_effect (pos_quantity (upd_previous u)) (pos_average_entry_price (upd_previous u))
       sq (fill_price fill) = (nq, na, rd)" and
    delta: "upd_realized_pnl_delta u = dsub rd (dabs (fill_fee fill))" and
    cur: "upd_current u = \<lparr>pos_mode = fill_mode fill, pos_symbol = fill_symbol fill,
       pos_quantity = nq, pos_average_entry_price = na,
       pos_realized_pnl = dadd (pos_realized_pnl (upd_previous u)) (upd_realized_pnl_delta u),
       pos_status = (if dabs nq > EPSILON then ''OPEN'' else ''CLOSED''),
       pos_updated_at = str_or (fill_filled_at fill) now1\<rparr>"
    by (rule apply_fill_Inr)
  have [simp]: "signed_of fill = sq" by (simp add: signed_of_def sq)
  show "fill_signed_quantity fill = Inr (signed_of fill)" by (simp add: sq)
  show "dec (pos_quantity (upd_previous u)) = pos_quantity (upd_previous u)"
    and "\<bar>pos_quantity (upd_previous u)\<bar> \<le> EPSILON \<Longrightarrow> pos_quantity (upd_previous u) = 0"
    using previous_ok[OF ok prev] by blast+
  show "fill_effect (pos_quantity (upd_previous u)) (pos_average_entry_price (upd_previous u))
      (signed_of fill) (fill_price fill) = (pos_quantity (upd_current u),
        pos_average_entry_price (upd_current u),
        snd (snd (fill_effect (pos_quantity (upd_previous u)) (pos_average_entry_price (upd_previous u))
          (signed_of fill) (fill_price fill))))"
    by (simp add: eff cur)
  show "pos_realized_pnl (upd_current u) = dadd (pos_realized_pnl (upd_previous u))
      (dsub (snd (snd (fill_effect (pos_quantity (upd_previous u))
         (pos_average_entry_price (upd_previous u)) (signed_of fill) (fill_price fill))))
         (dabs (fill_fee fill)))"
    by (simp add: eff cur delta)
qed

text \<open>C4: The accounting identity. When the quantities, products, price difference, realised gain, fee and profit
  of a fill fit in 28 digits, it leaves no dust, and the average of a growing position is at least
  \<open>10^-9\<close>, the equity at any mark price after the fill is the equity before it plus what the fill
  itself gained at that mark, minus the fee; the only error is the rounding of the average price
  when a position grows, at most \<open>5 * 10^-28\<close> of the weighted notional.\<close>

theorem fill_accounting_identity:
  assumes ok: "position_opt_ok position" and r: "apply_fill now0 now1 position fill = Inr u"
    and ex: "fill_exact (upd_previous u) fill"
  shows "\<bar>position_equity (upd_current u) mark
      - (position_equity (upd_previous u) mark + signed_of fill * (mark - fill_price fill) - \<bar>fill_fee fill\<bar>)\<bar>
    \<le> \<bar>weighted (pos_quantity (upd_previous u)) (pos_average_entry_price (upd_previous u))
         (signed_of fill) (fill_price fill)\<bar> / (2 * 10 ^ 27)"
proof -
  note N = apply_fill_numbers[OF ok r]
  have eff: "effect_exact (pos_quantity (upd_previous u)) (pos_average_entry_price (upd_previous u))
      (signed_of fill) (fill_price fill)"
    using ex by (simp add: fill_exact_def Let_def)
  let ?rd = "snd (snd (fill_effect (pos_quantity (upd_previous u))
     (pos_average_entry_price (upd_previous u)) (signed_of fill) (fill_price fill)))"
  have "pos_realized_pnl (upd_current u) = pos_realized_pnl (upd_previous u) + (?rd - \<bar>fill_fee fill\<bar>)"
    using ex unfolding N(5) fill_exact_def Let_def by (simp add: dadd_def dsub_def dabs_def)
  then have "position_equity (upd_current u) mark
      - (position_equity (upd_previous u) mark + signed_of fill * (mark - fill_price fill) - \<bar>fill_fee fill\<bar>)
    = (pos_quantity (upd_current u) * (mark - pos_average_entry_price (upd_current u)) + ?rd)
      - (pos_quantity (upd_previous u) * (mark - pos_average_entry_price (upd_previous u))
         + signed_of fill * (mark - fill_price fill))"
    by (simp add: position_equity_def)
  then show ?thesis
    using fill_effect_accounting[OF N(2,3) fill_signed_quantity_Inr[OF N(1)] eff N(4), of mark]
    by (simp only:)
qed

theorem fill_accounting_identity_witness:
  "returns (\<lambda>u. \<bar>position_equity (upd_current u) 120
      - (position_equity (upd_previous u) 120 + 2 * (120 - 100) - 1 / 2)\<bar> \<le> 200 / (2 * 10 ^ 27))
    (apply_fill ''t0'' ''t1'' None (sample_fill ''buy'' 2 100))"
proof -
  have "returns (\<lambda>u. fill_exact (upd_previous u) (sample_fill ''buy'' 2 100)
      \<and> weighted (pos_quantity (upd_previous u)) (pos_average_entry_price (upd_previous u)) 2 100 = 200)
    (apply_fill ''t0'' ''t1'' None (sample_fill ''buy'' 2 100))"
    by code_simp
  then obtain u where u: "apply_fill ''t0'' ''t1'' None (sample_fill ''buy'' 2 100) = Inr u"
    "fill_exact (upd_previous u) (sample_fill ''buy'' 2 100)"
    "weighted (pos_quantity (upd_previous u)) (pos_average_entry_price (upd_previous u)) 2 100 = 200"
    by (auto elim: returnsE)
  have "position_opt_ok None" by (simp add: position_opt_ok_def)
  note t = fill_accounting_identity[OF this u(1,2), of 120]
  have v: "signed_of (sample_fill ''buy'' 2 100) = 2" "fill_price (sample_fill ''buy'' 2 100) = 100"
    "\<bar>fill_fee (sample_fill ''buy'' 2 100)\<bar> = 1 / 2"
    by code_simp+
  show ?thesis using t unfolding u(1) returns_def v u(3) by (simp only: abs_numeral sum.case)
qed

text \<open>Adding to a position keeps its average entry price between the previous average and the fill
  price, rounding included.\<close>

theorem average_price_between:
  assumes ok: "position_opt_ok position" and r: "apply_fill now0 now1 position fill = Inr u"
    and ex: "fill_exact (upd_previous u) fill"
    and sd: "same_direction (pos_quantity (upd_previous u)) (signed_of fill)"
    and fit: "dec (fill_price fill) = fill_price fill"
      "dec (pos_average_entry_price (upd_previous u)) = pos_average_entry_price (upd_previous u)"
  shows "min (pos_average_entry_price (upd_previous u)) (fill_price fill)
      \<le> pos_average_entry_price (upd_current u)
    \<and> pos_average_entry_price (upd_current u)
      \<le> max (pos_average_entry_price (upd_previous u)) (fill_price fill)"
proof -
  note N = apply_fill_numbers[OF ok r] and S = fill_signed_quantity_Inr
  define q avg sq price where "q = pos_quantity (upd_previous u)"
    and "avg = pos_average_entry_price (upd_previous u)" and "sq = signed_of fill"
    and "price = fill_price fill"
  have eff: "effect_exact q avg sq price"
    using ex by (simp add: fill_exact_def Let_def q_def avg_def sq_def price_def)
  have sd': "same_direction q sq" using sd by (simp add: q_def sq_def)
  then have big: "\<not> \<bar>q\<bar> \<le> EPSILON" and n: "0 < \<bar>q + sq\<bar>" and nn: "\<bar>q + sq\<bar> = \<bar>q\<bar> + \<bar>sq\<bar>"
    using N(3) by (auto simp: same_direction_def q_def)
  have na: "pos_average_entry_price (upd_current u) = dec (weighted q avg sq price / \<bar>q + sq\<bar>)"
    using effect_same_direction[OF _ big _ sd' eff] N(2,4) S(1)[OF N(1)]
    unfolding q_def avg_def sq_def price_def by (metis fst_conv snd_conv)
  have "weighted q avg sq price \<le> \<bar>q\<bar> * max avg price + \<bar>sq\<bar> * max avg price"
    "\<bar>q\<bar> * min avg price + \<bar>sq\<bar> * min avg price \<le> weighted q avg sq price"
    unfolding weighted_def by (intro add_mono mult_left_mono; simp)+
  then have "min avg price \<le> weighted q avg sq price / \<bar>q + sq\<bar>"
    "weighted q avg sq price / \<bar>q + sq\<bar> \<le> max avg price"
    using n by (simp_all add: pos_le_divide_eq pos_divide_le_eq nn algebra_simps)
  then have "min avg price \<le> dec (weighted q avg sq price / \<bar>q + sq\<bar>)
      \<and> dec (weighted q avg sq price / \<bar>q + sq\<bar>) \<le> max avg price"
    using fit by (intro decr.between) (auto simp: min_def max_def avg_def price_def)
  then show ?thesis by (simp add: na avg_def price_def)
qed

theorem average_price_between_witness:
  "returns (\<lambda>u. 100 \<le> pos_average_entry_price (upd_current u)
      \<and> pos_average_entry_price (upd_current u) \<le> 101)
    (apply_fill ''t0'' ''t1'' (Some (empty_position ''t'' ''MOCK'' ''BTC/USDT''
       \<lparr>pos_quantity := 1, pos_average_entry_price := 100, pos_status := ''OPEN''\<rparr>))
       (sample_fill ''buy'' 2 101))"
proof -
  let ?p = "empty_position ''t'' ''MOCK'' ''BTC/USDT''
       \<lparr>pos_quantity := 1, pos_average_entry_price := 100, pos_status := ''OPEN''\<rparr>"
  let ?f = "sample_fill ''buy'' 2 101"
  have "returns (\<lambda>u. position_opt_ok (Some ?p) \<and> fill_exact (upd_previous u) ?f
      \<and> same_direction (pos_quantity (upd_previous u)) (signed_of ?f)
      \<and> dec (fill_price ?f) = fill_price ?f
      \<and> pos_average_entry_price (upd_previous u) = 100 \<and> fill_price ?f = 101
      \<and> dec (pos_average_entry_price (upd_previous u)) = pos_average_entry_price (upd_previous u))
    (apply_fill ''t0'' ''t1'' (Some ?p) ?f)"
    by code_simp
  then obtain u where u: "apply_fill ''t0'' ''t1'' (Some ?p) ?f = Inr u"
    and h: "position_opt_ok (Some ?p)" "fill_exact (upd_previous u) ?f"
      "same_direction (pos_quantity (upd_previous u)) (signed_of ?f)"
      "dec (fill_price ?f) = fill_price ?f"
      "dec (pos_average_entry_price (upd_previous u)) = pos_average_entry_price (upd_previous u)"
    and v: "pos_average_entry_price (upd_previous u) = 100" "fill_price ?f = 101"
    by (auto elim: returnsE)
  from average_price_between[OF h(1) u h(2-5)] v show ?thesis
    by (simp add: returns_def u)
qed

end
