(* ===== verification/Py_Float.thy ===== *)
theory Py_Float
  imports Py_Numbers
begin

text \<open>
  The \<open>float\<close> type of Python: finite doubles, the infinities and the not-a-number value, with
  the arithmetic, the comparisons, \<open>max\<close>/\<open>min\<close> as the interpreter computes them, \<open>repr\<close>
  (the shortest decimal that rounds back), the conversion \<open>Decimal(str(x))\<close> and the fixed
  format \<open>f"{x:.nf}"\<close>. The sign of a zero is not recorded.
\<close>

section \<open>Values and arithmetic\<close>

datatype pyfloat = Fin rat | PInf | NInf | NaN

text \<open>Rounding of an exact result, with overflow to an infinity.\<close>

definition too_big :: "rat \<Rightarrow> bool" where
  "too_big r \<longleftrightarrow> r \<noteq> 0 \<and> 1024 \<le> expo 2 r"

definition fl :: "rat \<Rightarrow> pyfloat" where
  "fl x = (let r = dbl x in if too_big r then (if 0 < r then PInf else NInf) else Fin r)"

fun fneg :: "pyfloat \<Rightarrow> pyfloat" where
  "fneg (Fin x) = Fin (- x)"
| "fneg PInf = NInf"
| "fneg NInf = PInf"
| "fneg NaN = NaN"

fun fabs :: "pyfloat \<Rightarrow> pyfloat" where
  "fabs (Fin x) = Fin \<bar>x\<bar>"
| "fabs PInf = PInf"
| "fabs NInf = PInf"
| "fabs NaN = NaN"

fun fadd :: "pyfloat \<Rightarrow> pyfloat \<Rightarrow> pyfloat" where
  "fadd (Fin x) (Fin y) = fl (x + y)"
| "fadd NaN y = NaN"
| "fadd x NaN = NaN"
| "fadd PInf NInf = NaN"
| "fadd NInf PInf = NaN"
| "fadd PInf y = PInf"
| "fadd NInf y = NInf"
| "fadd x PInf = PInf"
| "fadd x NInf = NInf"

definition fsub :: "pyfloat \<Rightarrow> pyfloat \<Rightarrow> pyfloat" where
  "fsub x y = fadd x (fneg y)"

definition inf_signed :: "rat \<Rightarrow> pyfloat" where
  "inf_signed s = (if s = 0 then NaN else if 0 < s then PInf else NInf)"

fun fsgn :: "pyfloat \<Rightarrow> rat" where
  "fsgn (Fin x) = sgn x"
| "fsgn PInf = 1"
| "fsgn NInf = - 1"
| "fsgn NaN = 0"

fun fmul :: "pyfloat \<Rightarrow> pyfloat \<Rightarrow> pyfloat" where
  "fmul (Fin x) (Fin y) = fl (x * y)"
| "fmul NaN y = NaN"
| "fmul x NaN = NaN"
| "fmul x y = inf_signed (fsgn x * fsgn y)"

definition zero_division :: exc where
  "zero_division = Exc ZeroDivisionError ''float division by zero''"

fun fdiv :: "pyfloat \<Rightarrow> pyfloat \<Rightarrow> pyfloat result" where
  "fdiv x (Fin y) =
     (if y = 0 then Inl zero_division
      else Inr (case x of Fin a \<Rightarrow> fl (a / y) | NaN \<Rightarrow> NaN | _ \<Rightarrow> inf_signed (fsgn x * sgn y)))"
| "fdiv x NaN = Inr NaN"
| "fdiv x y = Inr (case x of Fin a \<Rightarrow> Fin 0 | _ \<Rightarrow> NaN)"

fun flt :: "pyfloat \<Rightarrow> pyfloat \<Rightarrow> bool" where
  "flt (Fin x) (Fin y) = (x < y)"
| "flt NaN y = False"
| "flt x NaN = False"
| "flt PInf y = False"
| "flt x NInf = False"
| "flt x y = True"

fun fle :: "pyfloat \<Rightarrow> pyfloat \<Rightarrow> bool" where
  "fle (Fin x) (Fin y) = (x \<le> y)"
| "fle NaN y = False"
| "fle x NaN = False"
| "fle NInf y = True"
| "fle x PInf = True"
| "fle x y = False"

fun feq :: "pyfloat \<Rightarrow> pyfloat \<Rightarrow> bool" where
  "feq NaN y = False"
| "feq x y = (x = y)"

text \<open>\<open>max(a, b)\<close> and \<open>min(a, b)\<close>: the first argument unless the second is strictly better.\<close>

definition fmax :: "pyfloat \<Rightarrow> pyfloat \<Rightarrow> pyfloat" where
  "fmax a b = (if flt a b then b else a)"

definition fmin :: "pyfloat \<Rightarrow> pyfloat \<Rightarrow> pyfloat" where
  "fmin a b = (if flt b a then b else a)"

text \<open>\<open>float(n)\<close> of an \<open>int\<close>\<close>

definition float_of_int :: "int \<Rightarrow> pyfloat result" where
  "float_of_int n = (case fl (of_int n) of
      Fin x \<Rightarrow> Inr (Fin x)
    | _ \<Rightarrow> Inl (Exc OverflowError ''int too large to convert to float''))"

definition finite_float :: "pyfloat \<Rightarrow> bool" where
  "finite_float x = (case x of Fin _ \<Rightarrow> True | _ \<Rightarrow> False)"

text \<open>A well-formed finite value is a double.\<close>

definition wf_float :: "pyfloat \<Rightarrow> bool" where
  "wf_float x = (case x of Fin a \<Rightarrow> dbl a = a \<and> \<not> too_big a | _ \<Rightarrow> True)"

lemma too_big_iff: "too_big r \<longleftrightarrow> 2 ^ 1024 \<le> \<bar>r\<bar>"
proof (cases "r = 0")
  case True
  then show ?thesis by (simp add: too_big_def)
next
  case False
  have p: "rpow 2 1024 = 2 ^ 1024" by (simp add: rpow_def)
  show ?thesis
    using expo_ge[of 2 r 1024] expo_le[of 2 r 1024] False
    by (auto simp: too_big_def p not_le[symmetric] simp del: not_le)
qed

lemma wf_float_fl [simp]: "wf_float (fl x)"
  by (auto simp: wf_float_def fl_def Let_def)

lemma fl_wf: "wf_float (Fin a) \<Longrightarrow> fl a = Fin a"
  by (auto simp: wf_float_def fl_def Let_def)

lemma fl_0 [simp]: "fl 0 = Fin 0"
  by (simp add: fl_def too_big_def)

lemma fle_refl: "x \<noteq> NaN \<Longrightarrow> fle x x"
  by (cases x) auto

lemma fle_trans: "fle x y \<Longrightarrow> fle y z \<Longrightarrow> fle x z"
  by (cases x; cases y; cases z) auto

lemma flt_fle: "flt x y \<Longrightarrow> fle x y"
  by (cases x; cases y) auto

lemma not_flt: "x \<noteq> NaN \<Longrightarrow> y \<noteq> NaN \<Longrightarrow> \<not> flt x y \<longleftrightarrow> fle y x"
  by (cases x; cases y) auto

lemma not_fle: "x \<noteq> NaN \<Longrightarrow> y \<noteq> NaN \<Longrightarrow> \<not> fle x y \<longleftrightarrow> flt y x"
  by (cases x; cases y) auto

lemma fl_not_NaN [simp]: "fl x \<noteq> NaN"
  by (simp add: fl_def Let_def)

lemma fl_mono: "x \<le> y \<Longrightarrow> fle (fl x) (fl y)"
  using dblr.mono[of x y] by (auto simp: fl_def Let_def too_big_iff abs_if split: if_splits)

lemma fl_lower: "wf_float (Fin a) \<Longrightarrow> a \<le> x \<Longrightarrow> fle (Fin a) (fl x)"
  using fl_mono[of a x] fl_wf[of a] by simp

lemma fl_upper: "wf_float (Fin a) \<Longrightarrow> x \<le> a \<Longrightarrow> fle (fl x) (Fin a)"
  using fl_mono[of x a] fl_wf[of a] by simp

lemma fl_nonneg: "0 \<le> x \<Longrightarrow> fle (Fin 0) (fl x)"
  using fl_mono[of 0 x] by simp

lemma fl_minus: "fl (- x) = fneg (fl x)"
  using dblr.minus[of x] by (auto simp: fl_def Let_def too_big_def)

lemma wf_float_int: "\<bar>m\<bar> < 2 ^ 53 \<Longrightarrow> wf_float (Fin (of_int m))"
proof -
  assume m: "\<bar>m\<bar> < 2 ^ 53"
  have "(of_int \<bar>m\<bar> :: rat) < of_int (2 ^ 53)" using m by (simp only: of_int_less_iff)
  also have "\<dots> \<le> 2 ^ 1024" by simp
  finally have "\<bar>of_int m :: rat\<bar> < 2 ^ 1024" by (simp only: of_int_abs)
  then show ?thesis using dbl_int[OF m] by (simp add: wf_float_def too_big_iff)
qed

text \<open>A dyadic fraction with a small numerator is exact.\<close>

lemma wf_float_dyadic:
  assumes m: "\<bar>m\<bar> < 2 ^ 53" and j: "j \<le> 1074"
  shows "wf_float (Fin (of_int m / 2 ^ j))"
proof -
  have "rpow 2 (- int j) = 1 / 2 ^ j"
    by (simp add: rpow_def power_int_minus divide_inverse)
  then have d: "dbl (of_int m / 2 ^ j) = of_int m / 2 ^ j"
    using dbl_format.rnd_scaled[of m "- int j"] m j by (simp add: dbl_def)
  have "\<bar>of_int m / 2 ^ j\<bar> \<le> \<bar>of_int m :: rat\<bar>"
    by (simp add: abs_divide divide_le_eq mult_le_cancel_left1)
  moreover have "\<bar>of_int m :: rat\<bar> < 2 ^ 1024"
    using wf_float_int[OF m] by (simp add: wf_float_def too_big_iff)
  ultimately show ?thesis using d by (simp add: wf_float_def too_big_iff)
qed

lemma fl_int: "\<bar>m\<bar> < 2 ^ 53 \<Longrightarrow> fl (of_int m) = Fin (of_int m)"
  using wf_float_int fl_wf by blast

lemma wf_float_1 [simp]: "wf_float (Fin 1)" and wf_float_0 [simp]: "wf_float (Fin 0)"
  using wf_float_int[of 1] wf_float_int[of 0] by simp_all

lemma fl_1 [simp]: "fl 1 = Fin 1"
  using fl_wf wf_float_1 by blast

lemma fmax_ge: "a \<noteq> NaN \<Longrightarrow> fle a (fmax a b)"
  by (auto simp: fmax_def fle_refl flt_fle)

lemma fmin_le: "a \<noteq> NaN \<Longrightarrow> fle (fmin a b) a"
  by (auto simp: fmin_def fle_refl flt_fle)

lemma fmax_Fin [simp]: "fmax (Fin a) (Fin b) = Fin (max a b)"
  by (auto simp: fmax_def max_def)

lemma fmin_Fin [simp]: "fmin (Fin a) (Fin b) = Fin (min a b)"
  by (auto simp: fmin_def min_def)

section \<open>Decimal digits of a float\<close>

text \<open>
  \<open>repr\<close> chooses the decimal with the fewest significant digits that rounds to the float,
  and the closest one among those. \<open>repr_cands x n\<close> are the two neighbours of \<open>x\<close> with
  \<open>n\<close> digits that round to \<open>x\<close>; a decimal is a coefficient and an exponent.
\<close>

definition dec_val :: "int \<times> int \<Rightarrow> rat" where
  "dec_val d = (case d of (m, k) \<Rightarrow> of_int m * rpow 10 k)"

definition repr_cands :: "rat \<Rightarrow> nat \<Rightarrow> (int \<times> int) list" where
  "repr_cands x n = (let k = expo 10 x - int n + 1; m = \<lfloor>x / rpow 10 k\<rfloor>
     in filter (\<lambda>d. dbl (dec_val d) = x) [(m, k), (m + 1, k)])"

definition nearest_cand :: "rat \<Rightarrow> (int \<times> int) list \<Rightarrow> (int \<times> int) option" where
  "nearest_cand x cs = (case cs of
      [] \<Rightarrow> None
    | [c] \<Rightarrow> Some c
    | c # d # _ \<Rightarrow> (let e = \<bar>dec_val c - x\<bar>; e' = \<bar>dec_val d - x\<bar> in
        Some (if e < e' then c else if e' < e then d else if even (fst c) then c else d)))"

fun repr_search :: "rat \<Rightarrow> nat list \<Rightarrow> (int \<times> int) option" where
  "repr_search x [] = None"
| "repr_search x (n # ns) = (case nearest_cand x (repr_cands x n) of
      Some d \<Rightarrow> Some d | None \<Rightarrow> repr_search x ns)"

text \<open>\<open>Decimal(str(x))\<close> of a finite float; seventeen digits always suffice.\<close>

definition repr_dec :: "rat \<Rightarrow> decimal" where
  "repr_dec x = (if x = 0 then 0 else
     sgn x * (case repr_search \<bar>x\<bar> [1..<18] of Some d \<Rightarrow> dec_val d | None \<Rightarrow> \<bar>x\<bar>))"

lemma nearest_cand_in: "nearest_cand x cs = Some d \<Longrightarrow> d \<in> set cs"
  by (auto simp: nearest_cand_def Let_def split: list.splits if_splits)

lemma repr_search_dbl: "repr_search x ns = Some d \<Longrightarrow> dbl (dec_val d) = x"
  by (induction ns)
    (auto simp: repr_cands_def Let_def dest!: nearest_cand_in split: option.splits if_splits)

text \<open>The decimal rounds back to the float it came from.\<close>

lemma dbl_repr_dec: "dbl x = x \<Longrightarrow> dbl (repr_dec x) = x"
proof (cases "x = 0")
  case True
  then show ?thesis by (simp add: repr_dec_def)
next
  case False
  assume x: "dbl x = x"
  let ?v = "case repr_search \<bar>x\<bar> [1..<18] of Some d \<Rightarrow> dec_val d | None \<Rightarrow> \<bar>x\<bar>"
  have v: "dbl ?v = \<bar>x\<bar>"
    using x dblr.abs_fixed[of x] by (auto simp del: upt_Suc split: option.splits dest: repr_search_dbl)
  have "dbl (sgn x * ?v) = x"
  proof (cases "0 < x")
    case True
    then show ?thesis using v by simp
  next
    case neg: False
    then have "dbl (- ?v) = x" using v False dblr.minus[of ?v] by (simp del: upt_Suc)
    then show ?thesis using neg False by (simp del: upt_Suc)
  qed
  then show ?thesis using False by (simp add: repr_dec_def del: upt_Suc)
qed

lemma repr_dec_0 [simp]: "repr_dec 0 = 0"
  by (simp add: repr_dec_def)

lemma repr_dec_minus: "repr_dec (- x) = - repr_dec x"
  by (cases "repr_search \<bar>x\<bar> [1..<18]") (simp_all add: repr_dec_def sgn_minus del: upt_Suc)

text \<open>Comparing the decimals of two floats is comparing the floats.\<close>

lemma repr_dec_less: "dbl x = x \<Longrightarrow> dbl y = y \<Longrightarrow> x < y \<Longrightarrow> repr_dec x < repr_dec y"
  using dblr.mono[of "repr_dec y" "repr_dec x"] dbl_repr_dec[of x] dbl_repr_dec[of y] by force

lemma repr_dec_le_iff: "dbl x = x \<Longrightarrow> dbl y = y \<Longrightarrow> repr_dec x \<le> repr_dec y \<longleftrightarrow> x \<le> y"
  using repr_dec_less[of x y] repr_dec_less[of y x] by force

lemma repr_dec_pos: "dbl x = x \<Longrightarrow> 0 < repr_dec x \<longleftrightarrow> 0 < x"
  using repr_dec_le_iff[of x 0] by force

lemma repr_dec_nonneg: "dbl x = x \<Longrightarrow> 0 \<le> repr_dec x \<longleftrightarrow> 0 \<le> x"
  using repr_dec_le_iff[of 0 x] by simp

section \<open>Text of a number\<close>

definition strip_zeros :: "string \<Rightarrow> string" where
  "strip_zeros ds = (let r = rev (dropWhile (\<lambda>c. c = CHR ''0'') (rev ds)) in if r = [] then ''0'' else r)"

definition zeros :: "nat \<Rightarrow> string" where
  "zeros n = replicate n (CHR ''0'')"

definition exp_str :: "int \<Rightarrow> string" where
  "exp_str e = (let ds = int_digits \<bar>e\<bar>; ds' = (if length ds < 2 then CHR ''0'' # ds else ds)
     in CHR ''e'' # (if e < 0 then CHR ''-'' else CHR ''+'') # ds')"

definition layout_digits :: "string \<Rightarrow> int \<Rightarrow> string" where
  "layout_digits ds decpt = (let n = int (length ds) in
     if decpt \<le> - 4 \<or> 16 < decpt then
       take 1 ds @ (if 1 < n then CHR ''.'' # drop 1 ds else []) @ exp_str (decpt - 1)
     else if decpt \<le> 0 then ''0.'' @ zeros (nat (- decpt)) @ ds
     else if n \<le> decpt then ds @ zeros (nat (decpt - n)) @ ''.0''
     else take (nat decpt) ds @ CHR ''.'' # drop (nat decpt) ds)"

text \<open>\<open>str(x)\<close>\<close>

definition float_str :: "pyfloat \<Rightarrow> string" where
  "float_str f = (case f of
      PInf \<Rightarrow> ''inf'' | NInf \<Rightarrow> ''-inf'' | NaN \<Rightarrow> ''nan''
    | Fin x \<Rightarrow> if x = 0 then ''0.0'' else
        (case repr_search \<bar>x\<bar> [1..<18] of
           None \<Rightarrow> []
         | Some (m, k) \<Rightarrow> (let ds = int_digits m; decpt = int (length ds) + k in
             (if x < 0 then ''-'' else []) @ layout_digits (strip_zeros ds) decpt)))"

text \<open>\<open>f"{x:.nf}"\<close>\<close>

definition pad_left :: "nat \<Rightarrow> string \<Rightarrow> string" where
  "pad_left n s = zeros (n - length s) @ s"

definition rat_fixed :: "nat \<Rightarrow> rat \<Rightarrow> string" where
  "rat_fixed n x = (let ds = pad_left (Suc n) (int_digits (half_even (\<bar>x\<bar> * 10 ^ n)));
       k = length ds - n
     in (if x < 0 then ''-'' else []) @ take k ds @ (if n = 0 then [] else CHR ''.'' # drop k ds))"

definition float_fixed :: "nat \<Rightarrow> pyfloat \<Rightarrow> string" where
  "float_fixed n f = (case f of
      PInf \<Rightarrow> ''inf'' | NInf \<Rightarrow> ''-inf'' | NaN \<Rightarrow> ''nan'' | Fin x \<Rightarrow> rat_fixed n x)"

section \<open>Sums of floats\<close>

text \<open>\<open>sum(xs)\<close> of a non-empty list of floats adds with a running compensation, applied at the end when
  it is finite and not zero.\<close>

definition compensated_add :: "pyfloat \<times> pyfloat \<Rightarrow> pyfloat \<Rightarrow> pyfloat \<times> pyfloat" where
  "compensated_add st x = (case st of (s, c) \<Rightarrow>
     let t = fadd s x in
     (t, fadd c (if fle (fabs x) (fabs s) then fadd (fsub s t) x else fadd (fsub x t) s)))"

definition float_sum :: "pyfloat list \<Rightarrow> pyfloat" where
  "float_sum xs = (case xs of
      [] \<Rightarrow> Fin 0
    | x # ys \<Rightarrow> (case foldl compensated_add (x, Fin 0) ys of (s, c) \<Rightarrow>
        if c \<noteq> Fin 0 \<and> finite_float c then fadd s c else s))"

end
