(* ===== verification/Py_Decimal.thy ===== *)
theory Py_Decimal
  imports Py_Float
begin

text \<open>
  \<open>Decimal\<close> values that need not be finite. In the default context the invalid operations raise,
  a quiet not-a-number propagates through arithmetic, and every ordering comparison with it raises
  \<open>InvalidOperation\<close>. The theory also has the two ways the code turns a \<open>float\<close> into a \<open>Decimal\<close>:
  \<open>Decimal(str(x))\<close>, and the exact conversion of a mixed comparison. Magnitudes are assumed to stay
  below the context's exponent limit \<open>10 ^ 1000000\<close>.
\<close>

section \<open>Values and operations\<close>

datatype xdec = Dec rat | DPInf | DNInf | DNaN

definition invalid_operation :: exc where
  "invalid_operation = Exc InvalidOperation ''[<class 'decimal.InvalidOperation'>]''"

definition xdec_of_float :: "pyfloat \<Rightarrow> xdec" where
  "xdec_of_float f = (case f of Fin x \<Rightarrow> Dec (repr_dec x) | PInf \<Rightarrow> DPInf | NInf \<Rightarrow> DNInf | NaN \<Rightarrow> DNaN)"

definition xdec_exact :: "pyfloat \<Rightarrow> xdec" where
  "xdec_exact f = (case f of Fin x \<Rightarrow> Dec x | PInf \<Rightarrow> DPInf | NInf \<Rightarrow> DNInf | NaN \<Rightarrow> DNaN)"

text \<open>\<open>float(x)\<close> of a \<open>Decimal\<close>\<close>

definition float_of_xdec :: "xdec \<Rightarrow> pyfloat" where
  "float_of_xdec d = (case d of Dec x \<Rightarrow> fl x | DPInf \<Rightarrow> PInf | DNInf \<Rightarrow> NInf | DNaN \<Rightarrow> NaN)"

fun xneg :: "xdec \<Rightarrow> xdec" where
  "xneg (Dec x) = Dec (dneg x)"
| "xneg DPInf = DNInf"
| "xneg DNInf = DPInf"
| "xneg DNaN = DNaN"

fun xabs :: "xdec \<Rightarrow> xdec" where
  "xabs (Dec x) = Dec (dabs x)"
| "xabs DPInf = DPInf"
| "xabs DNInf = DPInf"
| "xabs DNaN = DNaN"

fun xadd :: "xdec \<Rightarrow> xdec \<Rightarrow> xdec result" where
  "xadd (Dec x) (Dec y) = Inr (Dec (dadd x y))"
| "xadd DNaN y = Inr DNaN"
| "xadd x DNaN = Inr DNaN"
| "xadd DPInf DNInf = Inl invalid_operation"
| "xadd DNInf DPInf = Inl invalid_operation"
| "xadd DPInf y = Inr DPInf"
| "xadd DNInf y = Inr DNInf"
| "xadd x DPInf = Inr DPInf"
| "xadd x DNInf = Inr DNInf"

fun xsub :: "xdec \<Rightarrow> xdec \<Rightarrow> xdec result" where
  "xsub (Dec x) (Dec y) = Inr (Dec (dsub x y))"
| "xsub x y = xadd x (xneg y)"

fun xsgn :: "xdec \<Rightarrow> int" where
  "xsgn (Dec x) = (if x = 0 then 0 else if 0 < x then 1 else - 1)"
| "xsgn DPInf = 1"
| "xsgn DNInf = - 1"
| "xsgn DNaN = 0"

definition xinf :: "int \<Rightarrow> xdec result" where
  "xinf s = (if s = 0 then Inl invalid_operation else if 0 < s then Inr DPInf else Inr DNInf)"

fun xmul :: "xdec \<Rightarrow> xdec \<Rightarrow> xdec result" where
  "xmul (Dec x) (Dec y) = Inr (Dec (dmul x y))"
| "xmul DNaN y = Inr DNaN"
| "xmul x DNaN = Inr DNaN"
| "xmul x y = xinf (xsgn x * xsgn y)"

fun xdiv :: "xdec \<Rightarrow> xdec \<Rightarrow> xdec result" where
  "xdiv DNaN y = Inr DNaN"
| "xdiv x DNaN = Inr DNaN"
| "xdiv (Dec x) (Dec y) =
     (if y = 0 then if x = 0 then Inl invalid_operation
        else Inl (Exc DivisionByZero ''[<class 'decimal.DivisionByZero'>]'')
      else Inr (Dec (ddiv x y)))"
| "xdiv (Dec x) y = Inr (Dec 0)"
| "xdiv x (Dec y) = xinf (xsgn x * (if y < 0 then - 1 else 1))"
| "xdiv x y = Inl invalid_operation"

fun xle :: "xdec \<Rightarrow> xdec \<Rightarrow> bool result" where
  "xle (Dec x) (Dec y) = Inr (x \<le> y)"
| "xle DNaN y = Inl invalid_operation"
| "xle x DNaN = Inl invalid_operation"
| "xle DNInf y = Inr True"
| "xle x DPInf = Inr True"
| "xle x y = Inr False"

fun xlt :: "xdec \<Rightarrow> xdec \<Rightarrow> bool result" where
  "xlt (Dec x) (Dec y) = Inr (x < y)"
| "xlt DNaN y = Inl invalid_operation"
| "xlt x DNaN = Inl invalid_operation"
| "xlt DPInf y = Inr False"
| "xlt x DNInf = Inr False"
| "xlt x y = Inr True"

text \<open>\<open>max(a, b)\<close>: the first argument unless the second compares greater.\<close>

definition xmax :: "xdec \<Rightarrow> xdec \<Rightarrow> xdec result" where
  "xmax a b = rbind (xlt a b) (\<lambda>c. Inr (if c then b else a))"

definition finite_xdec :: "xdec \<Rightarrow> bool" where
  "finite_xdec d = (case d of Dec _ \<Rightarrow> True | _ \<Rightarrow> False)"

section \<open>Lemmas\<close>

lemma xle_Inr_iff: "(\<exists>b. xle x y = Inr b) \<longleftrightarrow> x \<noteq> DNaN \<and> y \<noteq> DNaN"
  by (cases x; cases y) auto

lemma xle_trans: "xle x y = Inr True \<Longrightarrow> xle y z = Inr True \<Longrightarrow> xle x z = Inr True"
  by (cases x; cases y; cases z) auto

lemma xle_refl: "x \<noteq> DNaN \<Longrightarrow> xle x x = Inr True"
  by (cases x) auto

lemma xmax_Dec [simp]: "xmax (Dec a) (Dec b) = Inr (Dec (max a b))"
  by (auto simp: xmax_def max_def)

lemma xdec_of_float_Fin [simp]: "xdec_of_float (Fin x) = Dec (repr_dec x)"
  by (simp add: xdec_of_float_def)

lemma xdec_exact_Fin [simp]: "xdec_exact (Fin x) = Dec x"
  by (simp add: xdec_exact_def)

lemma float_of_xdec_Dec [simp]: "float_of_xdec (Dec x) = fl x"
  by (simp add: float_of_xdec_def)

lemma fle_infinity: "x \<noteq> NaN \<Longrightarrow> fle NInf x" "x \<noteq> NaN \<Longrightarrow> fle x PInf"
  by (cases x; simp)+

lemma float_of_xdec_mono: "xle x y = Inr True \<Longrightarrow> fle (float_of_xdec x) (float_of_xdec y)"
  by (cases x; cases y) (auto simp: float_of_xdec_def fl_mono fle_infinity)

text \<open>The decimal of a double converts back to it.\<close>

lemma float_xdec_round_trip: "wf_float f \<Longrightarrow> float_of_xdec (xdec_of_float f) = f"
  by (cases f) (auto simp: float_of_xdec_def xdec_of_float_def wf_float_def fl_def Let_def dbl_repr_dec)

end
