(* ===== verification/Oms_Portfolio.thy ===== *)
theory Oms_Portfolio
  imports Oms_Position Py_Decimal
begin

text \<open>
  Portfolio snapshots (\<open>services/oms/portfolio_snapshot.py\<close>) and the drawdown and daily-loss guard
  over them (\<open>services/oms/risk_guards.py\<close>). A snapshot marks every open position of the ledger of
  \<open>Oms_Position\<close>; balances and the unrealised profit are possibly non-finite decimals because a
  mark price may be. The guard computes in binary floating point. The lemmas show when a snapshot
  is refused, that the totals add up, and that the guard is monotone: losing more never turns a
  blocked evaluation into an allowed one.
\<close>

section \<open>Snapshots\<close>

record portfolio_snapshot =
  snap_snapshot_time :: string
  snap_mode :: string
  snap_total_balance_usd :: xdec
  snap_available_balance_usd :: xdec
  snap_locked_balance_usd :: xdec
  snap_unrealized_pnl :: xdec
  snap_realized_pnl_total :: xdec

text \<open>One iteration of the loop over the positions; the state is the pair of running sums.\<close>

definition snapshot_step ::
    "string \<Rightarrow> (string, pyfloat) dict \<Rightarrow> xdec \<times> xdec \<Rightarrow> position_state \<Rightarrow> (xdec \<times> xdec) result" where
  "snapshot_step normalized_mode mark_prices acc position =
     (case acc of (unrealized_pnl, realized_from_positions) \<Rightarrow>
      if norm_upper (pos_mode position) \<noteq> normalized_mode then
        Inl (Exc PortfolioSnapshotEngineError (''position mode mismatch: expected ''
          @ normalized_mode @ '', got '' @ pos_mode position))
      else rbind (xadd realized_from_positions (Dec (pos_realized_pnl position))) (\<lambda>realized.
        if dabs (pos_quantity position) \<le> EPSILON then Inr (unrealized_pnl, realized)
        else (case dict_get mark_prices (pos_symbol position) of
            None \<Rightarrow> Inl (Exc PortfolioSnapshotEngineError
              (''missing mark price for open position symbol: '' @ pos_symbol position))
          | Some mark_price \<Rightarrow>
              rbind (xsub (xdec_of_float mark_price) (Dec (pos_average_entry_price position))) (\<lambda>diff.
              rbind (xmul diff (Dec (pos_quantity position))) (\<lambda>gain.
              rbind (xadd unrealized_pnl gain) (\<lambda>unrealized. Inr (unrealized, realized)))))))"

definition build_snapshot ::
    "string \<Rightarrow> string \<Rightarrow> xdec \<Rightarrow> xdec \<Rightarrow> position_state list \<Rightarrow> (string, pyfloat) dict
      \<Rightarrow> xdec option \<Rightarrow> string option \<Rightarrow> portfolio_snapshot result" where
  "build_snapshot now mode available locked positions mark_prices realized_pnl_total snapshot_time =
     (let normalized_mode = norm_upper mode in
      rbind (rfold (snapshot_step normalized_mode mark_prices) (Dec 0, Dec 0) positions)
        (\<lambda>(unrealized, realized_from_positions).
      rbind (xadd available locked) (\<lambda>cash.
      rbind (xadd cash unrealized) (\<lambda>total.
        Inr \<lparr>snap_snapshot_time = str_or snapshot_time now, snap_mode = normalized_mode,
             snap_total_balance_usd = total, snap_available_balance_usd = available,
             snap_locked_balance_usd = locked, snap_unrealized_pnl = unrealized,
             snap_realized_pnl_total = (case realized_pnl_total of
                 Some r \<Rightarrow> r | None \<Rightarrow> realized_from_positions)\<rparr>))))"

section \<open>Drawdown and daily loss guard\<close>

record drawdown_config =
  dd_max_drawdown_pct :: pyfloat
  dd_max_daily_loss_usd :: pyfloat

record drawdown_check =
  ddc_name :: string
  ddc_passed :: bool
  ddc_value :: pyfloat
  ddc_limit :: pyfloat
  ddc_message :: string
  ddc_severity :: string

record drawdown_evaluation =
  dde_allowed :: bool
  dde_blocked_by :: "string list"
  dde_drawdown_pct :: pyfloat
  dde_daily_loss_usd :: pyfloat
  dde_checks :: "drawdown_check list"

text \<open>The double nearest to \<open>1e-9\<close>.\<close>

definition FEPSILON :: pyfloat where
  "FEPSILON = Fin (4835703278458517 / 4835703278458516698824704)"

definition dd_validate_config :: "drawdown_config \<Rightarrow> drawdown_config result" where
  "dd_validate_config config =
     (if \<not> (fle (Fin 0) (dd_max_drawdown_pct config) \<and> fle (dd_max_drawdown_pct config) (Fin 1)) then
        Inl (Exc DrawdownDailyLossGuardError ''max_drawdown_pct must be between 0 and 1'')
      else if flt (dd_max_daily_loss_usd config) (Fin 0) then
        Inl (Exc DrawdownDailyLossGuardError ''max_daily_loss_usd must be non-negative'')
      else Inr config)"

definition drawdown_of :: "pyfloat \<Rightarrow> pyfloat \<Rightarrow> pyfloat result" where
  "drawdown_of peak_equity current_equity =
     (if fle peak_equity FEPSILON then Inr (Fin 0)
      else rbind (fdiv (fsub peak_equity current_equity) peak_equity) (\<lambda>d. Inr (fmax (Fin 0) d)))"

definition drawdown_evaluate ::
    "drawdown_config \<Rightarrow> portfolio_snapshot \<Rightarrow> pyfloat \<Rightarrow> pyfloat option \<Rightarrow> drawdown_evaluation result" where
  "drawdown_evaluate config snapshot peak_equity_usd daily_pnl_usd =
     (let peak_equity = fmax (Fin 0) peak_equity_usd;
          current_equity = float_of_xdec (snap_total_balance_usd snapshot) in
      rbind (drawdown_of peak_equity current_equity) (\<lambda>drawdown_pct.
      let pnl_reference = (case daily_pnl_usd of
             Some p \<Rightarrow> p | None \<Rightarrow> float_of_xdec (snap_realized_pnl_total snapshot));
          daily_loss_usd = fmax (Fin 0) (fneg pnl_reference);
          checks =
            [\<lparr>ddc_name = ''drawdown_limit'', ddc_passed = fle drawdown_pct (dd_max_drawdown_pct config),
              ddc_value = drawdown_pct, ddc_limit = dd_max_drawdown_pct config,
              ddc_message = ''Current drawdown must stay within configured threshold'',
              ddc_severity = ''CRITICAL''\<rparr>,
             \<lparr>ddc_name = ''daily_loss_limit'', ddc_passed = fle daily_loss_usd (dd_max_daily_loss_usd config),
              ddc_value = daily_loss_usd, ddc_limit = dd_max_daily_loss_usd config,
              ddc_message = ''Daily realized loss must stay within configured threshold'',
              ddc_severity = ''CRITICAL''\<rparr>];
          blocked_by = map ddc_name (filter (\<lambda>c. \<not> ddc_passed c) checks)
      in Inr \<lparr>dde_allowed = (blocked_by = []), dde_blocked_by = blocked_by,
              dde_drawdown_pct = drawdown_pct, dde_daily_loss_usd = daily_loss_usd,
              dde_checks = checks\<rparr>))"

section \<open>What a snapshot computes\<close>

definition position_markable :: "string \<Rightarrow> (string, pyfloat) dict \<Rightarrow> position_state \<Rightarrow> bool" where
  "position_markable mode marks p \<longleftrightarrow> norm_upper (pos_mode p) = norm_upper mode
     \<and> (dabs (pos_quantity p) \<le> EPSILON \<or> pos_symbol p \<in> set (map fst marks))"

definition finite_marks :: "(string, pyfloat) dict \<Rightarrow> bool" where
  "finite_marks marks = list_all (\<lambda>(s, f). finite_float f) marks"

definition mark_of :: "(string, pyfloat) dict \<Rightarrow> string \<Rightarrow> decimal" where
  "mark_of marks s = (case dict_get marks s of Some (Fin x) \<Rightarrow> repr_dec x | _ \<Rightarrow> 0)"

fun marked_sum :: "(string, pyfloat) dict \<Rightarrow> decimal \<Rightarrow> position_state list \<Rightarrow> decimal" where
  "marked_sum marks u [] = u"
| "marked_sum marks u (p # ps) = marked_sum marks
     (if dabs (pos_quantity p) \<le> EPSILON then u
      else dadd u (dmul (dsub (mark_of marks (pos_symbol p)) (pos_average_entry_price p))
             (pos_quantity p))) ps"

definition realized_sum :: "decimal \<Rightarrow> position_state list \<Rightarrow> decimal" where
  "realized_sum r ps = foldl (\<lambda>r p. dadd r (pos_realized_pnl p)) r ps"

lemma finite_marks_get:
  "finite_marks marks \<Longrightarrow> dict_get marks s = Some f \<Longrightarrow> \<exists>x. f = Fin x"
  by (induction marks)
    (auto simp: finite_marks_def finite_float_def split: if_splits pyfloat.splits)

lemma snapshot_step_finite:
  assumes "finite_marks marks"
  shows "position_markable mode marks p \<Longrightarrow>
      snapshot_step (norm_upper mode) marks (Dec u, Dec r) p =
        Inr (Dec (marked_sum marks u [p]), Dec (realized_sum r [p]))"
    and "\<not> position_markable mode marks p \<Longrightarrow>
      \<exists>msg. snapshot_step (norm_upper mode) marks (Dec u, Dec r) p =
        Inl (Exc PortfolioSnapshotEngineError msg)"
proof -
  have dom: "pos_symbol p \<in> set (map fst marks) \<longleftrightarrow> dict_get marks (pos_symbol p) \<noteq> None"
    by (auto simp: map_of_eq_None_iff)
  show "snapshot_step (norm_upper mode) marks (Dec u, Dec r) p =
        Inr (Dec (marked_sum marks u [p]), Dec (realized_sum r [p]))"
    if m: "position_markable mode marks p"
  proof (cases "dict_get marks (pos_symbol p)")
    case None
    with m show ?thesis
      by (simp add: position_markable_def snapshot_step_def realized_sum_def dom del: set_map)
  next
    case (Some f)
    with finite_marks_get[OF assms] obtain x where "dict_get marks (pos_symbol p) = Some (Fin x)"
      by blast
    with m show ?thesis
      by (simp add: position_markable_def snapshot_step_def realized_sum_def mark_of_def)
  qed
  show "\<exists>msg. snapshot_step (norm_upper mode) marks (Dec u, Dec r) p =
        Inl (Exc PortfolioSnapshotEngineError msg)" if "\<not> position_markable mode marks p"
    using that dom by (auto simp: position_markable_def snapshot_step_def simp del: set_map)
qed

lemma snapshot_loop_finite:
  assumes fin: "finite_marks marks"
  shows "list_all (position_markable mode marks) ps \<Longrightarrow>
      rfold (snapshot_step (norm_upper mode) marks) (Dec u, Dec r) ps =
        Inr (Dec (marked_sum marks u ps), Dec (realized_sum r ps))"
    and "\<not> list_all (position_markable mode marks) ps \<Longrightarrow>
      \<exists>msg. rfold (snapshot_step (norm_upper mode) marks) (Dec u, Dec r) ps =
        Inl (Exc PortfolioSnapshotEngineError msg)"
proof (induction ps arbitrary: u r)
  case Nil
  {
    case 1
    then show ?case by (simp add: realized_sum_def)
  next
    case 2
    then show ?case by simp
  }
next
  case (Cons p ps)
  note step = snapshot_step_finite[OF fin, of mode p]
  {
    case 1
    then show ?case using step(1) Cons(1) by (simp add: realized_sum_def)
  next
    case 2
    show ?case
    proof (cases "position_markable mode marks p")
      case True
      then show ?thesis using step(1)[OF True, of u r] 2 Cons(2) by simp
    next
      case False
      then show ?thesis using step(2)[OF False, of u r] by auto
    qed
  }
qed

lemma marked_sum_mono:
  assumes long: "list_all (\<lambda>p. 0 \<le> pos_quantity p) ps"
    and marks: "\<And>p. p \<in> set ps \<Longrightarrow> mark_of marks (pos_symbol p) \<le> mark_of marks' (pos_symbol p)"
    and u: "u \<le> u'"
  shows "marked_sum marks u ps \<le> marked_sum marks' u' ps"
  using assms
proof (induction ps arbitrary: u u')
  case (Cons p ps)
  have "dec (mark_of marks (pos_symbol p) - pos_average_entry_price p) * pos_quantity p
      \<le> dec (mark_of marks' (pos_symbol p) - pos_average_entry_price p) * pos_quantity p"
    using Cons.prems(1) Cons.prems(2)[of p] by (intro mult_right_mono decr.mono) auto
  then have "dadd u (dmul (dsub (mark_of marks (pos_symbol p)) (pos_average_entry_price p)) (pos_quantity p))
    \<le> dadd u' (dmul (dsub (mark_of marks' (pos_symbol p)) (pos_average_entry_price p)) (pos_quantity p))"
    using Cons.prems(3) unfolding dadd_def dmul_def dsub_def
    by (intro decr.mono add_mono) auto
  with Cons show ?case by (auto intro!: Cons.IH)
qed simp

section \<open>The guard\<close>

lemma fdiv_pos_mono:
  assumes "0 < y" and "fle a b" and "fdiv a (Fin y) = Inr c" and "fdiv b (Fin y) = Inr d"
  shows "fle c d"
  using assms by (cases a; cases b)
    (auto simp: inf_signed_def fl_mono divide_right_mono fle_infinity split: if_splits)

lemma fsub_anti:
  assumes "fle e e'"
  shows "fle (fsub (Fin p) e') (fsub (Fin p) e)"
  using assms by (cases e; cases e') (auto simp: fsub_def fl_mono fle_infinity)

lemma fmax_0_mono: "fle a b \<Longrightarrow> fle (fmax (Fin 0) a) (fmax (Fin 0) b)"
  by (cases a; cases b) (auto simp: fmax_def)

lemma drawdown_of_total: "\<exists>d. drawdown_of (fmax (Fin 0) peak) e = Inr d \<and> fle (Fin 0) d"
proof (cases "fmax (Fin 0) peak")
  case (Fin p)
  have "p \<noteq> 0" if "\<not> fle (Fin p) FEPSILON" using that by (auto simp: FEPSILON_def)
  then show ?thesis
    using Fin fmax_ge[of "Fin 0"] by (auto simp: drawdown_of_def)
qed (auto simp: drawdown_of_def FEPSILON_def fmax_ge)

lemma drawdown_of_anti:
  assumes "fle e e'" and d: "drawdown_of peak e = Inr d" and d': "drawdown_of peak e' = Inr d'"
  shows "fle d' d"
proof (cases peak)
  case (Fin p)
  show ?thesis
  proof (cases "fle peak FEPSILON")
    case True
    then show ?thesis using d d' by (auto simp: drawdown_of_def)
  next
    case False
    then have "0 < p" using Fin by (auto simp: FEPSILON_def)
    then obtain x x' where "fdiv (fsub peak e) peak = Inr x" "fdiv (fsub peak e') peak = Inr x'"
      "d = fmax (Fin 0) x" "d' = fmax (Fin 0) x'"
      using False d d' Fin by (auto simp: drawdown_of_def result_simps)
    then show ?thesis
      using fdiv_pos_mono[OF \<open>0 < p\<close> fsub_anti[OF assms(1)]] Fin fmax_0_mono by blast
  qed
next
  case PInf
  then show ?thesis using d d' assms(1)
    by (cases e; cases e') (auto simp: drawdown_of_def FEPSILON_def fsub_def fmax_def)
next
  case NInf
  then show ?thesis using d d' by (auto simp: drawdown_of_def FEPSILON_def)
next
  case NaN
  then show ?thesis using d d' assms(1)
    by (cases e; cases e') (auto simp: drawdown_of_def FEPSILON_def fsub_def fmax_def)
qed

lemma drawdown_evaluate_fields:
  assumes "drawdown_evaluate c s peak daily = Inr ev"
  shows "drawdown_of (fmax (Fin 0) peak) (float_of_xdec (snap_total_balance_usd s)) = Inr (dde_drawdown_pct ev)"
    and "dde_daily_loss_usd ev = fmax (Fin 0) (fneg (case daily of
       Some p \<Rightarrow> p | None \<Rightarrow> float_of_xdec (snap_realized_pnl_total s)))"
    and "dde_allowed ev \<longleftrightarrow> fle (dde_drawdown_pct ev) (dd_max_drawdown_pct c)
       \<and> fle (dde_daily_loss_usd ev) (dd_max_daily_loss_usd c)"
  using assms by (auto simp: drawdown_evaluate_def Let_def result_simps split: if_splits)

section \<open>Properties\<close>

text \<open>With finite balances and mark prices a snapshot is built exactly when every position is of
  the requested mode and every open position has a mark price; it then adds up (total is
  available plus locked plus the marked positions), and every refusal is a
  \<open>PortfolioSnapshotEngineError\<close>.\<close>

theorem build_snapshot_accepts_iff:
  assumes fin: "finite_marks marks"
  shows "case build_snapshot now mode (Dec a) (Dec l) positions marks rt st of
      Inl e \<Rightarrow> exc_class e = PortfolioSnapshotEngineError
        \<and> \<not> list_all (position_markable mode marks) positions
    | Inr s \<Rightarrow> list_all (position_markable mode marks) positions
        \<and> snap_mode s = norm_upper mode
        \<and> snap_unrealized_pnl s = Dec (marked_sum marks 0 positions)
        \<and> snap_total_balance_usd s = Dec (dadd (dadd a l) (marked_sum marks 0 positions))
        \<and> snap_realized_pnl_total s = (case rt of None \<Rightarrow> Dec (realized_sum 0 positions) | Some r \<Rightarrow> r)"
proof (cases "list_all (position_markable mode marks) positions")
  case True
  then show ?thesis
    by (simp add: build_snapshot_def Let_def snapshot_loop_finite(1)[OF fin True] split: option.splits)
next
  case False
  then obtain msg where "rfold (snapshot_step (norm_upper mode) marks) (Dec 0, Dec 0) positions =
      Inl (Exc PortfolioSnapshotEngineError msg)"
    using snapshot_loop_finite(2)[OF fin] by blast
  with False show ?thesis by (simp add: build_snapshot_def Let_def)
qed

definition sample_position :: "string \<Rightarrow> decimal \<Rightarrow> decimal \<Rightarrow> position_state" where
  "sample_position smb q avg = \<lparr>pos_mode = ''MOCK'', pos_symbol = smb, pos_quantity = q,
     pos_average_entry_price = avg, pos_realized_pnl = 0, pos_status = ''OPEN'', pos_updated_at = ''t''\<rparr>"

theorem build_snapshot_accepts_iff_witness:
  "returns (\<lambda>s. snap_total_balance_usd s = Dec 1020)
     (build_snapshot ''t'' ''mock'' (Dec 900) (Dec 100)
        [sample_position ''BTC/USDT'' 2 100] [(''BTC/USDT'', Fin 110)] None None)"
proof -
  let ?ps = "[sample_position ''BTC/USDT'' 2 100]" and ?m = "[(''BTC/USDT'', Fin 110)]"
  have f: "finite_marks ?m" by (simp add: finite_marks_def finite_float_def)
  have h: "list_all (position_markable ''mock'' ?m) ?ps" by code_simp
  have v: "dadd (dadd 900 100) (marked_sum ?m 0 ?ps) = 1020" by code_simp
  note t = build_snapshot_accepts_iff[OF f, where now = "''t''" and mode = "''mock''" and a = 900
      and l = 100 and positions = ?ps and rt = None and st = None]
  then obtain s where "build_snapshot ''t'' ''mock'' (Dec 900) (Dec 100) ?ps ?m None None = Inr s"
    using h by (auto split: sum.splits)
  with t v show ?thesis by (simp add: returns_def)
qed

text \<open>The drawdown guard always answers for any snapshot, peak and daily figure; the drawdown and
  loss it reports are never negative, and it allows trading exactly when both are within
  their limits.\<close>

theorem drawdown_guard_total:
  "returns (\<lambda>ev. fle (Fin 0) (dde_drawdown_pct ev) \<and> fle (Fin 0) (dde_daily_loss_usd ev)
     \<and> dde_allowed ev = (fle (dde_drawdown_pct ev) (dd_max_drawdown_pct c)
         \<and> fle (dde_daily_loss_usd ev) (dd_max_daily_loss_usd c))
     \<and> dde_blocked_by ev =
         (if fle (dde_drawdown_pct ev) (dd_max_drawdown_pct c) then [] else [''drawdown_limit''])
         @ (if fle (dde_daily_loss_usd ev) (dd_max_daily_loss_usd c) then [] else [''daily_loss_limit'']))
    (drawdown_evaluate c s peak daily)"
proof -
  obtain d where "drawdown_of (fmax (Fin 0) peak) (float_of_xdec (snap_total_balance_usd s)) = Inr d"
    "fle (Fin 0) d" using drawdown_of_total by blast
  then show ?thesis by (simp add: drawdown_evaluate_def Let_def returns_def fmax_ge)
qed

text \<open>C14: Falling prices never unblock trading. For a portfolio without short positions, if at some
  mark prices the guard blocks, then it also blocks at any lower mark prices with the same
  balances, peak equity and daily result, in spite of decimal and binary rounding.\<close>

theorem falling_prices_never_unblock:
  assumes fin: "finite_marks low" "finite_marks high"
    and long: "list_all (\<lambda>p. 0 \<le> pos_quantity p) positions"
    and order: "list_all (\<lambda>p. mark_of low (pos_symbol p) \<le> mark_of high (pos_symbol p)) positions"
    and s: "build_snapshot now mode (Dec a) (Dec l) positions low rt st = Inr slow"
      "build_snapshot now mode (Dec a) (Dec l) positions high rt st = Inr shigh"
    and ev: "drawdown_evaluate c slow peak daily = Inr evlow"
      "drawdown_evaluate c shigh peak daily = Inr evhigh"
    and blocked: "\<not> dde_allowed evhigh"
  shows "\<not> dde_allowed evlow"
proof -
  have snap: "snap_total_balance_usd s = Dec (dadd (dadd a l) (marked_sum m 0 positions))
      \<and> snap_realized_pnl_total s = (case rt of None \<Rightarrow> Dec (realized_sum 0 positions) | Some r \<Rightarrow> r)"
    if f: "finite_marks m" and b: "build_snapshot now mode (Dec a) (Dec l) positions m rt st = Inr s" for m s
  proof -
    have "list_all (position_markable mode m) positions"
      using b snapshot_loop_finite(2)[OF f, of mode positions 0 0]
      by (force simp: build_snapshot_def Let_def result_simps)
    from snapshot_loop_finite(1)[OF f this, of 0 0] b show ?thesis
      by (auto simp: build_snapshot_def Let_def)
  qed
  have "marked_sum low 0 positions \<le> marked_sum high 0 positions"
    using order by (intro marked_sum_mono long) (auto simp: list_all_iff)
  then have "fle (float_of_xdec (snap_total_balance_usd slow)) (float_of_xdec (snap_total_balance_usd shigh))"
    using snap[OF fin(1) s(1)] snap[OF fin(2) s(2)]
    by (simp add: dadd_def fl_mono decr.mono)
  from drawdown_of_anti[OF this drawdown_evaluate_fields(1)[OF ev(1)] drawdown_evaluate_fields(1)[OF ev(2)]]
  have "fle (dde_drawdown_pct evhigh) (dde_drawdown_pct evlow)" .
  moreover have "dde_daily_loss_usd evhigh = dde_daily_loss_usd evlow"
    using drawdown_evaluate_fields(2)[OF ev(1)] drawdown_evaluate_fields(2)[OF ev(2)]
      snap[OF fin(1) s(1)] snap[OF fin(2) s(2)] by (cases daily) simp_all
  ultimately show ?thesis
    using blocked drawdown_evaluate_fields(3)[OF ev(1)] drawdown_evaluate_fields(3)[OF ev(2)]
      fle_trans by metis
qed

theorem falling_prices_never_unblock_witness:
  "returns (\<lambda>slow. returns (\<lambda>ev. \<not> dde_allowed ev)
      (drawdown_evaluate \<lparr>dd_max_drawdown_pct = Fin (1 / 8), dd_max_daily_loss_usd = Fin 500\<rparr> slow (Fin 2000) None))
    (build_snapshot ''t'' ''mock'' (Dec 900) (Dec 100)
       [sample_position ''BTC/USDT'' 2 100] [(''BTC/USDT'', Fin 80)] None None)"
proof -
  let ?c = "\<lparr>dd_max_drawdown_pct = Fin (1 / 8), dd_max_daily_loss_usd = Fin 500\<rparr>"
  let ?ps = "[sample_position ''BTC/USDT'' 2 100]"
  let ?b = "\<lambda>m. build_snapshot ''t'' ''mock'' (Dec 900) (Dec 100) ?ps [(''BTC/USDT'', Fin m)] None None"
  have b: "returns (\<lambda>s. returns (\<lambda>ev. True) (drawdown_evaluate ?c s (Fin 2000) None)) (?b 80)"
    "returns (\<lambda>s. returns (\<lambda>ev. \<not> dde_allowed ev) (drawdown_evaluate ?c s (Fin 2000) None)) (?b 110)"
    by code_simp+
  obtain slow evlow where low: "?b 80 = Inr slow" "drawdown_evaluate ?c slow (Fin 2000) None = Inr evlow"
    using b(1) by (auto elim!: returnsE)
  obtain shigh evhigh where high: "?b 110 = Inr shigh"
    "drawdown_evaluate ?c shigh (Fin 2000) None = Inr evhigh" "\<not> dde_allowed evhigh"
    using b(2) by (auto elim!: returnsE)
  have f: "finite_marks [(''BTC/USDT'', Fin 80)]" "finite_marks [(''BTC/USDT'', Fin 110)]"
    "list_all (\<lambda>p. 0 \<le> pos_quantity p) ?ps"
    "list_all (\<lambda>p. mark_of [(''BTC/USDT'', Fin 80)] (pos_symbol p)
        \<le> mark_of [(''BTC/USDT'', Fin 110)] (pos_symbol p)) ?ps"
    by code_simp+
  from falling_prices_never_unblock[OF f low(1) high(1) low(2) high(2,3)] low show ?thesis
    by (simp add: returns_def)
qed

end
