(* ===== verification/Oms_Risk_Rules.thy ===== *)
theory Oms_Risk_Rules
  imports Oms_Position Py_Decimal
begin

text \<open>
  The core pre-trade rules of \<open>services/oms/risk_rules.py\<close>: validation of the configuration and of
  a proposed order, projection of position, notional, exposure and leverage in decimal arithmetic,
  and the list of checks. Amounts enter as \<open>float\<close>s, pass through \<open>Decimal(str(x))\<close>, and are compared
  with the float limits exactly. The lemmas show that on finite inputs the rules always answer,
  that the answer is the conjunction of the limits, and that an order that shrinks a position is
  never blocked by the position limit.
\<close>

section \<open>Data\<close>

text \<open>A number that is a \<open>float\<close> before normalisation and a \<open>Decimal\<close> after it.\<close>

datatype num_val = NFloat pyfloat | NDec xdec

record proposed_order =
  po_mode :: string
  po_symbol :: string
  po_side :: string
  po_quantity :: num_val
  po_price :: num_val

record core_risk_config =
  cr_max_position_abs :: pyfloat
  cr_max_symbol_notional_usd :: pyfloat
  cr_max_leverage :: pyfloat
  cr_max_daily_loss_usd :: pyfloat
  cr_max_drawdown_pct :: pyfloat

record core_risk_check =
  crc_name :: string
  crc_passed :: bool
  crc_value :: num_val
  crc_limit :: pyfloat
  crc_message :: string
  crc_severity :: string

record core_risk_evaluation =
  cre_allowed :: bool
  cre_blocked_by :: "string list"
  cre_projected_position_qty :: xdec
  cre_projected_symbol_notional_usd :: xdec
  cre_projected_total_exposure_usd :: xdec
  cre_projected_leverage :: xdec
  cre_checks :: "core_risk_check list"

definition cr_error :: "string \<Rightarrow> exc" where
  "cr_error msg = Exc CoreRiskRuleError msg"

text \<open>\<open>Decimal(str(x))\<close> of either kind of number\<close>

definition num_dec :: "num_val \<Rightarrow> xdec" where
  "num_dec v = (case v of NFloat f \<Rightarrow> xdec_of_float f | NDec d \<Rightarrow> d)"

section \<open>Operations\<close>

definition cr_validate_config :: "core_risk_config \<Rightarrow> core_risk_config result" where
  "cr_validate_config config =
     rbind (xle (xdec_of_float (cr_max_position_abs config)) (Dec 0)) (\<lambda>b.
     if b then Inl (cr_error ''max_position_abs must be positive'') else
     rbind (xle (xdec_of_float (cr_max_symbol_notional_usd config)) (Dec 0)) (\<lambda>b.
     if b then Inl (cr_error ''max_symbol_notional_usd must be positive'') else
     rbind (xle (xdec_of_float (cr_max_leverage config)) (Dec 0)) (\<lambda>b.
     if b then Inl (cr_error ''max_leverage must be positive'') else
     if flt (cr_max_daily_loss_usd config) (Fin 0) then
       Inl (cr_error ''max_daily_loss_usd must be positive'') else
     if flt (cr_max_drawdown_pct config) (Fin 0) then
       Inl (cr_error ''max_drawdown_pct must be positive'') else
     Inr config)))"

definition validate_order :: "proposed_order \<Rightarrow> proposed_order result" where
  "validate_order order =
     (let mode = norm_upper (po_mode order); symbol = norm_upper (po_symbol order);
          side = norm_upper (po_side order); quantity = xabs (num_dec (po_quantity order));
          price = num_dec (po_price order) in
      if mode = [] then Inl (cr_error ''order.mode must be set'')
      else if symbol = [] then Inl (cr_error ''order.symbol must be set'')
      else if side \<notin> {''BUY'', ''SELL''} then
        Inl (cr_error (''unsupported order side: '' @ po_side order))
      else rbind (xle quantity (Dec EPSILON)) (\<lambda>b.
        if b then Inl (cr_error ''order.quantity must be positive'')
        else rbind (xle price (Dec EPSILON)) (\<lambda>b.
          if b then Inl (cr_error ''order.price must be positive'')
          else Inr \<lparr>po_mode = mode, po_symbol = symbol, po_side = side,
                    po_quantity = NDec quantity, po_price = NDec price\<rparr>)))"

definition validate_position :: "proposed_order \<Rightarrow> position_state option \<Rightarrow> unit result" where
  "validate_position order position = (case position of
      None \<Rightarrow> Inr ()
    | Some p \<Rightarrow>
        if norm_upper (pos_mode p) \<noteq> po_mode order then
          Inl (cr_error (''position mode mismatch: position='' @ pos_mode p @ '', order='' @ po_mode order))
        else if norm_upper (pos_symbol p) \<noteq> po_symbol order then
          Inl (cr_error (''position symbol mismatch: position='' @ pos_symbol p
            @ '', order='' @ po_symbol order))
        else Inr ())"

definition order_signed_quantity :: "string \<Rightarrow> num_val \<Rightarrow> xdec" where
  "order_signed_quantity side quantity =
     (let qty = num_dec quantity in if side = ''BUY'' then qty else xneg qty)"

definition projected_exposure :: "xdec \<Rightarrow> xdec \<Rightarrow> xdec \<Rightarrow> xdec result" where
  "projected_exposure base current_notional projected_notional =
     rbind (xsub base current_notional) (\<lambda>d.
     rbind (xadd d projected_notional) (\<lambda>t. xmax (Dec 0) t))"

definition leverage_of :: "xdec \<Rightarrow> xdec \<Rightarrow> xdec result" where
  "leverage_of equity exposure =
     rbind (xle equity (Dec EPSILON)) (\<lambda>broke.
       if broke then rbind (xlt (Dec EPSILON) exposure) (\<lambda>b. Inr (if b then DPInf else Dec 0))
       else xdiv exposure equity)"

definition core_check :: "string \<Rightarrow> xdec \<Rightarrow> pyfloat \<Rightarrow> string \<Rightarrow> core_risk_check result" where
  "core_check name v limit message =
     rbind (xle v (xdec_exact limit)) (\<lambda>b.
       Inr \<lparr>crc_name = name, crc_passed = b, crc_value = NDec v, crc_limit = limit,
            crc_message = message, crc_severity = ''CRITICAL''\<rparr>)"

definition daily_loss_checks :: "core_risk_config \<Rightarrow> pyfloat \<Rightarrow> core_risk_check list result" where
  "daily_loss_checks config realized_pnl_today =
     (if flt (Fin 0) (cr_max_daily_loss_usd config) then
        (let daily_loss = xdec_of_float (fmin (Fin 0) realized_pnl_today) in
         rbind (xle (xneg (xdec_of_float (cr_max_daily_loss_usd config))) daily_loss) (\<lambda>b.
           Inr [\<lparr>crc_name = ''daily_loss_limit'', crc_passed = b,
                 crc_value = NFloat (float_of_xdec (xabs daily_loss)),
                 crc_limit = cr_max_daily_loss_usd config,
                 crc_message = ''Daily realized loss exceeds limit'', crc_severity = ''CRITICAL''\<rparr>]))
      else Inr [])"

definition drawdown_checks ::
    "core_risk_config \<Rightarrow> pyfloat \<Rightarrow> pyfloat \<Rightarrow> core_risk_check list result" where
  "drawdown_checks config account_equity_usd peak_equity_usd =
     (if flt (Fin 0) (cr_max_drawdown_pct config) \<and> flt (Fin 0) peak_equity_usd then
        (let peak = xdec_of_float peak_equity_usd; current_eq = xdec_of_float account_equity_usd in
         rbind (xlt (Dec EPSILON) peak) (\<lambda>real.
         rbind (if real then rbind (xsub peak current_eq) (\<lambda>d. xdiv d peak) else Inr (Dec 0))
           (\<lambda>drawdown_pct.
         rbind (xle drawdown_pct (xdec_of_float (cr_max_drawdown_pct config))) (\<lambda>b.
           Inr [\<lparr>crc_name = ''max_drawdown'', crc_passed = b,
                 crc_value = NFloat (float_of_xdec drawdown_pct),
                 crc_limit = cr_max_drawdown_pct config,
                 crc_message = ''Portfolio drawdown exceeds maximum allowed'',
                 crc_severity = ''CRITICAL''\<rparr>]))))
      else Inr [])"

definition core_evaluate ::
    "core_risk_config \<Rightarrow> proposed_order \<Rightarrow> position_state option \<Rightarrow> pyfloat \<Rightarrow> pyfloat
      \<Rightarrow> pyfloat \<Rightarrow> pyfloat \<Rightarrow> core_risk_evaluation result" where
  "core_evaluate config order current_position account_equity_usd current_total_exposure_usd
       realized_pnl_today peak_equity_usd =
     rbind (validate_order order) (\<lambda>normalized_order.
     rbind (validate_position normalized_order current_position) (\<lambda>_.
     let signed_quantity = order_signed_quantity (po_side normalized_order) (po_quantity normalized_order);
         current_quantity = Dec (net_quantity current_position);
         order_price = num_dec (po_price normalized_order) in
     rbind (xadd current_quantity signed_quantity) (\<lambda>projected_quantity.
     rbind (xmul (xabs current_quantity) order_price) (\<lambda>current_symbol_notional.
     rbind (xmul (xabs projected_quantity) order_price) (\<lambda>projected_symbol_notional.
     rbind (xmax (Dec 0) (xdec_of_float current_total_exposure_usd)) (\<lambda>base_total_exposure.
     rbind (projected_exposure base_total_exposure current_symbol_notional projected_symbol_notional)
       (\<lambda>projected_total_exposure.
     rbind (leverage_of (xdec_of_float account_equity_usd) projected_total_exposure)
       (\<lambda>projected_leverage.
     rbind (core_check ''position_limit'' (xabs projected_quantity) (cr_max_position_abs config)
              ''Projected absolute position must stay within limit'') (\<lambda>c1.
     rbind (core_check ''symbol_notional_limit'' projected_symbol_notional
              (cr_max_symbol_notional_usd config)
              ''Projected per-symbol notional must stay within limit'') (\<lambda>c2.
     rbind (core_check ''leverage_limit'' projected_leverage (cr_max_leverage config)
              ''Projected account leverage must stay within limit'') (\<lambda>c3.
     rbind (daily_loss_checks config realized_pnl_today) (\<lambda>c4.
     rbind (drawdown_checks config account_equity_usd peak_equity_usd) (\<lambda>c5.
       let checks = [c1, c2, c3] @ c4 @ c5;
           blocked_by = map crc_name (filter (\<lambda>c. \<not> crc_passed c) checks)
       in Inr \<lparr>cre_allowed = (blocked_by = []), cre_blocked_by = blocked_by,
               cre_projected_position_qty = projected_quantity,
               cre_projected_symbol_notional_usd = projected_symbol_notional,
               cre_projected_total_exposure_usd = projected_total_exposure,
               cre_projected_leverage = projected_leverage, cre_checks = checks\<rparr>)))))))))))))"

section \<open>The rules on finite inputs\<close>

definition finite_config :: "rat \<Rightarrow> rat \<Rightarrow> rat \<Rightarrow> rat \<Rightarrow> rat \<Rightarrow> core_risk_config" where
  "finite_config mp mn ml dl dd =
     \<lparr>cr_max_position_abs = Fin mp, cr_max_symbol_notional_usd = Fin mn, cr_max_leverage = Fin ml,
      cr_max_daily_loss_usd = Fin dl, cr_max_drawdown_pct = Fin dd\<rparr>"

text \<open>The projected figures of an order of signed quantity \<open>sq\<close> at price \<open>p\<close> on a position \<open>q\<close>.\<close>

definition proj_notional :: "decimal \<Rightarrow> decimal \<Rightarrow> decimal \<Rightarrow> decimal" where
  "proj_notional q sq p = dmul \<bar>dadd q sq\<bar> p"

definition proj_exposure :: "decimal \<Rightarrow> decimal \<Rightarrow> decimal \<Rightarrow> decimal \<Rightarrow> decimal" where
  "proj_exposure q sq p ex =
     max 0 (dadd (dsub (max 0 ex) (dmul (dabs q) p)) (proj_notional q sq p))"

text \<open>The limits, as a condition on the numbers themselves.\<close>

definition within_limits ::
    "core_risk_config \<Rightarrow> decimal \<Rightarrow> decimal \<Rightarrow> decimal \<Rightarrow> rat \<Rightarrow> rat \<Rightarrow> rat \<Rightarrow> rat \<Rightarrow> bool" where
  "within_limits c q sq p eq ex pnl peak \<longleftrightarrow>
     fle (Fin \<bar>dadd q sq\<bar>) (cr_max_position_abs c)
     \<and> fle (Fin (proj_notional q sq p)) (cr_max_symbol_notional_usd c)
     \<and> (if repr_dec eq \<le> EPSILON then proj_exposure q sq p (repr_dec ex) \<le> EPSILON
        else fle (Fin (ddiv (proj_exposure q sq p (repr_dec ex)) (repr_dec eq))) (cr_max_leverage c))
     \<and> (fle (cr_max_daily_loss_usd c) (Fin 0)
        \<or> xle (xneg (xdec_of_float (cr_max_daily_loss_usd c))) (Dec (repr_dec (min 0 pnl))) = Inr True)
     \<and> (fle (cr_max_drawdown_pct c) (Fin 0) \<or> peak \<le> 0 \<or> repr_dec peak \<le> EPSILON
        \<or> xle (Dec (ddiv (dsub (repr_dec peak) (repr_dec eq)) (repr_dec peak)))
            (xdec_of_float (cr_max_drawdown_pct c)) = Inr True)"

definition valid_finite_config :: "core_risk_config \<Rightarrow> bool" where
  "valid_finite_config c \<longleftrightarrow> cr_validate_config c = Inr c
     \<and> finite_float (cr_max_position_abs c) \<and> finite_float (cr_max_symbol_notional_usd c)
     \<and> finite_float (cr_max_leverage c) \<and> finite_float (cr_max_daily_loss_usd c)
     \<and> finite_float (cr_max_drawdown_pct c) \<and> wf_float (cr_max_leverage c)
     \<and> wf_float (cr_max_daily_loss_usd c) \<and> wf_float (cr_max_drawdown_pct c)"

lemma valid_finite_configE:
  assumes "valid_finite_config c"
  obtains mp mn ml dl dd where "c = finite_config mp mn ml dl dd" "0 < ml" "0 \<le> dl" "0 \<le> dd"
    "dbl ml = ml" "dbl dl = dl" "dbl dd = dd"
proof -
  obtain mp mn ml dl dd where c: "c = finite_config mp mn ml dl dd"
    using assms
    by (cases c) (auto simp: valid_finite_config_def finite_config_def finite_float_def
        split: pyfloat.splits)
  have "0 < repr_dec ml" "0 \<le> dl" "0 \<le> dd" "dbl ml = ml" "dbl dl = dl" "dbl dd = dd"
    using assms unfolding c
    by (auto simp: valid_finite_config_def finite_config_def cr_validate_config_def wf_float_def
        result_simps split: if_splits)
  with c that show ?thesis by (simp add: repr_dec_pos)
qed

lemma validate_order_signed:
  assumes "validate_order order = Inr no" and "po_quantity no = NDec (Dec qty)"
  shows "dec qty = qty" and "EPSILON < qty" and "po_side no = ''BUY'' \<or> po_side no = ''SELL''"
  using assms
  by (cases "num_dec (po_quantity order)";
      auto simp: validate_order_def Let_def result_simps dabs_def split: if_splits)+

lemma daily_loss_finite:
  "\<exists>cs. daily_loss_checks (finite_config mp mn ml dl dd) (Fin pnl) = Inr cs
    \<and> (list_all crc_passed cs \<longleftrightarrow> dl \<le> 0
         \<or> xle (xneg (xdec_of_float (Fin dl))) (Dec (repr_dec (min 0 pnl))) = Inr True)
    \<and> ''position_limit'' \<notin> set (map crc_name cs)"
  by (auto simp: daily_loss_checks_def finite_config_def)

lemma drawdown_finite:
  "\<exists>cs. drawdown_checks (finite_config mp mn ml dl dd) (Fin eq) (Fin peak) = Inr cs
    \<and> (list_all crc_passed cs \<longleftrightarrow> dd \<le> 0 \<or> peak \<le> 0 \<or> repr_dec peak \<le> EPSILON \<and> 0 \<le> repr_dec dd
         \<or> EPSILON < repr_dec peak
           \<and> ddiv (dsub (repr_dec peak) (repr_dec eq)) (repr_dec peak) \<le> repr_dec dd)
    \<and> ''position_limit'' \<notin> set (map crc_name cs)"
proof (cases "EPSILON < repr_dec peak")
  case True
  then have "repr_dec peak \<noteq> 0" using EPSILON_pos by auto
  with True show ?thesis by (auto simp: drawdown_checks_def finite_config_def Let_def)
next
  case False
  then show ?thesis by (auto simp: drawdown_checks_def finite_config_def Let_def)
qed

lemma leverage_finite:
  "0 < ml \<Longrightarrow> \<exists>lev. leverage_of (Dec e) (Dec x) = Inr lev \<and> lev \<noteq> DNaN
     \<and> (xle lev (Dec ml) = Inr True \<longleftrightarrow> (if e \<le> EPSILON then x \<le> EPSILON else ddiv x e \<le> ml))"
proof (cases "e \<le> EPSILON")
  case False
  then have "e \<noteq> 0" using EPSILON_pos by auto
  with False show ?thesis by (simp add: leverage_of_def)
qed (auto simp: leverage_of_def)

lemma core_check_finite:
  "v \<noteq> DNaN \<Longrightarrow> \<exists>c. core_check name v (Fin b) msg = Inr c \<and> crc_name c = name
     \<and> (crc_passed c \<longleftrightarrow> xle v (Dec b) = Inr True)"
  by (cases v) (auto simp: core_check_def)

definition signed_order_quantity :: "proposed_order \<Rightarrow> decimal" where
  "signed_order_quantity no = (case order_signed_quantity (po_side no) (po_quantity no) of
     Dec q \<Rightarrow> q | _ \<Rightarrow> 0)"

lemma core_evaluate_finite:
  assumes c: "valid_finite_config c" and no: "validate_order order = Inr no"
    and q: "po_quantity no = NDec (Dec qty)" "po_price no = NDec (Dec p)"
    and pos: "validate_position no position = Inr ()"
    and fit: "dec (net_quantity position) = net_quantity position"
  shows "\<exists>ev. core_evaluate c order position (Fin eq) (Fin ex) (Fin pnl) (Fin peak) = Inr ev
    \<and> cre_allowed ev = within_limits c (net_quantity position) (signed_order_quantity no) p eq ex pnl peak
    \<and> cre_projected_position_qty ev = Dec (dadd (net_quantity position) (signed_order_quantity no))
    \<and> (''position_limit'' \<in> set (cre_blocked_by ev) \<longleftrightarrow>
        \<not> fle (Fin \<bar>dadd (net_quantity position) (signed_order_quantity no)\<bar>) (cr_max_position_abs c))"
proof -
  from c obtain mp mn ml dl dd where C: "c = finite_config mp mn ml dl dd" and ml: "0 < ml"
    and dd: "0 \<le> dd" "dbl dd = dd" by (rule valid_finite_configE)
  let ?q = "net_quantity position" and ?sq = "signed_order_quantity no"
  let ?e = "proj_exposure ?q ?sq p (repr_dec ex)"
  have sq: "order_signed_quantity (po_side no) (po_quantity no) = Dec ?sq"
    by (simp add: signed_order_quantity_def order_signed_quantity_def q num_dec_def Let_def)
  have a: "xabs (Dec (dadd ?q ?sq)) = Dec \<bar>dadd ?q ?sq\<bar>"
    by (simp add: dabs_fixed dadd_def)
  obtain lev where lev: "leverage_of (Dec (repr_dec eq)) (Dec ?e) = Inr lev" "lev \<noteq> DNaN"
    "xle lev (Dec ml) = Inr True \<longleftrightarrow>
      (if repr_dec eq \<le> EPSILON then ?e \<le> EPSILON else ddiv ?e (repr_dec eq) \<le> ml)"
    using leverage_finite[OF ml] by blast
  obtain c1 where c1: "core_check ''position_limit'' (Dec \<bar>dadd ?q ?sq\<bar>) (Fin mp)
       ''Projected absolute position must stay within limit'' = Inr c1" "crc_name c1 = ''position_limit''"
     "crc_passed c1 \<longleftrightarrow> \<bar>dadd ?q ?sq\<bar> \<le> mp"
    using core_check_finite[of "Dec \<bar>dadd ?q ?sq\<bar>"] by fastforce
  obtain c2 where c2: "core_check ''symbol_notional_limit'' (Dec (proj_notional ?q ?sq p)) (Fin mn)
       ''Projected per-symbol notional must stay within limit'' = Inr c2"
     "crc_name c2 = ''symbol_notional_limit''" "crc_passed c2 \<longleftrightarrow> proj_notional ?q ?sq p \<le> mn"
    using core_check_finite[of "Dec (proj_notional ?q ?sq p)"] by fastforce
  obtain c3 where c3: "core_check ''leverage_limit'' lev (Fin ml)
       ''Projected account leverage must stay within limit'' = Inr c3" "crc_name c3 = ''leverage_limit''"
     "crc_passed c3 \<longleftrightarrow> xle lev (Dec ml) = Inr True"
    using core_check_finite[OF lev(2)] by blast
  obtain c4 where c4: "daily_loss_checks c (Fin pnl) = Inr c4"
     "list_all crc_passed c4 \<longleftrightarrow> dl \<le> 0
         \<or> xle (xneg (xdec_of_float (Fin dl))) (Dec (repr_dec (min 0 pnl))) = Inr True"
     "''position_limit'' \<notin> set (map crc_name c4)"
    using daily_loss_finite unfolding C by blast
  obtain c5 where c5: "drawdown_checks c (Fin eq) (Fin peak) = Inr c5"
     "list_all crc_passed c5 \<longleftrightarrow> dd \<le> 0 \<or> peak \<le> 0 \<or> repr_dec peak \<le> EPSILON \<and> 0 \<le> repr_dec dd
         \<or> EPSILON < repr_dec peak
           \<and> ddiv (dsub (repr_dec peak) (repr_dec eq)) (repr_dec peak) \<le> repr_dec dd"
     "''position_limit'' \<notin> set (map crc_name c5)"
    using drawdown_finite unfolding C by blast
  have exp: "projected_exposure (Dec (max 0 (repr_dec ex))) (Dec (dmul (dabs ?q) p))
      (Dec (proj_notional ?q ?sq p)) = Inr (Dec ?e)"
    by (simp add: projected_exposure_def proj_exposure_def)
  have lim: "cr_max_position_abs c = Fin mp" "cr_max_symbol_notional_usd c = Fin mn"
    "cr_max_leverage c = Fin ml" by (simp_all add: C finite_config_def)
  define cs where "cs = [c1, c2, c3] @ c4 @ c5"
  have ev: "\<exists>ev. core_evaluate c order position (Fin eq) (Fin ex) (Fin pnl) (Fin peak) = Inr ev
    \<and> cre_blocked_by ev = map crc_name (filter (\<lambda>c. \<not> crc_passed c) cs)
    \<and> cre_allowed ev = (cre_blocked_by ev = [])
    \<and> cre_projected_position_qty ev = Dec (dadd ?q ?sq)"
    unfolding core_evaluate_def Let_def no pos rbind_simps sq xadd.simps a
    by (simp add: q num_dec_def exp[unfolded proj_notional_def] lev(1) lim
        c1(1) c2(1)[unfolded proj_notional_def] c3(1) c4(1) c5(1) cs_def)
  have all: "map crc_name (filter (\<lambda>c. \<not> crc_passed c) cs) = [] \<longleftrightarrow> list_all crc_passed cs"
    by (simp add: filter_empty_conv list_all_iff)
  have "list_all crc_passed cs \<longleftrightarrow> within_limits c ?q ?sq p eq ex pnl peak"
    unfolding cs_def within_limits_def
    using c1(3) c2(3) c3(3) c4(2) c5(2) lev(3) dd repr_dec_nonneg[of dd]
    by (auto simp: C finite_config_def)
  moreover have "''position_limit'' \<in> set (map crc_name (filter (\<lambda>c. \<not> crc_passed c) cs))
      \<longleftrightarrow> \<not> crc_passed c1"
    using c1(2) c2(2) c3(2) c4(3) c5(3) by (auto simp: cs_def)
  moreover have "fle (Fin \<bar>dadd ?q ?sq\<bar>) (cr_max_position_abs c) \<longleftrightarrow> crc_passed c1"
    by (simp add: lim c1(3))
  ultimately show ?thesis using ev all by metis
qed

section \<open>Properties\<close>

text \<open>On finite inputs and a validated configuration, for an order and a position that pass
  validation, the rules always answer and the order is allowed exactly when the projected position,
  notional and leverage, the daily loss and the drawdown are within the configured limits.\<close>

theorem core_rules_decide:
  assumes "valid_finite_config c" and "validate_order order = Inr no"
    and "po_quantity no = NDec (Dec qty)" and "po_price no = NDec (Dec p)"
    and "validate_position no position = Inr ()"
    and "dec (net_quantity position) = net_quantity position"
  shows "returns (\<lambda>ev. cre_allowed ev =
      within_limits c (net_quantity position) (signed_order_quantity no) p eq ex pnl peak)
    (core_evaluate c order position (Fin eq) (Fin ex) (Fin pnl) (Fin peak))"
  using core_evaluate_finite[OF assms, of eq ex pnl peak] by (auto simp: returns_iff)

definition sample_order :: "string \<Rightarrow> rat \<Rightarrow> rat \<Rightarrow> proposed_order" where
  "sample_order side q p = \<lparr>po_mode = ''mock'', po_symbol = ''btc/usdt'', po_side = side,
     po_quantity = NFloat (Fin q), po_price = NFloat (Fin p)\<rparr>"

definition sample_config :: core_risk_config where
  "sample_config = finite_config 10 5000 3 100 (1 / 4)"

lemma sample_config_valid: "valid_finite_config sample_config"
  by code_simp

lemma sample_order_valid:
  "validate_order (sample_order ''sell'' 2 100) = Inr \<lparr>po_mode = ''MOCK'', po_symbol = ''BTC/USDT'',
     po_side = ''SELL'', po_quantity = NDec (Dec 2), po_price = NDec (Dec 100)\<rparr>"
  by code_simp

theorem core_rules_decide_witness:
  "returns (\<lambda>ev. cre_allowed ev)
     (core_evaluate sample_config (sample_order ''sell'' 2 100) None (Fin 1000) (Fin 0) (Fin 0) (Fin 1000))"
proof -
  have "within_limits sample_config (net_quantity None) (signed_order_quantity \<lparr>po_mode = ''MOCK'',
     po_symbol = ''BTC/USDT'', po_side = ''SELL'', po_quantity = NDec (Dec 2), po_price = NDec (Dec 100)\<rparr>)
     100 1000 0 0 1000"
    by code_simp
  then show ?thesis
    using core_rules_decide[OF sample_config_valid sample_order_valid, of 2 100 None 1000 0 0 1000]
    by (simp add: validate_position_def net_quantity_def)
qed

text \<open>An order that shrinks a position is never blocked by the position limit: if the present
  position is within the limit and the order brings it no further from zero, the check
  \<open>position_limit\<close> passes.\<close>

theorem shrinking_order_passes_position_limit:
  assumes "valid_finite_config c" and "validate_order order = Inr no"
    and "po_quantity no = NDec (Dec qty)" and "po_price no = NDec (Dec p)"
    and "validate_position no position = Inr ()"
    and fit: "dec (net_quantity position) = net_quantity position"
    and shrink: "\<bar>net_quantity position + signed_order_quantity no\<bar> \<le> \<bar>net_quantity position\<bar>"
    and within: "fle (Fin \<bar>net_quantity position\<bar>) (cr_max_position_abs c)"
  shows "returns (\<lambda>ev. ''position_limit'' \<notin> set (cre_blocked_by ev))
    (core_evaluate c order position (Fin eq) (Fin ex) (Fin pnl) (Fin peak))"
proof -
  have "\<bar>dadd (net_quantity position) (signed_order_quantity no)\<bar> \<le> \<bar>net_quantity position\<bar>"
    unfolding dadd_def dec_abs[symmetric] by (intro decr.upper decr.abs_fixed fit shrink)
  then have "fle (Fin \<bar>dadd (net_quantity position) (signed_order_quantity no)\<bar>) (cr_max_position_abs c)"
    using within by (cases "cr_max_position_abs c") auto
  then show ?thesis
    using core_evaluate_finite[OF assms(1-6), of eq ex pnl peak] by (auto simp: returns_iff)
qed

theorem shrinking_order_passes_position_limit_witness:
  "returns (\<lambda>ev. ''position_limit'' \<notin> set (cre_blocked_by ev))
     (core_evaluate sample_config (sample_order ''sell'' 2 100)
        (Some (empty_position ''t'' ''MOCK'' ''BTC/USDT'' \<lparr>pos_quantity := 3\<rparr>))
        (Fin 1) (Fin 0) (Fin 0) (Fin 1000))"
proof -
  let ?p = "Some (empty_position ''t'' ''MOCK'' ''BTC/USDT'' \<lparr>pos_quantity := 3\<rparr>)"
  let ?no = "\<lparr>po_mode = ''MOCK'', po_symbol = ''BTC/USDT'', po_side = ''SELL'',
     po_quantity = NDec (Dec 2), po_price = NDec (Dec 100)\<rparr>"
  have h: "validate_position ?no ?p = Inr ()" "dec (net_quantity ?p) = net_quantity ?p"
    "\<bar>net_quantity ?p + signed_order_quantity ?no\<bar> \<le> \<bar>net_quantity ?p\<bar>"
    "fle (Fin \<bar>net_quantity ?p\<bar>) (cr_max_position_abs sample_config)"
    by code_simp+
  show ?thesis
    by (rule shrinking_order_passes_position_limit[OF sample_config_valid sample_order_valid _ _ h]) simp_all
qed

end
