(* ===== verification/Py_Datetime.thy ===== *)
theory Py_Datetime
  imports Py_Prelude
begin

text \<open>
  The part of Python's \<open>datetime\<close> that the code uses. An instant is the number of microseconds since
  1970-01-01T00:00 UTC; a \<open>datetime\<close> object is its wall clock in the same unit with an optional
  offset. The theory has the proleptic Gregorian calendar, \<open>isoformat()\<close> of a UTC time with its
  suffix replaced by \<open>Z\<close>, \<open>datetime.fromisoformat\<close> and \<open>astimezone(utc)\<close>, with the range checks of
  years 1 to 9999.
\<close>

section \<open>Calendar\<close>

definition is_leap :: "int \<Rightarrow> bool" where
  "is_leap y \<longleftrightarrow> y mod 4 = 0 \<and> (y mod 100 \<noteq> 0 \<or> y mod 400 = 0)"

definition days_in_month :: "int \<Rightarrow> int \<Rightarrow> int" where
  "days_in_month y m = (if m = 2 then (if is_leap y then 29 else 28)
     else if m = 4 \<or> m = 6 \<or> m = 9 \<or> m = 11 then 30 else 31)"

definition days_before_year :: "int \<Rightarrow> int" where
  "days_before_year y = (let z = y - 1 in z * 365 + z div 4 - z div 100 + z div 400)"

definition days_before_month :: "int \<Rightarrow> int \<Rightarrow> int" where
  "days_before_month y m = sum_list (map (days_in_month y) [1..m - 1])"

text \<open>Ordinal day, 1 for 0001-01-01; day 719163 is 1970-01-01.\<close>

definition ymd2ord :: "int \<Rightarrow> int \<Rightarrow> int \<Rightarrow> int" where
  "ymd2ord y m d = days_before_year y + days_before_month y m + d"

text \<open>Year, month and day of a day number counted from 1970-01-01.\<close>

definition civil_from_days :: "int \<Rightarrow> int \<times> int \<times> int" where
  "civil_from_days n = (let z = n + 719468; era = z div 146097; doe = z - era * 146097;
     yoe = (doe - doe div 1460 + doe div 36524 - doe div 146096) div 365;
     doy = doe - (365 * yoe + yoe div 4 - yoe div 100); mp = (5 * doy + 2) div 153;
     d = doy - (153 * mp + 2) div 5 + 1; m = (if mp < 10 then mp + 3 else mp - 9);
     y = yoe + era * 400
   in (if m \<le> 2 then y + 1 else y, m, d))"

section \<open>Printing\<close>

definition pad0 :: "nat \<Rightarrow> int \<Rightarrow> string" where
  "pad0 n i = (let ds = int_digits i in replicate (n - length ds) (CHR ''0'') @ ds)"

text \<open>\<open>t.isoformat().replace("+00:00", "Z")\<close> for a UTC time\<close>

definition iso_utc :: "int \<Rightarrow> string" where
  "iso_utc us = (let secs = us div 1000000; frac = us mod 1000000; days = secs div 86400;
     s = secs mod 86400 in case civil_from_days days of (y, m, d) \<Rightarrow>
     pad0 4 y @ ''-'' @ pad0 2 m @ ''-'' @ pad0 2 d @ ''T'' @ pad0 2 (s div 3600) @ '':''
     @ pad0 2 (s mod 3600 div 60) @ '':'' @ pad0 2 (s mod 60)
     @ (if frac = 0 then [] else CHR ''.'' # pad0 6 frac) @ ''Z'')"

section \<open>Objects\<close>

record pydatetime =
  dt_wall :: int
  dt_offset :: "int option"

text \<open>0001-01-01T00:00 and 9999-12-31T23:59:59.999999\<close>

definition MIN_INSTANT :: int where
  "MIN_INSTANT = - 62135596800000000"

definition MAX_INSTANT :: int where
  "MAX_INSTANT = 253402300799999999"

definition in_range :: "int \<Rightarrow> bool" where
  "in_range t \<longleftrightarrow> MIN_INSTANT \<le> t \<and> t \<le> MAX_INSTANT"

definition date_overflow :: exc where
  "date_overflow = Exc OverflowError ''date value out of range''"

text \<open>The UTC instant of an object, naive times counting as UTC.\<close>

definition utc_instant :: "pydatetime \<Rightarrow> int result" where
  "utc_instant dt = (case dt_offset dt of
      None \<Rightarrow> Inr (dt_wall dt)
    | Some off \<Rightarrow> (let t = dt_wall dt - off in if in_range t then Inr t else Inl date_overflow))"

text \<open>\<open>t + timedelta(seconds=n)\<close>\<close>

definition add_seconds :: "int \<Rightarrow> int \<Rightarrow> int result" where
  "add_seconds t n =
     (if \<bar>n div 86400\<bar> > 999999999 then
        Inl (Exc OverflowError (''days='' @ int_str (n div 86400) @ ''; must have magnitude <= 999999999''))
      else let t' = t + n * 1000000 in if in_range t' then Inr t' else Inl date_overflow)"

section \<open>Parsing\<close>

definition fixed_digits :: "nat \<Rightarrow> string \<Rightarrow> int option" where
  "fixed_digits n s = (let t = take n s in
     if length t = n \<and> list_all is_digit t then Some (digits_val t) else None)"

definition digit_run :: "string \<Rightarrow> nat" where
  "digit_run s = length (takeWhile is_digit s)"

text \<open>Where the date part of an ISO string ends.\<close>

definition find_separator :: "string \<Rightarrow> nat option" where
  "find_separator s = (let n = length s in
     if n = 7 then Some 7
     else if s ! 4 = CHR ''-'' then
       if s ! 5 = CHR ''W'' then
         if n > 8 \<and> s ! 8 = CHR ''-'' then
           if n = 9 then None
           else if n > 10 \<and> is_digit (s ! 10) then Some 8 else Some 10
         else Some 8
       else Some 10
     else if s ! 4 = CHR ''W'' then
       (let idx = 7 + digit_run (drop 7 s) in
        if idx < 9 then Some idx else if even idx then Some 7 else Some 8)
     else Some 8)"

definition valid_date :: "int \<Rightarrow> int \<Rightarrow> int \<Rightarrow> bool" where
  "valid_date y m d \<longleftrightarrow> 1 \<le> y \<and> y \<le> 9999 \<and> 1 \<le> m \<and> m \<le> 12 \<and> 1 \<le> d \<and> d \<le> days_in_month y m"

text \<open>The ordinal of a day given by ISO year, week and weekday.\<close>

definition isoweek_ord :: "int \<Rightarrow> int \<Rightarrow> int \<Rightarrow> int option" where
  "isoweek_ord y w d =
     (let first = ymd2ord y 1 1; fw = first mod 7;
          wd = (first + 6) mod 7;
          monday = first - wd + (if wd > 3 then 7 else 0);
          ord = monday + (w - 1) * 7 + (d - 1)
      in if 1 \<le> y \<and> y \<le> 9999 \<and> (0 < w \<and> w < 53 \<or> w = 53 \<and> (fw = 4 \<or> fw = 3 \<and> is_leap y))
            \<and> 0 < d \<and> d < 8 \<and> 1 \<le> ord \<and> ord \<le> 3652059
         then Some ord else None)"

definition parse_iso_date :: "string \<Rightarrow> int option" where
  "parse_iso_date s = (case fixed_digits 4 s of
      None \<Rightarrow> None
    | Some y \<Rightarrow>
       (let sep = take 1 (drop 4 s) = ''-''; r = (if sep then drop 5 s else drop 4 s) in
        if take 1 r = ''W'' then
          (case fixed_digits 2 (drop 1 r) of
             None \<Rightarrow> None
           | Some w \<Rightarrow> (let r2 = drop 3 r in
               if r2 = [] then isoweek_ord y w 1
               else if (take 1 r2 = ''-'') \<noteq> sep then None
               else (case fixed_digits 1 (if sep then drop 1 r2 else r2) of
                  None \<Rightarrow> None | Some d \<Rightarrow> isoweek_ord y w d)))
        else
          (case fixed_digits 2 r of
             None \<Rightarrow> None
           | Some m \<Rightarrow> (let r2 = drop 2 r in
               if (take 1 r2 = ''-'') \<noteq> sep then None
               else (case fixed_digits 2 (if sep then drop 1 r2 else r2) of
                  None \<Rightarrow> None
                | Some d \<Rightarrow> if valid_date y m d then Some (ymd2ord y m d) else None)))))"

definition parse_fraction :: "string \<Rightarrow> int option" where
  "parse_fraction s = (case s of
      [] \<Rightarrow> Some 0
    | c # ds \<Rightarrow>
        if (c = CHR ''.'' \<or> c = CHR '','') \<and> ds \<noteq> [] \<and> list_all is_digit ds
        then Some (digits_val (take 6 ds) * 10 ^ (6 - length (take 6 ds))) else None)"

definition parse_hms :: "string \<Rightarrow> (int \<times> int \<times> int \<times> int) option" where
  "parse_hms s = (case fixed_digits 2 s of
      None \<Rightarrow> None
    | Some h \<Rightarrow> (let r1 = drop 2 s; sep = take 1 r1 = '':''; r1' = (if sep then drop 1 r1 else r1) in
        if r1 = [] then Some (h, 0, 0, 0)
        else (case fixed_digits 2 r1' of
            None \<Rightarrow> None
          | Some m \<Rightarrow> (let r2 = drop 2 r1'; r2' = (if sep then drop 1 r2 else r2) in
              if r2 = [] then Some (h, m, 0, 0)
              else if sep \<and> take 1 r2 \<noteq> '':'' then None
              else (case fixed_digits 2 r2' of
                  None \<Rightarrow> None
                | Some sc \<Rightarrow> (case parse_fraction (drop 2 r2') of
                      None \<Rightarrow> None | Some f \<Rightarrow> Some (h, m, sc, f)))))))"

definition hms_us :: "int \<times> int \<times> int \<times> int \<Rightarrow> int" where
  "hms_us t = (case t of (h, m, s, f) \<Rightarrow> ((h * 60 + m) * 60 + s) * 1000000 + f)"

definition is_tz_char :: "char \<Rightarrow> bool" where
  "is_tz_char c \<longleftrightarrow> c = CHR ''+'' \<or> c = CHR ''-'' \<or> c = CHR ''Z''"

text \<open>The offset of a time string; the outer option is a parse failure, the inner one its absence.\<close>

definition parse_offset :: "string \<Rightarrow> int option option" where
  "parse_offset s = (case s of
      [] \<Rightarrow> Some None
    | c # tz \<Rightarrow>
        if c = CHR ''Z'' then (if tz = [] then Some (Some 0) else None)
        else (case parse_hms tz of
            None \<Rightarrow> None
          | Some t \<Rightarrow> (let us = hms_us t in
              if us < 86400000000 then Some (Some (if c = CHR ''-'' then - us else us)) else None)))"

definition parse_iso_time :: "string \<Rightarrow> (int \<times> int option) option" where
  "parse_iso_time s = (case parse_hms (takeWhile (\<lambda>c. \<not> is_tz_char c) s) of
      None \<Rightarrow> None
    | Some (h, m, sc, f) \<Rightarrow>
        if h \<le> 23 \<and> m \<le> 59 \<and> sc \<le> 59 then
          (case parse_offset (dropWhile (\<lambda>c. \<not> is_tz_char c) s) of
             None \<Rightarrow> None | Some off \<Rightarrow> Some (hms_us (h, m, sc, f), off))
        else None)"

definition fromisoformat :: "string \<Rightarrow> pydatetime result" where
  "fromisoformat s =
     (let err = Inl (Exc ValueError (''Invalid isoformat string: '' @ s)) in
      if length s < 7 then err
      else (case find_separator s of
          None \<Rightarrow> err
        | Some n \<Rightarrow> (case parse_iso_date (take n s) of
            None \<Rightarrow> err
          | Some ord \<Rightarrow>
             (let tstr = drop (Suc n) s; day = (ord - 719163) * 86400000000 in
              if length s \<le> n then Inr \<lparr>dt_wall = day, dt_offset = None\<rparr>
              else (case parse_iso_time tstr of
                  None \<Rightarrow> err
                | Some (us, off) \<Rightarrow> Inr \<lparr>dt_wall = day + us, dt_offset = off\<rparr>)))))"

end
