(* ===== verification/Oms_Risk_Controls.thy ===== *)
theory Oms_Risk_Controls
  imports Py_Datetime
begin

text \<open>
  The emergency controls of \<open>services/oms/risk_controls.py\<close>: kill switch and circuit breaker with
  their event log. An operation returns its result together with the new state, because a raised
  exception keeps the updates made before it. Times are UTC instants in microseconds; an operation
  called without a time reads the clock, which is its first argument. The lemmas show the state
  invariant over every sequence of operations, that an engaged kill switch blocks until it is
  disabled, that the breaker opens at the threshold for the cool-down period, and that the event
  log determines the kill switch.
\<close>

section \<open>State\<close>

datatype meta_value = MInt int | MStr string

record control_event =
  ce_event_type :: string
  ce_control :: string
  ce_status :: string
  ce_reason :: string
  ce_actor :: string
  ce_occurred_at :: string
  ce_metadata :: "(string, meta_value) dict"

record control_gate =
  cg_allowed :: bool
  cg_blocked_by :: "string list"

record control_state =
  cs_kill_switch_enabled :: bool
  cs_circuit_breaker_open :: bool
  cs_consecutive_failures :: int
  cs_open_until :: "string option"

record control_plane =
  cp_threshold :: int
  cp_cooldown_seconds :: int
  cp_kill_switch_enabled :: bool
  cp_consecutive_failures :: int
  cp_open_until :: "int option"
  cp_events :: "control_event list"

section \<open>Operations\<close>

definition control_init :: "int \<Rightarrow> int \<Rightarrow> control_plane result" where
  "control_init threshold cooldown =
     (if threshold \<le> 0 then Inl (Exc ValueError ''circuit_breaker_threshold must be positive'')
      else if cooldown \<le> 0 then
        Inl (Exc ValueError ''circuit_breaker_cooldown_seconds must be positive'')
      else Inr \<lparr>cp_threshold = threshold, cp_cooldown_seconds = cooldown,
             cp_kill_switch_enabled = False, cp_consecutive_failures = 0,
             cp_open_until = None, cp_events = []\<rparr>)"

definition to_utc :: "int \<Rightarrow> pydatetime option \<Rightarrow> int result" where
  "to_utc clock value = (case value of None \<Rightarrow> Inr clock | Some dt \<Rightarrow> utc_instant dt)"

definition emit ::
    "string \<Rightarrow> string \<Rightarrow> string \<Rightarrow> string \<Rightarrow> string \<Rightarrow> int \<Rightarrow> (string, meta_value) dict
      \<Rightarrow> control_plane \<Rightarrow> control_plane" where
  "emit event_type control status reason actor occurred_at metadata cp =
     cp\<lparr>cp_events := cp_events cp @
       [\<lparr>ce_event_type = event_type, ce_control = control, ce_status = status,
         ce_reason = reason, ce_actor = actor, ce_occurred_at = iso_utc occurred_at,
         ce_metadata = metadata\<rparr>]\<rparr>"

definition enable_kill_switch ::
    "int \<Rightarrow> string \<Rightarrow> string \<Rightarrow> pydatetime option \<Rightarrow> control_plane \<Rightarrow> unit result \<times> control_plane" where
  "enable_kill_switch clock reason actor at_time cp = (case to_utc clock at_time of
      Inl e \<Rightarrow> (Inl e, cp)
    | Inr now \<Rightarrow>
        if cp_kill_switch_enabled cp then (Inr (), cp)
        else (Inr (), emit ''risk.kill_switch.enabled'' ''kill_switch'' ''ENABLED'' reason actor now []
                (cp\<lparr>cp_kill_switch_enabled := True\<rparr>)))"

definition disable_kill_switch ::
    "int \<Rightarrow> string \<Rightarrow> string \<Rightarrow> pydatetime option \<Rightarrow> control_plane \<Rightarrow> unit result \<times> control_plane" where
  "disable_kill_switch clock reason actor at_time cp = (case to_utc clock at_time of
      Inl e \<Rightarrow> (Inl e, cp)
    | Inr now \<Rightarrow>
        if \<not> cp_kill_switch_enabled cp then (Inr (), cp)
        else (Inr (), emit ''risk.kill_switch.disabled'' ''kill_switch'' ''DISABLED'' reason actor now []
                (cp\<lparr>cp_kill_switch_enabled := False\<rparr>)))"

text \<open>\<open>trip_circuit_breaker\<close> from the normalised time on; \<open>cooldown_seconds or default\<close>.\<close>

definition trip_at ::
    "string \<Rightarrow> string \<Rightarrow> int \<Rightarrow> int option \<Rightarrow> control_plane \<Rightarrow> unit result \<times> control_plane" where
  "trip_at reason actor now cooldown_seconds cp =
     (let cooldown = (case cooldown_seconds of
            None \<Rightarrow> cp_cooldown_seconds cp
          | Some c \<Rightarrow> if c = 0 then cp_cooldown_seconds cp else c)
      in if cooldown \<le> 0 then (Inl (Exc ValueError ''cooldown_seconds must be positive''), cp)
         else (case add_seconds now cooldown of
             Inl e \<Rightarrow> (Inl e, cp)
           | Inr open_until \<Rightarrow>
               (Inr (), emit ''risk.circuit_breaker.tripped'' ''circuit_breaker'' ''OPEN'' reason actor now
                  [(''consecutive_failures'', MInt (cp_consecutive_failures cp)),
                   (''threshold'', MInt (cp_threshold cp)),
                   (''open_until'', MStr (iso_utc open_until))]
                  (cp\<lparr>cp_open_until := Some open_until\<rparr>))))"

definition trip_circuit_breaker ::
    "int \<Rightarrow> string \<Rightarrow> string \<Rightarrow> pydatetime option \<Rightarrow> int option \<Rightarrow> control_plane
      \<Rightarrow> unit result \<times> control_plane" where
  "trip_circuit_breaker clock reason actor at_time cooldown_seconds cp = (case to_utc clock at_time of
      Inl e \<Rightarrow> (Inl e, cp)
    | Inr now \<Rightarrow> trip_at reason actor now cooldown_seconds cp)"

definition record_failure ::
    "int \<Rightarrow> string \<Rightarrow> string \<Rightarrow> pydatetime option \<Rightarrow> control_plane \<Rightarrow> unit result \<times> control_plane" where
  "record_failure clock reason actor at_time cp = (case to_utc clock at_time of
      Inl e \<Rightarrow> (Inl e, cp)
    | Inr now \<Rightarrow>
        (let cp1 = cp\<lparr>cp_consecutive_failures := cp_consecutive_failures cp + 1\<rparr>;
             cp2 = emit ''risk.circuit_breaker.failure_recorded'' ''circuit_breaker''
                     ''FAILURE_RECORDED'' reason actor now
                     [(''consecutive_failures'', MInt (cp_consecutive_failures cp1))] cp1
         in if cp_consecutive_failures cp2 \<ge> cp_threshold cp2
            then trip_at reason actor now None cp2 else (Inr (), cp2)))"

definition record_success :: "control_plane \<Rightarrow> control_plane" where
  "record_success cp = cp\<lparr>cp_consecutive_failures := 0\<rparr>"

definition reset_circuit_breaker ::
    "int \<Rightarrow> string \<Rightarrow> string \<Rightarrow> pydatetime option \<Rightarrow> control_plane \<Rightarrow> unit result \<times> control_plane" where
  "reset_circuit_breaker clock reason actor at_time cp = (case to_utc clock at_time of
      Inl e \<Rightarrow> (Inl e, cp)
    | Inr now \<Rightarrow>
        if cp_open_until cp = None \<and> cp_consecutive_failures cp = 0 then (Inr (), cp)
        else (Inr (), emit ''risk.circuit_breaker.reset'' ''circuit_breaker'' ''CLOSED'' reason actor now []
                (cp\<lparr>cp_open_until := None, cp_consecutive_failures := 0\<rparr>)))"

definition is_circuit_breaker_open :: "int \<Rightarrow> control_plane \<Rightarrow> bool" where
  "is_circuit_breaker_open now cp = (case cp_open_until cp of
      None \<Rightarrow> False | Some until \<Rightarrow> now < until)"

definition auto_reset_if_expired :: "int \<Rightarrow> control_plane \<Rightarrow> control_plane" where
  "auto_reset_if_expired now cp = (case cp_open_until cp of
      None \<Rightarrow> cp
    | Some until \<Rightarrow>
        if now < until then cp
        else emit ''risk.circuit_breaker.auto_reset'' ''circuit_breaker'' ''CLOSED''
               ''cooldown elapsed'' ''system'' now []
               (cp\<lparr>cp_open_until := None, cp_consecutive_failures := 0\<rparr>))"

definition evaluate_order_allowed ::
    "int \<Rightarrow> pydatetime option \<Rightarrow> control_plane \<Rightarrow> control_gate result \<times> control_plane" where
  "evaluate_order_allowed clock now cp = (case to_utc clock now of
      Inl e \<Rightarrow> (Inl e, cp)
    | Inr reference_time \<Rightarrow>
        (let cp' = auto_reset_if_expired reference_time cp;
             blocked = (if cp_kill_switch_enabled cp' then [''kill_switch''] else [])
               @ (if is_circuit_breaker_open reference_time cp' then [''circuit_breaker''] else [])
         in (Inr \<lparr>cg_allowed = (blocked = []), cg_blocked_by = blocked\<rparr>, cp')))"

definition control_snapshot ::
    "int \<Rightarrow> pydatetime option \<Rightarrow> control_plane \<Rightarrow> control_state result \<times> control_plane" where
  "control_snapshot clock now cp = (case to_utc clock now of
      Inl e \<Rightarrow> (Inl e, cp)
    | Inr reference_time \<Rightarrow>
        (let cp' = auto_reset_if_expired reference_time cp
         in (Inr \<lparr>cs_kill_switch_enabled = cp_kill_switch_enabled cp',
                  cs_circuit_breaker_open = is_circuit_breaker_open reference_time cp',
                  cs_consecutive_failures = cp_consecutive_failures cp',
                  cs_open_until = map_option iso_utc (cp_open_until cp')\<rparr>, cp')))"

definition drain_events :: "control_plane \<Rightarrow> control_event list \<times> control_plane" where
  "drain_events cp = (cp_events cp, cp\<lparr>cp_events := []\<rparr>)"

section \<open>Sequences of operations\<close>

datatype control_op =
    EnableKill int string string "pydatetime option"
  | DisableKill int string string "pydatetime option"
  | Failure int string string "pydatetime option"
  | Success
  | Trip int string string "pydatetime option" "int option"
  | Reset int string string "pydatetime option"
  | Evaluate int "pydatetime option"
  | Snapshot int "pydatetime option"
  | Drain

text \<open>One call: whether it raised, the events it handed out, and the new state.\<close>

fun control_exec :: "control_op \<Rightarrow> control_plane \<Rightarrow> bool \<times> control_event list \<times> control_plane" where
  "control_exec (EnableKill c r a t) cp = (case enable_kill_switch c r a t cp of (x, cp') \<Rightarrow> (isl x, [], cp'))"
| "control_exec (DisableKill c r a t) cp = (case disable_kill_switch c r a t cp of (x, cp') \<Rightarrow> (isl x, [], cp'))"
| "control_exec (Failure c r a t) cp = (case record_failure c r a t cp of (x, cp') \<Rightarrow> (isl x, [], cp'))"
| "control_exec Success cp = (False, [], record_success cp)"
| "control_exec (Trip c r a t cd) cp = (case trip_circuit_breaker c r a t cd cp of (x, cp') \<Rightarrow> (isl x, [], cp'))"
| "control_exec (Reset c r a t) cp = (case reset_circuit_breaker c r a t cp of (x, cp') \<Rightarrow> (isl x, [], cp'))"
| "control_exec (Evaluate c t) cp = (case evaluate_order_allowed c t cp of (x, cp') \<Rightarrow> (isl x, [], cp'))"
| "control_exec (Snapshot c t) cp = (case control_snapshot c t cp of (x, cp') \<Rightarrow> (isl x, [], cp'))"
| "control_exec Drain cp = (case drain_events cp of (evs, cp') \<Rightarrow> (False, evs, cp'))"

fun is_disable :: "control_op \<Rightarrow> bool" where
  "is_disable (DisableKill _ _ _ _) = True"
| "is_disable _ = False"

text \<open>The states of a control plane: any call, also one that raised, leads to the next.\<close>

inductive control_reachable :: "control_plane \<Rightarrow> control_event list \<Rightarrow> control_plane \<Rightarrow> bool"
  for start where
  start: "control_reachable start [] start"
| step: "control_reachable start drained cp \<Longrightarrow> control_exec op cp = (raised, evs, cp')
    \<Longrightarrow> control_reachable start (drained @ evs) cp'"

lemmas control_ops = enable_kill_switch_def disable_kill_switch_def record_failure_def
  record_success_def trip_circuit_breaker_def trip_at_def reset_circuit_breaker_def
  evaluate_order_allowed_def control_snapshot_def drain_events_def auto_reset_if_expired_def
  emit_def Let_def

definition control_ok :: "control_plane \<Rightarrow> bool" where
  "control_ok cp \<longleftrightarrow> 0 < cp_threshold cp \<and> 0 < cp_cooldown_seconds cp \<and> 0 \<le> cp_consecutive_failures cp"

lemma control_exec_ok: "control_ok cp \<Longrightarrow> control_exec op cp = (raised, evs, cp') \<Longrightarrow>
    control_ok cp' \<and> cp_threshold cp' = cp_threshold cp \<and> cp_cooldown_seconds cp' = cp_cooldown_seconds cp"
  by (cases op) (auto simp: control_ops control_ok_def split: sum.splits option.splits if_splits prod.splits)

text \<open>The kill switch as told by the events.\<close>

definition kill_step :: "bool \<Rightarrow> control_event \<Rightarrow> bool" where
  "kill_step b e = (if ce_event_type e = ''risk.kill_switch.enabled'' then True
     else if ce_event_type e = ''risk.kill_switch.disabled'' then False else b)"

lemma control_exec_log:
  assumes "control_exec op cp = (raised, evs, cp')"
    and "cp_kill_switch_enabled cp = foldl kill_step b (drained @ cp_events cp)"
  shows "cp_kill_switch_enabled cp' = foldl kill_step b (drained @ evs @ cp_events cp')"
  using assms
  by (cases op) (auto simp: control_ops kill_step_def split: sum.splits option.splits if_splits prod.splits)

lemma control_exec_kill:
  "control_exec op cp = (raised, evs, cp') \<Longrightarrow> \<not> is_disable op \<Longrightarrow> cp_kill_switch_enabled cp
    \<Longrightarrow> cp_kill_switch_enabled cp'"
  by (cases op) (auto simp: control_ops split: sum.splits option.splits if_splits prod.splits)

fun control_execs :: "control_op list \<Rightarrow> control_plane \<Rightarrow> control_plane" where
  "control_execs [] cp = cp"
| "control_execs (op # ops) cp = control_execs ops (snd (snd (control_exec op cp)))"

lemma control_execs_kill:
  "list_all (\<lambda>op. \<not> is_disable op) ops \<Longrightarrow> cp_kill_switch_enabled cp
    \<Longrightarrow> cp_kill_switch_enabled (control_execs ops cp)"
proof (induction ops arbitrary: cp)
  case (Cons op ops)
  obtain raised evs cp' where "control_exec op cp = (raised, evs, cp')" by (metis prod_cases3)
  with Cons show ?case using control_exec_kill by auto
qed simp

lemma auto_reset_kill [simp]:
  "cp_kill_switch_enabled (auto_reset_if_expired t cp) = cp_kill_switch_enabled cp"
  by (simp add: auto_reset_if_expired_def emit_def split: option.splits)

lemma auto_reset_open:
  "is_circuit_breaker_open t (auto_reset_if_expired t cp) = is_circuit_breaker_open t cp"
  by (simp add: auto_reset_if_expired_def emit_def is_circuit_breaker_open_def split: option.splits)

lemma evaluate_gate:
  assumes "evaluate_order_allowed clock now cp = (Inr gate, cp')"
  shows "\<exists>t. to_utc clock now = Inr t \<and> cp' = auto_reset_if_expired t cp
    \<and> cg_blocked_by gate = (if cp_kill_switch_enabled cp then [''kill_switch''] else [])
        @ (if is_circuit_breaker_open t cp then [''circuit_breaker''] else [])
    \<and> cg_allowed gate = (cg_blocked_by gate = [])"
  using assms by (auto simp: evaluate_order_allowed_def Let_def auto_reset_open split: sum.splits)

text \<open>A run of consecutive failures.\<close>

fun fail_at :: "int list \<Rightarrow> string \<Rightarrow> string \<Rightarrow> control_plane \<Rightarrow> control_plane" where
  "fail_at [] reason actor cp = cp"
| "fail_at (t # ts) reason actor cp = fail_at ts reason actor (snd (record_failure t reason actor None cp))"

lemma record_failure_effect:
  assumes "0 < cp_cooldown_seconds cp" and "add_seconds now (cp_cooldown_seconds cp) = Inr until"
    and "record_failure now reason actor None cp = (r, cp')"
  shows "cp_consecutive_failures cp' = cp_consecutive_failures cp + 1"
    and "cp_threshold cp' = cp_threshold cp" "cp_cooldown_seconds cp' = cp_cooldown_seconds cp"
    and "cp_threshold cp \<le> cp_consecutive_failures cp + 1 \<Longrightarrow> cp_open_until cp' = Some until"
  using assms by (auto simp: record_failure_def trip_at_def to_utc_def emit_def Let_def split: if_splits)

lemma fail_at_count:
  assumes "0 < cp_cooldown_seconds cp"
    and "list_all (\<lambda>t. \<exists>u. add_seconds t (cp_cooldown_seconds cp) = Inr u) ts"
  shows "cp_consecutive_failures (fail_at ts reason actor cp) = cp_consecutive_failures cp + int (length ts)
    \<and> cp_threshold (fail_at ts reason actor cp) = cp_threshold cp
    \<and> cp_cooldown_seconds (fail_at ts reason actor cp) = cp_cooldown_seconds cp"
  using assms
proof (induction ts arbitrary: cp)
  case (Cons t ts)
  obtain r cp' where r: "record_failure t reason actor None cp = (r, cp')" by (metis surj_pair)
  from Cons.prems obtain u where "add_seconds t (cp_cooldown_seconds cp) = Inr u" by auto
  note e = record_failure_effect[OF Cons.prems(1) this r]
  have "0 < cp_cooldown_seconds cp'"
    "list_all (\<lambda>t. \<exists>u. add_seconds t (cp_cooldown_seconds cp') = Inr u) ts"
    using Cons.prems e(3) by auto
  from Cons.IH[OF this] show ?case using e by (simp add: r)
qed simp

lemma fail_at_snoc: "fail_at (ts @ [t]) reason actor cp = snd (record_failure t reason actor None (fail_at ts reason actor cp))"
  by (induction ts arbitrary: cp) auto

section \<open>Properties\<close>

text \<open>The state invariant: threshold and cool-down stay positive and constant and the failure count
  non-negative through every sequence of calls, calls that raise included, and the events handed
  out or still queued tell exactly whether the kill switch is engaged.\<close>

theorem control_plane_invariant:
  assumes "control_init threshold cooldown = Inr start" and "control_reachable start drained cp"
  shows "control_ok cp \<and> cp_threshold cp = threshold \<and> cp_cooldown_seconds cp = cooldown
    \<and> cp_kill_switch_enabled cp = foldl kill_step False (drained @ cp_events cp)"
  using assms(2)
proof (induction rule: control_reachable.induct)
  case start
  then show ?case using assms(1) by (auto simp: control_init_def control_ok_def split: if_splits)
next
  case (step drained cp op raised evs cp')
  then show ?case using control_exec_ok[of cp op] control_exec_log[OF step.hyps(2), of False drained] by auto
qed

theorem control_plane_invariant_witness:
  "\<exists>start cp. control_init 3 60 = Inr start
    \<and> control_reachable start [] cp \<and> cp_kill_switch_enabled cp \<and> foldl kill_step False (cp_events cp)"
proof -
  obtain start where s: "control_init 3 60 = Inr start" by (simp add: control_init_def)
  obtain raised evs cp where e: "control_exec (EnableKill 0 ''r'' ''a'' None) start = (raised, evs, cp)"
    by (metis prod_cases3)
  have cp: "evs = []" "cp_kill_switch_enabled cp"
    using e s by (auto simp: control_init_def enable_kill_switch_def to_utc_def emit_def)
  have "control_reachable start ([] @ evs) cp"
    by (rule control_reachable.step[OF control_reachable.start e])
  with control_plane_invariant[OF s this] cp s show ?thesis by auto
qed

text \<open>C10: The kill switch holds. Once it is engaged, no sequence of calls other than
  \<open>disable_kill_switch\<close> lets an order through: every later evaluation that answers is a refusal
  naming the kill switch.\<close>

theorem kill_switch_holds:
  assumes "cp_kill_switch_enabled cp" and "list_all (\<lambda>op. \<not> is_disable op) ops"
    and "evaluate_order_allowed clock now (control_execs ops cp) = (Inr gate, cp')"
  shows "\<not> cg_allowed gate \<and> ''kill_switch'' \<in> set (cg_blocked_by gate)"
  using evaluate_gate[OF assms(3)] control_execs_kill[OF assms(2,1)] by auto

theorem kill_switch_holds_witness:
  "\<exists>gate cp'. evaluate_order_allowed 90000000 None (control_execs [Success, Reset 5 ''r'' ''a'' None]
      \<lparr>cp_threshold = 3, cp_cooldown_seconds = 60, cp_kill_switch_enabled = True,
       cp_consecutive_failures = 2, cp_open_until = Some 1, cp_events = []\<rparr>) = (Inr gate, cp')
    \<and> \<not> cg_allowed gate"
proof -
  let ?cp = "\<lparr>cp_threshold = 3, cp_cooldown_seconds = 60, cp_kill_switch_enabled = True,
       cp_consecutive_failures = 2, cp_open_until = Some 1, cp_events = []\<rparr>"
  let ?ops = "[Success, Reset 5 ''r'' ''a'' None]"
  obtain gate cp' where e: "evaluate_order_allowed 90000000 None (control_execs ?ops ?cp) = (Inr gate, cp')"
    by (simp add: evaluate_order_allowed_def to_utc_def Let_def)
  have "cp_kill_switch_enabled ?cp" "list_all (\<lambda>op. \<not> is_disable op) ?ops" by simp_all
  from kill_switch_holds[OF this e] e show ?thesis by blast
qed

text \<open>C18: The circuit breaker opens and closes on time. After any run of at least \<open>threshold\<close>
  consecutive failures, every evaluation before the last failure plus the cool-down is refused by
  the circuit breaker; an evaluation at or after that instant is not, and it resets the failure
  count.\<close>

theorem breaker_opens_for_cooldown:
  assumes ok: "control_ok cp" and long: "cp_threshold cp \<le> int (length ts) + 1"
    and range: "list_all (\<lambda>t. \<exists>u. add_seconds t (cp_cooldown_seconds cp) = Inr u) (ts @ [now])"
    and ev: "evaluate_order_allowed t None (fail_at (ts @ [now]) reason actor cp) = (Inr gate, cp')"
  shows "if t < now + cp_cooldown_seconds cp * 1000000
    then ''circuit_breaker'' \<in> set (cg_blocked_by gate) \<and> \<not> cg_allowed gate
    else ''circuit_breaker'' \<notin> set (cg_blocked_by gate) \<and> cp_consecutive_failures cp' = 0"
proof -
  let ?cp1 = "fail_at ts reason actor cp"
  have c: "cp_consecutive_failures ?cp1 = cp_consecutive_failures cp + int (length ts)"
    "cp_threshold ?cp1 = cp_threshold cp" "cp_cooldown_seconds ?cp1 = cp_cooldown_seconds cp"
    using fail_at_count[of cp ts] ok range by (auto simp: control_ok_def)
  obtain r cp2 where r: "record_failure now reason actor None ?cp1 = (r, cp2)" by (metis surj_pair)
  have u: "add_seconds now (cp_cooldown_seconds ?cp1) = Inr (now + cp_cooldown_seconds cp * 1000000)"
    using range c(3) by (auto simp: add_seconds_def Let_def split: if_splits)
  have "cp_open_until cp2 = Some (now + cp_cooldown_seconds cp * 1000000)"
    using record_failure_effect(4)[OF _ u r] ok long c by (auto simp: control_ok_def)
  then have "is_circuit_breaker_open t cp2 = (t < now + cp_cooldown_seconds cp * 1000000)"
    and "\<not> t < now + cp_cooldown_seconds cp * 1000000 \<Longrightarrow>
      cp_consecutive_failures (auto_reset_if_expired t cp2) = 0"
    by (simp_all add: is_circuit_breaker_open_def auto_reset_if_expired_def emit_def)
  then show ?thesis
    using evaluate_gate[OF ev[unfolded fail_at_snoc r snd_conv]] by (auto simp: to_utc_def)
qed

theorem breaker_opens_for_cooldown_witness:
  "\<exists>gate cp'. evaluate_order_allowed 61000000 None (fail_at ([0, 1000000] @ [2000000]) ''r'' ''a''
      \<lparr>cp_threshold = 3, cp_cooldown_seconds = 60, cp_kill_switch_enabled = False,
       cp_consecutive_failures = 0, cp_open_until = None, cp_events = []\<rparr>) = (Inr gate, cp')
    \<and> \<not> cg_allowed gate"
proof -
  let ?cp = "\<lparr>cp_threshold = 3, cp_cooldown_seconds = 60, cp_kill_switch_enabled = False,
       cp_consecutive_failures = 0, cp_open_until = None, cp_events = []\<rparr>"
  obtain gate cp' where e: "evaluate_order_allowed 61000000 None
      (fail_at ([0, 1000000] @ [2000000]) ''r'' ''a'' ?cp) = (Inr gate, cp')"
    by (simp add: evaluate_order_allowed_def to_utc_def Let_def del: fail_at.simps)
  have h: "control_ok ?cp" "cp_threshold ?cp \<le> int (length [0, 1000000 :: int]) + 1"
    "list_all (\<lambda>t. \<exists>u. add_seconds t (cp_cooldown_seconds ?cp) = Inr u) ([0, 1000000] @ [2000000])"
    by (simp_all add: control_ok_def add_seconds_def in_range_def MIN_INSTANT_def MAX_INSTANT_def)
  from breaker_opens_for_cooldown[OF h e] have "\<not> cg_allowed gate" by simp
  with e show ?thesis by blast
qed

end
