(* ===== verification/Oms_Risk_Policy.thy ===== *)
theory Oms_Risk_Policy
  imports Oms_Portfolio Oms_Risk_Rules Oms_Risk_Controls
begin

text \<open>
  The composed risk policy of \<open>services/oms/risk_policy.py\<close>: core rules, then portfolio guards, then
  emergency controls, with the blocking reasons merged in that order. The observability sink is the
  protocol of the code: a function argument with its own state. The three stages share one
  contract, the locale \<open>risk_stage\<close>: a stage allows exactly when it names no blocking reason; it is
  interpreted on the three models, and the policy's lemmas rest on it.
\<close>

section \<open>Data\<close>

record risk_policy_config =
  rp_core :: core_risk_config
  rp_guards :: drawdown_config

record policy_decision =
  pd_allowed :: bool
  pd_blocked_by :: "string list"
  pd_core :: core_risk_evaluation
  pd_guards :: drawdown_evaluation
  pd_controls :: control_gate

record ('o) policy_engine =
  pe_config :: risk_policy_config
  pe_controls :: control_plane
  pe_observability :: "'o option"

section \<open>Operations\<close>

definition policy_init ::
    "risk_policy_config \<Rightarrow> control_plane option \<Rightarrow> 'o option \<Rightarrow> 'o policy_engine result" where
  "policy_init config controls sink =
     rbind (cr_validate_config (rp_core config)) (\<lambda>_.
     rbind (dd_validate_config (rp_guards config)) (\<lambda>_.
     rbind (case controls of Some c \<Rightarrow> Inr c | None \<Rightarrow> control_init 3 60) (\<lambda>c.
       Inr \<lparr>pe_config = config, pe_controls = c, pe_observability = sink\<rparr>)))"

definition merge_names :: "string list \<Rightarrow> string list" where
  "merge_names names = foldl (\<lambda>merged name. if name \<in> set merged then merged else merged @ [name]) [] names"

definition merge_blocked ::
    "core_risk_evaluation \<Rightarrow> drawdown_evaluation \<Rightarrow> control_gate \<Rightarrow> string list" where
  "merge_blocked core guards controls =
     merge_names (cre_blocked_by core @ dde_blocked_by guards @ cg_blocked_by controls)"

text \<open>\<open>record_policy_decision\<close> of the sink: its arguments are the identifiers, the order and the decision.\<close>

type_synonym 'o decision_recorder =
  "string option \<Rightarrow> string option \<Rightarrow> string option \<Rightarrow> proposed_order \<Rightarrow> policy_decision \<Rightarrow> 'o
    \<Rightarrow> unit result \<times> 'o"

definition policy_evaluate ::
    "'o decision_recorder \<Rightarrow> proposed_order \<Rightarrow> position_state option \<Rightarrow> portfolio_snapshot \<Rightarrow> pyfloat
      \<Rightarrow> pyfloat \<Rightarrow> int \<Rightarrow> pydatetime option \<Rightarrow> string option \<Rightarrow> string option \<Rightarrow> string option
      \<Rightarrow> 'o policy_engine \<Rightarrow> policy_decision result \<times> 'o policy_engine" where
  "policy_evaluate record_decision order current_position snapshot peak_equity_usd
       current_total_exposure_usd clock now trace_id decision_id strategy_id pe =
     (case core_evaluate (rp_core (pe_config pe)) order current_position
             (float_of_xdec (snap_total_balance_usd snapshot)) current_total_exposure_usd
             (Fin 0) (Fin 0) of
        Inl e \<Rightarrow> (Inl e, pe)
      | Inr core \<Rightarrow>
     (case drawdown_evaluate (rp_guards (pe_config pe)) snapshot peak_equity_usd None of
        Inl e \<Rightarrow> (Inl e, pe)
      | Inr guards \<Rightarrow>
     (case evaluate_order_allowed clock now (pe_controls pe) of
        (Inl e, cp) \<Rightarrow> (Inl e, pe\<lparr>pe_controls := cp\<rparr>)
      | (Inr controls, cp) \<Rightarrow>
          (let pe1 = pe\<lparr>pe_controls := cp\<rparr>;
               blocked_by = merge_blocked core guards controls;
               decision = \<lparr>pd_allowed = (blocked_by = []), pd_blocked_by = blocked_by,
                           pd_core = core, pd_guards = guards, pd_controls = controls\<rparr>
           in case pe_observability pe1 of
                None \<Rightarrow> (Inr decision, pe1)
              | Some sink \<Rightarrow>
                  (case record_decision trace_id decision_id strategy_id order decision sink of
                     (Inl e, sink') \<Rightarrow> (Inl e, pe1\<lparr>pe_observability := Some sink'\<rparr>)
                   | (Inr _, sink') \<Rightarrow> (Inr decision, pe1\<lparr>pe_observability := Some sink'\<rparr>))))))"

definition drain_control_events ::
    "(control_event list \<Rightarrow> 'o \<Rightarrow> unit result \<times> 'o) \<Rightarrow> 'o policy_engine
      \<Rightarrow> control_event list result \<times> 'o policy_engine" where
  "drain_control_events record_events pe = (case drain_events (pe_controls pe) of
      (events, cp) \<Rightarrow>
        (let pe1 = pe\<lparr>pe_controls := cp\<rparr> in
         case pe_observability pe1 of
           None \<Rightarrow> (Inr events, pe1)
         | Some sink \<Rightarrow>
             (case record_events events sink of
                (Inl e, sink') \<Rightarrow> (Inl e, pe1\<lparr>pe_observability := Some sink'\<rparr>)
              | (Inr _, sink') \<Rightarrow> (Inr events, pe1\<lparr>pe_observability := Some sink'\<rparr>))))"

section \<open>The contract of a stage\<close>

locale risk_stage =
  fixes eval :: "'i \<Rightarrow> 'e result" and allowed :: "'e \<Rightarrow> bool" and blocked :: "'e \<Rightarrow> string list"
  assumes stage_law: "eval i = Inr e \<Longrightarrow> allowed e \<longleftrightarrow> blocked e = []"
begin

lemma blocked_names: "eval i = Inr e \<Longrightarrow> \<not> allowed e \<Longrightarrow> \<exists>name. name \<in> set (blocked e)"
  using stage_law[of i e] by (metis all_not_in_conv list.set_sel(1))

end

interpretation core_stage: risk_stage
  "\<lambda>(c, order, p, eq, ex, pnl, peak). core_evaluate c order p eq ex pnl peak" cre_allowed cre_blocked_by
  by unfold_locales (auto simp: core_evaluate_def Let_def result_simps split: prod.splits)

interpretation guard_stage: risk_stage
  "\<lambda>(c, s, peak, daily). drawdown_evaluate c s peak daily" dde_allowed dde_blocked_by
  by unfold_locales (auto simp: drawdown_evaluate_def Let_def result_simps split: prod.splits)

interpretation control_stage: risk_stage
  "\<lambda>(clock, now, cp). fst (evaluate_order_allowed clock now cp)" cg_allowed cg_blocked_by
  by unfold_locales (auto simp: evaluate_order_allowed_def Let_def split: prod.splits sum.splits)

section \<open>Lemmas\<close>

lemma merge_names_loop:
  assumes "distinct m"
  shows "distinct (foldl (\<lambda>merged name. if name \<in> set merged then merged else merged @ [name]) m names)
    \<and> set (foldl (\<lambda>merged name. if name \<in> set merged then merged else merged @ [name]) m names)
        = set m \<union> set names"
  using assms by (induction names arbitrary: m) auto

lemma merge_names_set: "distinct (merge_names names)" "set (merge_names names) = set names"
  using merge_names_loop[of "[]" names] by (simp_all add: merge_names_def)

lemma merge_names_Nil: "merge_names names = [] \<longleftrightarrow> names = []"
  using merge_names_set(2)[of names] by (metis set_empty)

lemma policy_evaluate_Inr:
  assumes "policy_evaluate rec order p s peak ex clock now t d st pe = (Inr dec', pe')"
  shows "core_evaluate (rp_core (pe_config pe)) order p
      (float_of_xdec (snap_total_balance_usd s)) ex (Fin 0) (Fin 0) = Inr (pd_core dec')"
    and "drawdown_evaluate (rp_guards (pe_config pe)) s peak None = Inr (pd_guards dec')"
    and "evaluate_order_allowed clock now (pe_controls pe) = (Inr (pd_controls dec'), pe_controls pe')"
    and "pd_blocked_by dec' = merge_blocked (pd_core dec') (pd_guards dec') (pd_controls dec')"
    and "pd_allowed dec' \<longleftrightarrow> pd_blocked_by dec' = []"
    and "pe_config pe' = pe_config pe"
  using assms
  by (auto simp: policy_evaluate_def Let_def split: sum.splits prod.splits option.splits)

section \<open>Properties\<close>

text \<open>C36: The policy is the conjunction of its stages: a decision allows an order exactly when the core
  rules, the portfolio guards and the emergency controls all allow it, and its blocking reasons
  are the reasons of the three stages, each once.\<close>

theorem policy_allows_iff_all_stages:
  assumes "policy_evaluate rec order p s peak ex clock now t d st pe = (Inr decision, pe')"
  shows "(pd_allowed decision \<longleftrightarrow> cre_allowed (pd_core decision) \<and> dde_allowed (pd_guards decision)
        \<and> cg_allowed (pd_controls decision))
    \<and> distinct (pd_blocked_by decision)
    \<and> set (pd_blocked_by decision) = set (cre_blocked_by (pd_core decision))
        \<union> set (dde_blocked_by (pd_guards decision)) \<union> set (cg_blocked_by (pd_controls decision))"
proof -
  note P = policy_evaluate_Inr[OF assms]
  have "cre_allowed (pd_core decision) \<longleftrightarrow> cre_blocked_by (pd_core decision) = []"
    using core_stage.stage_law[of "(rp_core (pe_config pe), order, p,
      float_of_xdec (snap_total_balance_usd s), ex, Fin 0, Fin 0)"] P(1) by simp
  moreover have "dde_allowed (pd_guards decision) \<longleftrightarrow> dde_blocked_by (pd_guards decision) = []"
    using guard_stage.stage_law[of "(rp_guards (pe_config pe), s, peak, None)"] P(2) by simp
  moreover have "cg_allowed (pd_controls decision) \<longleftrightarrow> cg_blocked_by (pd_controls decision) = []"
    using control_stage.stage_law[of "(clock, now, pe_controls pe)"] P(3) by simp
  ultimately show ?thesis
    using P(4,5) by (auto simp: merge_blocked_def merge_names_Nil merge_names_set)
qed

definition sample_policy :: "pyfloat \<Rightarrow> pyfloat \<Rightarrow> bool \<Rightarrow> unit policy_engine" where
  "sample_policy dl dd kill =
     \<lparr>pe_config = \<lparr>rp_core = sample_config\<lparr>cr_max_daily_loss_usd := dl, cr_max_drawdown_pct := dd\<rparr>,
        rp_guards = \<lparr>dd_max_drawdown_pct = Fin (1 / 2), dd_max_daily_loss_usd = Fin 500\<rparr>\<rparr>,
      pe_controls = \<lparr>cp_threshold = 3, cp_cooldown_seconds = 60, cp_kill_switch_enabled = kill,
        cp_consecutive_failures = 0, cp_open_until = None, cp_events = []\<rparr>,
      pe_observability = None\<rparr>"

definition sample_snapshot :: "rat \<Rightarrow> rat \<Rightarrow> portfolio_snapshot" where
  "sample_snapshot tot realized = \<lparr>snap_snapshot_time = ''t'', snap_mode = ''MOCK'',
     snap_total_balance_usd = Dec tot, snap_available_balance_usd = Dec tot,
     snap_locked_balance_usd = Dec 0, snap_unrealized_pnl = Dec 0, snap_realized_pnl_total = Dec realized\<rparr>"

definition sample_decision ::
    "pyfloat \<Rightarrow> pyfloat \<Rightarrow> bool \<Rightarrow> rat \<Rightarrow> rat \<Rightarrow> pyfloat \<Rightarrow> policy_decision result \<times> unit policy_engine" where
  "sample_decision dl dd kill tot realized peak =
     policy_evaluate (\<lambda>_ _ _ _ _ o'. (Inr (), o')) (sample_order ''sell'' 2 100) None
       (sample_snapshot tot realized) peak (Fin 0) 0 None None None None (sample_policy dl dd kill)"

theorem policy_allows_iff_all_stages_witness:
  "\<exists>decision pe'. sample_decision (Fin 0) (Fin 0) True 1000 0 (Fin 1000) = (Inr decision, pe')
    \<and> \<not> pd_allowed decision \<and> set (pd_blocked_by decision) = {''kill_switch''}"
proof -
  have "returns (\<lambda>dcs. cre_blocked_by (pd_core dcs) = [] \<and> dde_blocked_by (pd_guards dcs) = []
      \<and> cg_blocked_by (pd_controls dcs) = [''kill_switch''] \<and> \<not> cg_allowed (pd_controls dcs))
    (fst (sample_decision (Fin 0) (Fin 0) True 1000 0 (Fin 1000)))"
    by code_simp
  then obtain decision pe' where e: "sample_decision (Fin 0) (Fin 0) True 1000 0 (Fin 1000) = (Inr decision, pe')"
    and d: "cre_blocked_by (pd_core decision) = []" "dde_blocked_by (pd_guards decision) = []"
      "cg_blocked_by (pd_controls decision) = [''kill_switch'']" "\<not> cg_allowed (pd_controls decision)"
    by (cases "sample_decision (Fin 0) (Fin 0) True 1000 0 (Fin 1000)") (auto elim: returnsE)
  from policy_allows_iff_all_stages[OF e[unfolded sample_decision_def]] e d show ?thesis by auto
qed

lemma core_evaluate_checks:
  assumes "core_evaluate c order p eq ex pnl peak = Inr ev"
  obtains v1 v2 v3 c1 c2 c3 c4 c5 where
    "core_check ''position_limit'' v1 (cr_max_position_abs c)
       ''Projected absolute position must stay within limit'' = Inr c1"
    "core_check ''symbol_notional_limit'' v2 (cr_max_symbol_notional_usd c)
       ''Projected per-symbol notional must stay within limit'' = Inr c2"
    "core_check ''leverage_limit'' v3 (cr_max_leverage c)
       ''Projected account leverage must stay within limit'' = Inr c3"
    "daily_loss_checks c pnl = Inr c4" "drawdown_checks c eq peak = Inr c5"
    "cre_blocked_by ev = map crc_name (filter (\<lambda>c. \<not> crc_passed c) ([c1, c2, c3] @ c4 @ c5))"
  using assms unfolding core_evaluate_def Let_def rbind_Inr_iff sum.inject(2)
  by (elim exE conjE)
    (rule that, assumption+, hypsubst, simp only: core_risk_evaluation.select_convs)

lemma core_blocked_names:
  assumes "core_evaluate c order p eq ex pnl peak = Inr ev"
  obtains c4 c5 where "daily_loss_checks c pnl = Inr c4" "drawdown_checks c eq peak = Inr c5"
    "set (cre_blocked_by ev) \<subseteq> {''position_limit'', ''symbol_notional_limit'', ''leverage_limit''}
       \<union> crc_name ` {ck \<in> set (c4 @ c5). \<not> crc_passed ck}"
  using assms
proof (rule core_evaluate_checks)
  fix v1 v2 v3 c1 c2 c3 c4 c5
  assume c: "core_check ''position_limit'' v1 (cr_max_position_abs c)
       ''Projected absolute position must stay within limit'' = Inr c1"
    "core_check ''symbol_notional_limit'' v2 (cr_max_symbol_notional_usd c)
       ''Projected per-symbol notional must stay within limit'' = Inr c2"
    "core_check ''leverage_limit'' v3 (cr_max_leverage c)
       ''Projected account leverage must stay within limit'' = Inr c3"
    and d: "daily_loss_checks c pnl = Inr c4" "drawdown_checks c eq peak = Inr c5"
    and b: "cre_blocked_by ev = map crc_name (filter (\<lambda>c. \<not> crc_passed c) ([c1, c2, c3] @ c4 @ c5))"
  have "crc_name c1 = ''position_limit''" "crc_name c2 = ''symbol_notional_limit''"
    "crc_name c3 = ''leverage_limit''"
    using c by (auto simp: core_check_def result_simps)
  then have "set (cre_blocked_by ev) \<subseteq> {''position_limit'', ''symbol_notional_limit'', ''leverage_limit''}
       \<union> crc_name ` {ck \<in> set (c4 @ c5). \<not> crc_passed ck}"
    unfolding b by auto
  with d show thesis by (rule that)
qed

lemma daily_loss_zero_passes:
  assumes "wf_float (cr_max_daily_loss_usd c)" and "daily_loss_checks c (Fin 0) = Inr cs"
  shows "list_all crc_passed cs"
proof (cases "cr_max_daily_loss_usd c")
  case (Fin x)
  have "0 \<le> repr_dec x" if "0 < x"
    using that assms(1) Fin repr_dec_nonneg[of x] by (simp add: wf_float_def)
  then have "dneg (repr_dec x) \<le> 0" if "0 < x"
    using that decr.nonneg[of "repr_dec x"] by (simp add: dneg_def dec_minus)
  then show ?thesis using assms(2) Fin by (auto simp: daily_loss_checks_def split: if_splits)
qed (use assms(2) in \<open>auto simp: daily_loss_checks_def xdec_of_float_def split: if_splits\<close>)

text \<open>The loss limits of the core rules have no effect through the policy: whatever daily-loss and
  drawdown limits the core configuration sets, the policy engine evaluates the core rules with a
  zero daily result and a zero peak, so they never block an order.\<close>

theorem policy_ignores_core_loss_limits:
  assumes "policy_evaluate rec order p s peak ex clock now t d st pe = (Inr decision, pe')"
    and "wf_float (cr_max_daily_loss_usd (rp_core (pe_config pe)))"
  shows "''daily_loss_limit'' \<notin> set (cre_blocked_by (pd_core decision))
    \<and> ''max_drawdown'' \<notin> set (cre_blocked_by (pd_core decision))"
proof -
  obtain c4 c5 where c: "daily_loss_checks (rp_core (pe_config pe)) (Fin 0) = Inr c4"
    "drawdown_checks (rp_core (pe_config pe)) (float_of_xdec (snap_total_balance_usd s)) (Fin 0) = Inr c5"
    "set (cre_blocked_by (pd_core decision)) \<subseteq> {''position_limit'', ''symbol_notional_limit'', ''leverage_limit''}
       \<union> crc_name ` {ck \<in> set (c4 @ c5). \<not> crc_passed ck}"
    using policy_evaluate_Inr(1)[OF assms(1)] by (rule core_blocked_names)
  have "list_all crc_passed c4" using daily_loss_zero_passes[OF assms(2) c(1)] .
  moreover have "c5 = []" using c(2) by (simp add: drawdown_checks_def)
  ultimately show ?thesis using c(3) by (auto simp: list_all_iff)
qed

theorem policy_ignores_core_loss_limits_witness:
  "\<exists>decision pe'. sample_decision (Fin 1) (Fin (1 / 4)) False 1000 (- 400) (Fin 1900) = (Inr decision, pe')
    \<and> pd_allowed decision \<and> ''max_drawdown'' \<notin> set (cre_blocked_by (pd_core decision))"
proof -
  have "returns (\<lambda>dcs. pd_allowed dcs)
    (fst (sample_decision (Fin 1) (Fin (1 / 4)) False 1000 (- 400) (Fin 1900)))"
    by code_simp
  then obtain decision pe' where
    e: "sample_decision (Fin 1) (Fin (1 / 4)) False 1000 (- 400) (Fin 1900) = (Inr decision, pe')"
    and d: "pd_allowed decision"
    by (cases "sample_decision (Fin 1) (Fin (1 / 4)) False 1000 (- 400) (Fin 1900)") (auto elim: returnsE)
  have "wf_float (cr_max_daily_loss_usd (rp_core (pe_config (sample_policy (Fin 1) (Fin (1 / 4)) False))))"
    by (simp add: sample_policy_def)
  from policy_ignores_core_loss_limits[OF e[unfolded sample_decision_def] this] e d show ?thesis by blast
qed

end
