(* ===== verification/Oms_State.thy ===== *)
theory Oms_State
  imports Py_Prelude "HOL-Library.List_Lexorder" "HOL-Library.Char_ord"
begin

text \<open>
  The order life cycle of \<open>services/oms/state_machine.py\<close>: the states, the transition table, the
  state machine with its operations \<open>can_transition\<close> and \<open>apply\<close>, and the normalisation of state
  names. A state name that passed \<open>normalize_state\<close> is a value of \<open>oms_state\<close>. The lemmas
  show that the two operations agree, that terminal states absorb, and that every life cycle is
  short and never revisits a state.
\<close>

section \<open>States and transitions\<close>

datatype oms_state =
    NEW | SUBMITTED | OPEN | PARTIALLY_FILLED | FILLED | CANCELED | REJECTED | EXPIRED

fun state_name :: "oms_state \<Rightarrow> string" where
  "state_name NEW = ''NEW''"
| "state_name SUBMITTED = ''SUBMITTED''"
| "state_name OPEN = ''OPEN''"
| "state_name PARTIALLY_FILLED = ''PARTIALLY_FILLED''"
| "state_name FILLED = ''FILLED''"
| "state_name CANCELED = ''CANCELED''"
| "state_name REJECTED = ''REJECTED''"
| "state_name EXPIRED = ''EXPIRED''"

definition OMS_STATES :: "oms_state list" where
  "OMS_STATES = [NEW, SUBMITTED, OPEN, PARTIALLY_FILLED, FILLED, CANCELED, REJECTED, EXPIRED]"

definition TERMINAL_STATES :: "oms_state list" where
  "TERMINAL_STATES = [FILLED, CANCELED, REJECTED, EXPIRED]"

fun ALLOWED_TRANSITIONS :: "oms_state \<Rightarrow> oms_state list" where
  "ALLOWED_TRANSITIONS NEW = [SUBMITTED, REJECTED, CANCELED, EXPIRED]"
| "ALLOWED_TRANSITIONS SUBMITTED = [OPEN, PARTIALLY_FILLED, FILLED, CANCELED, REJECTED, EXPIRED]"
| "ALLOWED_TRANSITIONS OPEN = [PARTIALLY_FILLED, FILLED, CANCELED, EXPIRED]"
| "ALLOWED_TRANSITIONS PARTIALLY_FILLED = [FILLED, CANCELED, EXPIRED]"
| "ALLOWED_TRANSITIONS FILLED = []"
| "ALLOWED_TRANSITIONS CANCELED = []"
| "ALLOWED_TRANSITIONS REJECTED = []"
| "ALLOWED_TRANSITIONS EXPIRED = []"

definition normalize_state :: "string \<Rightarrow> oms_state result" where
  "normalize_state state =
     (case find (\<lambda>st. state_name st = py_upper (py_strip state)) OMS_STATES of
        None \<Rightarrow> Inl (Exc OMSStateTransitionError (''unknown OMS state: '' @ state))
      | Some st \<Rightarrow> Inr st)"

section \<open>The state machine\<close>

record oms_transition =
  tr_previous_state :: oms_state
  tr_current_state :: oms_state
  tr_changed :: bool

record oms_machine =
  sm_state :: oms_state

definition oms_init :: "string \<Rightarrow> oms_machine result" where
  "oms_init initial_state = rbind (normalize_state initial_state) (\<lambda>st. Inr \<lparr>sm_state = st\<rparr>)"

definition current_state :: "oms_machine \<Rightarrow> oms_state" where
  "current_state m = sm_state m"

definition can_transition :: "oms_machine \<Rightarrow> string \<Rightarrow> bool result" where
  "can_transition m next_state = rbind (normalize_state next_state) (\<lambda>target.
     if target = sm_state m then Inr True
     else Inr (target \<in> set (ALLOWED_TRANSITIONS (sm_state m))))"

text \<open>\<open>str(sorted(names))\<close> in the error message\<close>

definition names_repr :: "oms_state list \<Rightarrow> string" where
  "names_repr sts = ''['' @ join_with '', ''
     (map (\<lambda>n. CHR 0x27 # n @ [CHR 0x27]) (sort (map state_name sts))) @ '']''"

definition apply_state :: "oms_machine \<Rightarrow> string \<Rightarrow> (oms_transition \<times> oms_machine) result" where
  "apply_state m next_state = (let current = sm_state m in
     rbind (normalize_state next_state) (\<lambda>target.
       if target = current then
         Inr (\<lparr>tr_previous_state = current, tr_current_state = current, tr_changed = False\<rparr>, m)
       else if target \<notin> set (ALLOWED_TRANSITIONS current) then
         Inl (Exc OMSStateTransitionError
           (''invalid transition: '' @ state_name current @ '' -> '' @ state_name target
            @ ''; allowed: '' @ names_repr (ALLOWED_TRANSITIONS current)))
       else
         Inr (\<lparr>tr_previous_state = current, tr_current_state = target, tr_changed = True\<rparr>,
              m\<lparr>sm_state := target\<rparr>)))"

definition transition_matrix :: "(string \<times> string list) list" where
  "transition_matrix =
     map (\<lambda>st. (state_name st, sort (map state_name (ALLOWED_TRANSITIONS st)))) OMS_STATES"

text \<open>Feeding a machine a sequence of requested states, stopping at the first error.\<close>

fun apply_states :: "oms_machine \<Rightarrow> string list \<Rightarrow> (oms_transition list \<times> oms_machine) result" where
  "apply_states m [] = Inr ([], m)"
| "apply_states m (s # ss) = rbind (apply_state m s) (\<lambda>(t, m').
     rbind (apply_states m' ss) (\<lambda>(ts, m''). Inr (t # ts, m'')))"

section \<open>Lemmas\<close>

lemma state_name_inj: "state_name a = state_name b \<Longrightarrow> a = b"
  by (cases a; cases b) simp_all

lemma all_states [simp]: "st \<in> set OMS_STATES"
  by (cases st) (simp_all add: OMS_STATES_def)

lemma norm_state_name: "py_upper (py_strip (state_name st)) = state_name st"
  by (cases st; hypsubst; code_simp)

lemma normalize_state_Inr:
  "normalize_state s = Inr st \<longleftrightarrow> py_upper (py_strip s) = state_name st"
proof
  assume "normalize_state s = Inr st"
  then have "find (\<lambda>st'. state_name st' = py_upper (py_strip s)) OMS_STATES = Some st"
    by (simp add: normalize_state_def split: option.splits)
  then show "py_upper (py_strip s) = state_name st"
    by (auto simp: find_Some_iff)
next
  assume "py_upper (py_strip s) = state_name st"
  moreover have "find (\<lambda>st'. state_name st' = state_name st) OMS_STATES = Some st"
    by (cases st) (simp_all add: OMS_STATES_def)
  ultimately show "normalize_state s = Inr st" by (simp add: normalize_state_def)
qed

lemma normalize_state_name [simp]: "normalize_state (state_name st) = Inr st"
  by (simp add: normalize_state_Inr norm_state_name)

definition is_terminal :: "oms_state \<Rightarrow> bool" where
  "is_terminal st \<longleftrightarrow> st \<in> set TERMINAL_STATES"

lemma terminal_iff_no_successor: "is_terminal st \<longleftrightarrow> ALLOWED_TRANSITIONS st = []"
  by (cases st) (simp_all add: is_terminal_def TERMINAL_STATES_def)

text \<open>A rank that every permitted change increases.\<close>

fun state_rank :: "oms_state \<Rightarrow> nat" where
  "state_rank NEW = 0"
| "state_rank SUBMITTED = 1"
| "state_rank OPEN = 2"
| "state_rank PARTIALLY_FILLED = 3"
| "state_rank _ = 4"

lemma state_rank_le: "state_rank st \<le> 4"
  by (cases st) simp_all

lemma allowed_rank: "b \<in> set (ALLOWED_TRANSITIONS a) \<Longrightarrow> state_rank a < state_rank b"
  by (cases a) auto

lemma apply_state_Inr:
  assumes "apply_state m s = Inr (t, m')"
  shows "tr_previous_state t = sm_state m" and "tr_current_state t = sm_state m'"
    and "tr_changed t \<longleftrightarrow> sm_state m' \<noteq> sm_state m"
    and "tr_changed t \<Longrightarrow> sm_state m' \<in> set (ALLOWED_TRANSITIONS (sm_state m))"
    and "normalize_state s = Inr (sm_state m')"
  using assms by (auto simp: apply_state_def Let_def result_simps split: if_splits)

lemma apply_state_rank:
  assumes "apply_state m s = Inr (t, m')"
  shows "state_rank (sm_state m) + (if tr_changed t then 1 else 0) \<le> state_rank (sm_state m')"
  using apply_state_Inr[OF assms] allowed_rank[of "sm_state m'" "sm_state m"] by auto

section \<open>Properties\<close>

text \<open>\<open>can_transition\<close> predicts \<open>apply\<close>: for every requested name, \<open>can_transition\<close> raises exactly
  when the name is unknown, and otherwise answers true exactly when \<open>apply\<close> succeeds; a
  successful \<open>apply\<close> reports the old and the new state and leaves the machine in the normalised
  requested state.\<close>

theorem can_transition_predicts_apply:
  "(can_transition m s = Inr True \<longleftrightarrow> (\<exists>t m'. apply_state m s = Inr (t, m')
      \<and> tr_previous_state t = current_state m \<and> tr_current_state t = current_state m'
      \<and> normalize_state s = Inr (current_state m')))
   \<and> (can_transition m s = Inr False \<longleftrightarrow>
        (\<exists>e target. normalize_state s = Inr target \<and> apply_state m s = Inl e))
   \<and> (\<forall>e. can_transition m s = Inl e \<longleftrightarrow> normalize_state s = Inl e)"
proof (cases "normalize_state s")
  case (Inl e)
  then show ?thesis by (simp add: can_transition_def apply_state_def)
next
  case (Inr target)
  then show ?thesis
    by (auto simp: can_transition_def apply_state_def current_state_def Let_def)
qed

text \<open>A terminal order never leaves its state: whatever sequence of requests is applied to a
  machine in FILLED, CANCELED, REJECTED or EXPIRED, a run without error changes nothing, and
  a request for any other known state is refused.\<close>

theorem terminal_states_absorb:
  assumes "is_terminal (current_state m)"
  shows "(\<forall>ss ts m'. apply_states m ss = Inr (ts, m') \<longrightarrow>
            m' = m \<and> (\<forall>t \<in> set ts. \<not> tr_changed t))
    \<and> (\<forall>s target. normalize_state s = Inr target \<and> target \<noteq> current_state m \<longrightarrow>
            (\<exists>msg. apply_state m s = Inl (Exc OMSStateTransitionError msg)))"
proof (intro conjI allI impI)
  have none: "ALLOWED_TRANSITIONS (sm_state m) = []"
    using assms by (simp add: terminal_iff_no_successor current_state_def)
  have step: "m' = m \<and> \<not> tr_changed t" if "apply_state m s = Inr (t, m')" for s t m'
    using that none by (auto simp: apply_state_def Let_def result_simps split: if_splits)
  show "m' = m" "\<forall>t \<in> set ts. \<not> tr_changed t" if "apply_states m ss = Inr (ts, m')" for ss ts m'
    using that by (induction ss arbitrary: ts m')
      (fastforce simp: result_simps dest: step)+
  show "\<exists>msg. apply_state m s = Inl (Exc OMSStateTransitionError msg)"
    if "normalize_state s = Inr target \<and> target \<noteq> current_state m" for s target
    using that none by (auto simp: apply_state_def current_state_def)
qed

theorem terminal_states_absorb_witness:
  "is_terminal (current_state \<lparr>sm_state = FILLED\<rparr>)
   \<and> (\<exists>msg. apply_state \<lparr>sm_state = FILLED\<rparr> ''open'' = Inl (Exc OMSStateTransitionError msg))"
proof -
  have t: "is_terminal (current_state \<lparr>sm_state = FILLED\<rparr>)"
    by (simp add: is_terminal_def TERMINAL_STATES_def current_state_def)
  have "normalize_state ''open'' = Inr OPEN \<and> OPEN \<noteq> current_state \<lparr>sm_state = FILLED\<rparr>"
    by (intro conjI) code_simp+
  with t show ?thesis using terminal_states_absorb[OF t] by blast
qed

text \<open>C32: Every order life cycle is short and acyclic: along any error-free run the rank of the state
  never decreases and grows with every change, so at most four transitions change the state, and
  the machine ends in a state of higher rank than it started whenever anything changed.\<close>

theorem life_cycle_bounded:
  assumes "apply_states m ss = Inr (ts, m')"
  shows "state_rank (current_state m) + length (filter tr_changed ts) \<le> state_rank (current_state m')
    \<and> length (filter tr_changed ts) \<le> 4"
proof -
  have le: "state_rank (current_state m) + length (filter tr_changed ts)
      \<le> state_rank (current_state m')"
    using assms
  proof (induction ss arbitrary: m ts)
    case Nil
    then show ?case by simp
  next
    case (Cons s ss)
    then obtain t m1 ts' where "apply_state m s = Inr (t, m1)" "apply_states m1 ss = Inr (ts', m')"
      "ts = t # ts'"
      by (auto simp: result_simps)
    with Cons.IH[of m1 ts'] show ?case
      using apply_state_rank[of m s t m1] by (auto simp: current_state_def split: if_splits)
  qed
  moreover have "length (filter tr_changed ts) \<le> 4"
    using le state_rank_le[of "current_state m'"] by linarith
  ultimately show ?thesis ..
qed

theorem life_cycle_bounded_witness:
  "\<exists>ts m'. apply_states \<lparr>sm_state = NEW\<rparr> [''submitted'', '' open '', ''FILLED'', ''FILLED''] = Inr (ts, m')
     \<and> length (filter tr_changed ts) \<le> 4 \<and> current_state m' = FILLED"
proof -
  have "returns (\<lambda>(ts, m'). current_state m' = FILLED)
      (apply_states \<lparr>sm_state = NEW\<rparr> [''submitted'', '' open '', ''FILLED'', ''FILLED''])"
    by code_simp
  then obtain ts m' where "apply_states \<lparr>sm_state = NEW\<rparr>
      [''submitted'', '' open '', ''FILLED'', ''FILLED''] = Inr (ts, m')" "current_state m' = FILLED"
    by (elim returnsE) (auto simp del: apply_states.simps)
  then show ?thesis using life_cycle_bounded by blast
qed

end
