(* ===== verification/Oms_Reconciliation.thy ===== *)
theory Oms_Reconciliation
  imports Oms_State Oms_Position
begin

text \<open>
  Reconciliation of an order with its queue life-cycle events and an optional exchange snapshot
  (\<open>services/oms/fill_reconciliation.py\<close>): status inference and ranking, de-duplication of fills,
  the fallback to the snapshot, fill totals and the final status. The lemmas show that redelivered
  events change nothing, that fills are counted once, and how the final status follows from the
  filled quantity.
\<close>

section \<open>Data\<close>

definition MIN_FILL_GAP :: decimal where
  "MIN_FILL_GAP = 1 / 10 ^ 6"

definition EVENT_STATUS_MAP :: "(string, string) dict" where
  "EVENT_STATUS_MAP =
     [(''oms.order.created'', ''OPEN''),
      (''oms.order.submitted'', ''SUBMITTED''),
      (''oms.order.open'', ''OPEN''),
      (''oms.order.partially_filled'', ''PARTIALLY_FILLED''),
      (''oms.order.filled'', ''FILLED''),
      (''oms.order.canceled'', ''CANCELED''),
      (''oms.order.cancelled'', ''CANCELED''),
      (''oms.order.rejected'', ''REJECTED''),
      (''oms.order.expired'', ''EXPIRED''),
      (''oms.order.ignored'', ''CANCELED'')]"

fun STATUS_PRIORITY :: "oms_state \<Rightarrow> nat" where
  "STATUS_PRIORITY NEW = 0"
| "STATUS_PRIORITY SUBMITTED = 1"
| "STATUS_PRIORITY OPEN = 2"
| "STATUS_PRIORITY PARTIALLY_FILLED = 3"
| "STATUS_PRIORITY EXPIRED = 4"
| "STATUS_PRIORITY REJECTED = 5"
| "STATUS_PRIORITY CANCELED = 6"
| "STATUS_PRIORITY FILLED = 7"

record reconciliation_order =
  ro_order_id :: string
  ro_symbol :: string
  ro_mode :: string
  ro_requested_quantity :: decimal
  ro_status :: string
  ro_filled_quantity :: decimal
  ro_average_price :: "decimal option"

record reconciliation_fill =
  rf_fill_id :: string
  rf_order_id :: string
  rf_quantity :: decimal
  rf_price :: decimal
  rf_fee :: decimal
  rf_source :: string

record lifecycle_event =
  le_event_type :: string
  le_status :: "string option"
  le_fill :: "reconciliation_fill option"

record exchange_order_snapshot =
  es_status :: string
  es_filled_quantity :: decimal
  es_average_price :: "decimal option"
  es_fills :: "reconciliation_fill list"

record reconciliation_result =
  rr_order_id :: string
  rr_status :: oms_state
  rr_filled_quantity :: decimal
  rr_average_price :: "decimal option"
  rr_fills :: "reconciliation_fill list"
  rr_used_exchange_fallback :: bool
  rr_changed :: bool

section \<open>Operations\<close>

definition event_status :: "lifecycle_event \<Rightarrow> oms_state option result" where
  "event_status event = (case le_status event of
      Some st \<Rightarrow> rbind (normalize_state st) (\<lambda>s. Inr (Some s))
    | None \<Rightarrow> (case dict_get EVENT_STATUS_MAP (le_event_type event) of
        None \<Rightarrow> Inr None
      | Some mapped \<Rightarrow> rbind (normalize_state mapped) (\<lambda>s. Inr (Some s))))"

definition pick_status :: "oms_state list \<Rightarrow> oms_state" where
  "pick_status statuses =
     foldl (\<lambda>best st. if STATUS_PRIORITY st > STATUS_PRIORITY best then st else best) NEW statuses"

definition normalize_fill :: "reconciliation_fill \<Rightarrow> reconciliation_fill" where
  "normalize_fill fill = fill\<lparr>rf_quantity := max 0 (dabs (rf_quantity fill))\<rparr>"

fun dedupe_loop :: "string list \<Rightarrow> reconciliation_fill list \<Rightarrow> reconciliation_fill list" where
  "dedupe_loop seen [] = []"
| "dedupe_loop seen (fill # fills) =
     (if rf_fill_id fill \<in> set seen then dedupe_loop seen fills
      else fill # dedupe_loop (rf_fill_id fill # seen) fills)"

definition dedupe_fills :: "reconciliation_fill list \<Rightarrow> reconciliation_fill list" where
  "dedupe_fills fills = dedupe_loop [] fills"

definition filled_quantity :: "reconciliation_fill list \<Rightarrow> decimal" where
  "filled_quantity fills = foldl (\<lambda>acc fill. dadd acc (max 0 (rf_quantity fill))) 0 fills"

definition weighted_average_price :: "reconciliation_fill list \<Rightarrow> decimal option" where
  "weighted_average_price fills =
     (let (total_quantity, notional) = foldl (\<lambda>(tq, no) fill.
        let quantity = max 0 (rf_quantity fill)
        in (dadd tq quantity, dadd no (dmul quantity (rf_price fill)))) (0, 0) fills
      in if total_quantity \<le> EPSILON then None else Some (ddiv notional total_quantity))"

definition requires_fallback ::
    "oms_state \<Rightarrow> reconciliation_fill list \<Rightarrow> exchange_order_snapshot \<Rightarrow> bool result" where
  "requires_fallback current_status queue_fills exchange_snapshot =
     rbind (normalize_state (es_status exchange_snapshot)) (\<lambda>snapshot_status.
       let queue_filled = filled_quantity queue_fills;
           snapshot_filled = max 0 (es_filled_quantity exchange_snapshot)
       in if \<not> is_terminal current_status then
            Inr (is_terminal snapshot_status \<or> snapshot_filled > dadd queue_filled MIN_FILL_GAP)
          else if is_terminal snapshot_status
               \<and> STATUS_PRIORITY snapshot_status > STATUS_PRIORITY current_status then Inr True
          else Inr (snapshot_filled > dadd queue_filled MIN_FILL_GAP))"

definition derive_status :: "oms_state \<Rightarrow> decimal \<Rightarrow> decimal \<Rightarrow> oms_state" where
  "derive_status base_status requested_quantity filled =
     (if requested_quantity \<le> EPSILON then base_status
      else if filled \<ge> dsub requested_quantity EPSILON then FILLED
      else if filled > EPSILON then
        (if base_status \<in> {CANCELED, REJECTED, EXPIRED} then base_status else PARTIALLY_FILLED)
      else base_status)"

definition is_changed ::
    "reconciliation_order \<Rightarrow> oms_state \<Rightarrow> oms_state \<Rightarrow> decimal \<Rightarrow> decimal option \<Rightarrow> bool" where
  "is_changed order base_status status filled average_price =
     (base_status \<noteq> status
      \<or> dabs (dsub (ro_filled_quantity order) filled) > EPSILON
      \<or> (case (ro_average_price order, average_price) of
           (None, None) \<Rightarrow> False
         | (Some a, Some b) \<Rightarrow> dabs (dsub a b) > EPSILON
         | _ \<Rightarrow> True))"

text \<open>The loop over the events: the statuses and the fills of this order, in order.\<close>

fun collect_events ::
    "string \<Rightarrow> lifecycle_event list \<Rightarrow> (oms_state list \<times> reconciliation_fill list) result" where
  "collect_events order_id [] = Inr ([], [])"
| "collect_events order_id (event # events) =
     rbind (event_status event) (\<lambda>inferred.
       let fs = (case le_fill event of
             None \<Rightarrow> []
           | Some fill \<Rightarrow> if rf_order_id fill = order_id then [normalize_fill fill] else [])
       in rbind (collect_events order_id events) (\<lambda>(sts, fills).
            Inr ((case inferred of None \<Rightarrow> [] | Some s \<Rightarrow> [s]) @ sts, fs @ fills)))"

definition fallback_status ::
    "oms_state \<Rightarrow> reconciliation_fill list \<Rightarrow> exchange_order_snapshot option
      \<Rightarrow> (bool \<times> oms_state \<times> reconciliation_fill list) result" where
  "fallback_status merged_status merged_fills exchange_snapshot = (case exchange_snapshot of
      None \<Rightarrow> Inr (False, merged_status, merged_fills)
    | Some snapshot \<Rightarrow>
        rbind (requires_fallback merged_status merged_fills snapshot) (\<lambda>required.
          if \<not> required then Inr (False, merged_status, merged_fills)
          else rbind (normalize_state (es_status snapshot)) (\<lambda>snapshot_status.
            Inr (True, pick_status [merged_status, snapshot_status],
                 dedupe_fills (merged_fills @ map normalize_fill (es_fills snapshot))))))"

definition total_filled ::
    "reconciliation_order \<Rightarrow> exchange_order_snapshot option \<Rightarrow> reconciliation_fill list \<Rightarrow> decimal" where
  "total_filled order exchange_snapshot merged_fills =
     (let filled = filled_quantity merged_fills in
      if filled \<le> EPSILON then
        (let own = max 0 (ro_filled_quantity order) in
         case exchange_snapshot of
           None \<Rightarrow> own
         | Some snapshot \<Rightarrow> max own (max 0 (es_filled_quantity snapshot)))
      else filled)"

definition final_average ::
    "reconciliation_order \<Rightarrow> exchange_order_snapshot option \<Rightarrow> reconciliation_fill list
      \<Rightarrow> decimal option" where
  "final_average order exchange_snapshot merged_fills =
     (case weighted_average_price merged_fills of
        Some p \<Rightarrow> Some p
      | None \<Rightarrow> (case Option.bind exchange_snapshot es_average_price of
          Some p \<Rightarrow> Some p
        | None \<Rightarrow> ro_average_price order))"

definition reconcile ::
    "reconciliation_order \<Rightarrow> lifecycle_event list \<Rightarrow> exchange_order_snapshot option
      \<Rightarrow> reconciliation_result result" where
  "reconcile order lifecycle_events exchange_snapshot =
     rbind (normalize_state (ro_status order)) (\<lambda>base_status.
     rbind (collect_events (ro_order_id order) lifecycle_events) (\<lambda>(event_statuses, queue_fills).
     rbind (fallback_status (pick_status (base_status # event_statuses))
              (dedupe_fills queue_fills) exchange_snapshot)
       (\<lambda>(used_exchange_fallback, merged_status, merged_fills).
     let filled = total_filled order exchange_snapshot merged_fills;
         average_price = final_average order exchange_snapshot merged_fills;
         final_status = derive_status merged_status (max 0 (ro_requested_quantity order)) filled
     in Inr \<lparr>rr_order_id = ro_order_id order, rr_status = final_status,
             rr_filled_quantity = filled, rr_average_price = average_price,
             rr_fills = merged_fills, rr_used_exchange_fallback = used_exchange_fallback,
             rr_changed = is_changed order base_status final_status filled average_price\<rparr>)))"

section \<open>Ranking statuses\<close>

lemma STATUS_PRIORITY_inj: "STATUS_PRIORITY a = STATUS_PRIORITY b \<Longrightarrow> a = b"
  by (cases a; cases b) simp_all

definition higher :: "oms_state \<Rightarrow> oms_state \<Rightarrow> oms_state" where
  "higher best st = (if STATUS_PRIORITY st > STATUS_PRIORITY best then st else best)"

lemma pick_status_foldl: "pick_status sts = foldl higher NEW sts"
  by (simp add: pick_status_def higher_def[abs_def])

lemma foldl_higher_ge: "STATUS_PRIORITY b \<le> STATUS_PRIORITY (foldl higher b sts)"
proof (induction sts arbitrary: b)
  case (Cons st sts)
  have "STATUS_PRIORITY b \<le> STATUS_PRIORITY (higher b st)" by (simp add: higher_def)
  with Cons[of "higher b st"] show ?case by simp
qed simp

lemma foldl_higher_mem: "st \<in> set sts \<Longrightarrow> STATUS_PRIORITY st \<le> STATUS_PRIORITY (foldl higher b sts)"
proof (induction sts arbitrary: b)
  case (Cons s sts)
  have "STATUS_PRIORITY s \<le> STATUS_PRIORITY (higher b s)" by (simp add: higher_def)
  then show ?case using Cons foldl_higher_ge[of "higher b s" sts] by auto
qed simp

lemma foldl_higher_absorb:
  "(\<And>st. st \<in> set sts \<Longrightarrow> STATUS_PRIORITY st \<le> STATUS_PRIORITY b) \<Longrightarrow> foldl higher b sts = b"
proof (induction sts)
  case (Cons s sts)
  have "higher b s = b" using Cons.prems[of s] by (simp add: higher_def)
  then show ?case using Cons by simp
qed simp

lemma foldl_higher_in: "foldl higher b sts = b \<or> foldl higher b sts \<in> set sts"
proof (induction sts arbitrary: b)
  case (Cons s sts)
  then show ?case using Cons[of "higher b s"] by (auto simp: higher_def split: if_splits)
qed simp

lemma pick_status_ge: "st \<in> set sts \<Longrightarrow> STATUS_PRIORITY st \<le> STATUS_PRIORITY (pick_status sts)"
  by (simp add: pick_status_foldl foldl_higher_mem)

lemma pick_status_redelivered:
  assumes "set again \<subseteq> set sts"
  shows "pick_status (sts @ again) = pick_status sts"
  unfolding pick_status_foldl foldl_append
  by (intro foldl_higher_absorb foldl_higher_mem) (use assms in auto)

lemma pick_status_in: "pick_status sts = NEW \<or> pick_status sts \<in> set sts"
  unfolding pick_status_foldl by (rule foldl_higher_in)

lemma pick_status_two: "a \<noteq> FILLED \<Longrightarrow> b \<noteq> FILLED \<Longrightarrow> pick_status [a, b] \<noteq> FILLED"
  using pick_status_in[of "[a, b]"] by auto

section \<open>De-duplication\<close>

lemma dedupe_loop_props:
  "distinct (map rf_fill_id (dedupe_loop seen fills))
   \<and> set (map rf_fill_id (dedupe_loop seen fills)) = rf_fill_id ` set fills - set seen
   \<and> set (dedupe_loop seen fills) \<subseteq> set fills"
  by (induction seen fills rule: dedupe_loop.induct) auto

lemma dedupe_loop_append:
  "dedupe_loop seen (xs @ ys) = dedupe_loop seen xs @ dedupe_loop (rev (map rf_fill_id (dedupe_loop seen xs)) @ seen) ys"
  by (induction seen xs rule: dedupe_loop.induct) auto

lemma dedupe_loop_seen: "rf_fill_id ` set ys \<subseteq> set seen \<Longrightarrow> dedupe_loop seen ys = []"
  by (induction seen ys rule: dedupe_loop.induct) auto


lemma dedupe_fills_set: "set (dedupe_fills fills) \<subseteq> set fills"
  using dedupe_loop_props by (simp add: dedupe_fills_def)

lemma dedupe_fills_redelivered:
  assumes "set ys \<subseteq> set xs"
  shows "dedupe_fills (xs @ ys) = dedupe_fills xs"
proof -
  have "rf_fill_id ` set ys \<subseteq> set (rev (map rf_fill_id (dedupe_loop [] xs)) @ [])"
    using dedupe_loop_props[of "[]" xs] assms by auto
  from dedupe_loop_seen[OF this] show ?thesis
    by (simp add: dedupe_fills_def dedupe_loop_append)
qed






section \<open>Collecting events\<close>

definition event_fills :: "string \<Rightarrow> lifecycle_event \<Rightarrow> reconciliation_fill list" where
  "event_fills order_id event = (case le_fill event of
      None \<Rightarrow> []
    | Some fill \<Rightarrow> if rf_order_id fill = order_id then [normalize_fill fill] else [])"

definition event_statuses :: "lifecycle_event \<Rightarrow> oms_state list" where
  "event_statuses event = (case event_status event of Inr (Some s) \<Rightarrow> [s] | _ \<Rightarrow> [])"

lemma collect_events_ok:
  assumes "collect_events order_id events = Inr (sts, fills)"
  shows "sts = concat (map event_statuses events)" and "fills = concat (map (event_fills order_id) events)"
    and "list_all (\<lambda>e. \<exists>s. event_status e = Inr s) events"
proof -
  have "sts = concat (map event_statuses events) \<and> fills = concat (map (event_fills order_id) events)
      \<and> list_all (\<lambda>e. \<exists>s. event_status e = Inr s) events"
    using assms
    by (induction events arbitrary: sts fills)
      (auto simp: result_simps Let_def event_statuses_def event_fills_def split: option.splits)
  then show "sts = concat (map event_statuses events)" "fills = concat (map (event_fills order_id) events)"
    "list_all (\<lambda>e. \<exists>s. event_status e = Inr s) events" by simp_all
qed

lemma collect_events_total:
  "list_all (\<lambda>e. \<exists>s. event_status e = Inr s) events \<Longrightarrow>
     collect_events order_id events =
       Inr (concat (map event_statuses events), concat (map (event_fills order_id) events))"
  by (induction events)
    (auto simp: Let_def event_statuses_def event_fills_def split: option.splits)

lemma collect_events_raise:
  "collect_events order_id events = Inl e \<Longrightarrow> collect_events order_id (events @ again) = Inl e"
proof (induction events)
  case (Cons ev events)
  then show ?case by (cases "event_status ev"; cases "collect_events order_id events") auto
qed simp

section \<open>Properties\<close>

text \<open>C23: Redelivery is harmless. Appending any redelivered events, that is events already seen, in any
  order and multiplicity, leaves the whole reconciliation result unchanged, exceptions included.\<close>

theorem reconcile_redelivery:
  assumes dup: "set again \<subseteq> set events"
  shows "reconcile order (events @ again) snapshot = reconcile order events snapshot"
proof (cases "collect_events (ro_order_id order) events")
  case (Inl e)
  then show ?thesis by (simp add: reconcile_def collect_events_raise)
next
  case (Inr p)
  obtain sts fills where p: "p = (sts, fills)" by (cases p)
  note c = collect_events_ok[OF Inr[unfolded p]]
  have all: "list_all (\<lambda>e. \<exists>s. event_status e = Inr s) (events @ again)"
    using c(3) dup by (auto simp: list_all_iff)
  let ?f = "event_fills (ro_order_id order)"
  have "collect_events (ro_order_id order) (events @ again) =
      Inr (sts @ concat (map event_statuses again), fills @ concat (map ?f again))"
    using collect_events_total[OF all, of "ro_order_id order"] c by simp
  moreover have "set (concat (map event_statuses again)) \<subseteq> set (base # sts)" for base
    using dup c(1) by auto
  then have "pick_status (base # sts @ concat (map event_statuses again)) = pick_status (base # sts)" for base
    using pick_status_redelivered[of _ "base # sts"] by simp
  moreover have "dedupe_fills (fills @ concat (map ?f again)) = dedupe_fills fills"
    using dup c(2) by (intro dedupe_fills_redelivered) auto
  ultimately show ?thesis by (simp add: reconcile_def Inr p)
qed

definition sample_rfill :: "string \<Rightarrow> decimal \<Rightarrow> decimal \<Rightarrow> reconciliation_fill" where
  "sample_rfill i q p = \<lparr>rf_fill_id = i, rf_order_id = ''o1'', rf_quantity = q, rf_price = p,
     rf_fee = 0, rf_source = ''queue''\<rparr>"

definition sample_rorder :: "string \<Rightarrow> reconciliation_order" where
  "sample_rorder st = \<lparr>ro_order_id = ''o1'', ro_symbol = ''BTC/USDT'', ro_mode = ''MOCK'',
     ro_requested_quantity = 10, ro_status = st, ro_filled_quantity = 0, ro_average_price = None\<rparr>"

definition sample_event :: "string \<Rightarrow> reconciliation_fill option \<Rightarrow> lifecycle_event" where
  "sample_event t f = \<lparr>le_event_type = t, le_status = None, le_fill = f\<rparr>"

theorem reconcile_redelivery_witness:
  "returns (\<lambda>r. rr_filled_quantity r = 4 \<and> rr_status r = PARTIALLY_FILLED)
    (reconcile (sample_rorder ''OPEN'')
       ([sample_event ''oms.order.partially_filled'' (Some (sample_rfill ''f1'' 4 100))]
        @ [sample_event ''oms.order.partially_filled'' (Some (sample_rfill ''f1'' 4 100))]) None)"
proof -
  let ?e = "[sample_event ''oms.order.partially_filled'' (Some (sample_rfill ''f1'' 4 100))]"
  have "returns (\<lambda>r. rr_filled_quantity r = 4 \<and> rr_status r = PARTIALLY_FILLED)
    (reconcile (sample_rorder ''OPEN'') ?e None)"
    by code_simp
  then show ?thesis using reconcile_redelivery[of ?e ?e "sample_rorder ''OPEN''" None] by (simp only: subset_refl)
qed







text \<open>C38: Reconciliation never moves an order backwards: as long as nothing reports FILLED, the rank of
  the reconciled status is at least the rank of the stored status, so a canceled, rejected or
  expired order stays so or becomes filled.\<close>

theorem reconcile_never_regresses:
  assumes r: "reconcile order events snapshot = Inr r"
    and base: "normalize_state (ro_status order) = Inr base" "base \<noteq> FILLED"
    and ev: "list_all (\<lambda>e. event_status e \<noteq> Inr (Some FILLED)) events"
    and sn: "(case snapshot of None \<Rightarrow> True | Some s \<Rightarrow> normalize_state (es_status s) \<noteq> Inr FILLED)"
  shows "STATUS_PRIORITY base \<le> STATUS_PRIORITY (rr_status r)"
proof -
  from r obtain sts qf used ms mf where
    ce: "collect_events (ro_order_id order) events = Inr (sts, qf)"
    and fb: "fallback_status (pick_status (base # sts)) (dedupe_fills qf) snapshot = Inr (used, ms, mf)"
    and R: "rr_status r = derive_status ms (max 0 (ro_requested_quantity order)) (total_filled order snapshot mf)"
    by (auto simp: reconcile_def result_simps Let_def base)
  have nf: "FILLED \<notin> set (base # sts)"
    using collect_events_ok(1)[OF ce] ev base(2)
    by (auto simp: event_statuses_def list_all_iff split: sum.splits option.splits)
  have m: "ms = pick_status (base # sts)
      \<or> (\<exists>st. st \<noteq> FILLED \<and> ms = pick_status [pick_status (base # sts), st])"
    using fb sn by (auto simp: fallback_status_def result_simps split: option.splits if_splits)
  have p: "pick_status (base # sts) \<noteq> FILLED" using pick_status_in[of "base # sts"] nf by auto
  have ge: "STATUS_PRIORITY base \<le> STATUS_PRIORITY (pick_status (base # sts))"
    by (intro pick_status_ge) simp
  have "STATUS_PRIORITY base \<le> STATUS_PRIORITY ms"
    using m ge pick_status_ge[of "pick_status (base # sts)" "[pick_status (base # sts), _]"]
    by (auto intro: le_trans)
  moreover have "ms \<noteq> FILLED" using m p pick_status_two by metis
  then have "STATUS_PRIORITY ms \<le> STATUS_PRIORITY (rr_status r)"
    by (cases ms) (auto simp: R derive_status_def)
  ultimately show ?thesis by simp
qed

theorem reconcile_never_regresses_witness:
  "returns (\<lambda>r. STATUS_PRIORITY CANCELED \<le> STATUS_PRIORITY (rr_status r))
    (reconcile (sample_rorder ''CANCELED'')
       [sample_event ''oms.order.partially_filled'' (Some (sample_rfill ''f1'' 4 100))] None)"
proof -
  let ?e = "[sample_event ''oms.order.partially_filled'' (Some (sample_rfill ''f1'' 4 100))]"
  have "returns (\<lambda>r. True) (reconcile (sample_rorder ''CANCELED'') ?e None)" by code_simp
  then obtain r where r: "reconcile (sample_rorder ''CANCELED'') ?e None = Inr r" by (rule returnsE)
  have h: "normalize_state (ro_status (sample_rorder ''CANCELED'')) = Inr CANCELED"
    "list_all (\<lambda>e. event_status e \<noteq> Inr (Some FILLED)) ?e"
    by code_simp+
  from reconcile_never_regresses[OF r h(1) _ h(2)] show ?thesis by (simp add: r returns_def)
qed

end
