(* ===== verification/Py_Values.thy ===== *)
theory Py_Values
  imports Py_Float Py_Datetime
begin

text \<open>
  Dynamically typed values: what a JSON-like message holds when the code handles it as
  \<open>dict[str, Any]\<close>. The theory has truth testing, \<open>str\<close> and \<open>repr\<close>, the conversions \<open>float\<close> and \<open>int\<close>
  with the exceptions they raise, \<open>isinstance\<close> tests, dictionary access, and the syntax that
  \<open>uuid.UUID\<close> accepts. Keys of message dictionaries are strings; a tuple is a list.
\<close>

section \<open>Values\<close>

datatype pyval =
    PNone
  | PBool bool
  | PInt int
  | PFloat pyfloat
  | PStr string
  | PList "pyval list"
  | PDict "(string \<times> pyval) list"

type_synonym pydict = "(string \<times> pyval) list"

fun is_str :: "pyval \<Rightarrow> bool" where
  "is_str (PStr _) = True"
| "is_str _ = False"

fun is_mapping :: "pyval \<Rightarrow> bool" where
  "is_mapping (PDict _) = True"
| "is_mapping _ = False"

fun as_dict :: "pyval \<Rightarrow> pydict" where
  "as_dict (PDict d) = d"
| "as_dict _ = []"

fun truthy :: "pyval \<Rightarrow> bool" where
  "truthy PNone = False"
| "truthy (PBool b) = b"
| "truthy (PInt n) = (n \<noteq> 0)"
| "truthy (PFloat f) = (f \<noteq> Fin 0)"
| "truthy (PStr s) = (s \<noteq> [])"
| "truthy (PList xs) = (xs \<noteq> [])"
| "truthy (PDict d) = (d \<noteq> [])"

text \<open>\<open>x or y\<close>\<close>

definition py_or :: "pyval \<Rightarrow> pyval \<Rightarrow> pyval" where
  "py_or x y = (if truthy x then x else y)"

text \<open>\<open>d.get(k, default)\<close> and \<open>d[k]\<close>\<close>

definition pget :: "pydict \<Rightarrow> string \<Rightarrow> pyval \<Rightarrow> pyval" where
  "pget d k dflt = dict_get_default d k dflt"

definition pindex :: "pydict \<Rightarrow> string \<Rightarrow> pyval result" where
  "pindex d k = (case dict_get d k of None \<Rightarrow> Inl (Exc KeyError k) | Some v \<Rightarrow> Inr v)"

fun type_name :: "pyval \<Rightarrow> string" where
  "type_name PNone = ''NoneType''"
| "type_name (PBool _) = ''bool''"
| "type_name (PInt _) = ''int''"
| "type_name (PFloat _) = ''float''"
| "type_name (PStr _) = ''str''"
| "type_name (PList _) = ''list''"
| "type_name (PDict _) = ''dict''"

section \<open>Text of a value\<close>

definition hex_char :: "nat \<Rightarrow> char" where
  "hex_char n = (if n < 10 then char_of (48 + n) else char_of (87 + n))"

definition repr_char :: "char \<Rightarrow> char \<Rightarrow> string" where
  "repr_char q c = (let n = (of_char c :: nat) in
     if c = q \<or> n = 92 then [char_of (92 :: nat), c]
     else if n = 9 then [char_of (92 :: nat), CHR ''t'']
     else if n = 10 then [char_of (92 :: nat), CHR ''n'']
     else if n = 13 then [char_of (92 :: nat), CHR ''r'']
     else if n < 32 \<or> n = 127 then
       [char_of (92 :: nat), CHR ''x'', hex_char (n div 16), hex_char (n mod 16)]
     else [c])"

definition str_repr :: "string \<Rightarrow> string" where
  "str_repr s = (let q = (if CHR 0x27 \<in> set s \<and> CHR 0x22 \<notin> set s then CHR 0x22 else CHR 0x27)
     in [q] @ concat (map (repr_char q) s) @ [q])"

lemma size_dict_value [termination_simp]: "(k, v) \<in> set d \<Longrightarrow> size v < Suc (size_list (size_prod (\<lambda>_. 0) size) d)"
  by (induction d) auto

fun py_repr :: "pyval \<Rightarrow> string" where
  "py_repr PNone = ''None''"
| "py_repr (PBool b) = (if b then ''True'' else ''False'')"
| "py_repr (PInt n) = int_str n"
| "py_repr (PFloat f) = float_str f"
| "py_repr (PStr s) = str_repr s"
| "py_repr (PList xs) = ''['' @ join_with '', '' (map py_repr xs) @ '']''"
| "py_repr (PDict d) = CHR 0x7B # join_with '', '' (map (\<lambda>(k, v). str_repr k @ '': '' @ py_repr v) d)
     @ [CHR 0x7D]"

text \<open>\<open>str(x)\<close>\<close>

definition py_str :: "pyval \<Rightarrow> string" where
  "py_str v = (case v of PStr s \<Rightarrow> s | _ \<Rightarrow> py_repr v)"

lemma py_str_PStr [simp]: "py_str (PStr s) = s"
  by (simp add: py_str_def)

section \<open>Numbers in text\<close>

text \<open>An underscore is accepted only between two digits.\<close>

fun underscores_ok :: "(char \<Rightarrow> bool) \<Rightarrow> bool \<Rightarrow> string \<Rightarrow> bool" where
  "underscores_ok dig prev [] = True"
| "underscores_ok dig prev (c # cs) =
     (if c = CHR ''_'' then prev \<and> cs \<noteq> [] \<and> dig (hd cs) \<and> underscores_ok dig False cs
      else underscores_ok dig (dig c) cs)"

definition drop_underscores :: "string \<Rightarrow> string" where
  "drop_underscores s = filter (\<lambda>c. c \<noteq> CHR ''_'') s"

fun split_sign :: "string \<Rightarrow> bool \<times> string" where
  "split_sign (c # cs) = (if c = CHR ''-'' then (True, cs) else if c = CHR ''+'' then (False, cs) else (False, c # cs))"
| "split_sign [] = (False, [])"

definition digits_opt :: "string \<Rightarrow> int option" where
  "digits_opt s = (if s \<noteq> [] \<and> list_all is_digit s then Some (digits_val s) else None)"

text \<open>An unsigned decimal literal: digits with an optional point and exponent.\<close>

definition decimal_literal :: "string \<Rightarrow> rat option" where
  "decimal_literal s =
     (let mant = takeWhile (\<lambda>c. c \<noteq> CHR ''e'' \<and> c \<noteq> CHR ''E'') s;
          rest = dropWhile (\<lambda>c. c \<noteq> CHR ''e'' \<and> c \<noteq> CHR ''E'') s;
          whole = takeWhile (\<lambda>c. c \<noteq> CHR ''.'') mant;
          frac = drop 1 (dropWhile (\<lambda>c. c \<noteq> CHR ''.'') mant);
          ds = whole @ frac;
          ex = (case rest of
              [] \<Rightarrow> Some 0
            | c # es \<Rightarrow> (case split_sign es of (neg, es') \<Rightarrow>
                map_option (\<lambda>n. if neg then - n else n) (digits_opt es')))
      in case (digits_opt ds, ex) of
           (Some m, Some e) \<Rightarrow> Some (of_int m * rpow 10 (e - int (length frac)))
         | _ \<Rightarrow> None)"

definition bad_float :: "string \<Rightarrow> 'a result" where
  "bad_float s = Inl (Exc ValueError (''could not convert string to float: '' @ str_repr s))"

definition float_of_str :: "string \<Rightarrow> pyfloat result" where
  "float_of_str s =
     (let t = py_strip s in
      if \<not> underscores_ok is_digit False t then bad_float s else
      case split_sign (drop_underscores t) of (neg, u) \<Rightarrow>
        if py_lower u \<in> {''inf'', ''infinity''} then Inr (if neg then NInf else PInf)
        else if py_lower u = ''nan'' then Inr NaN
        else (case decimal_literal u of
            None \<Rightarrow> bad_float s
          | Some x \<Rightarrow> Inr (fl (if neg then - x else x))))"

text \<open>\<open>float(x)\<close>\<close>

fun py_float :: "pyval \<Rightarrow> pyfloat result" where
  "py_float (PFloat f) = Inr f"
| "py_float (PInt n) = float_of_int n"
| "py_float (PBool b) = Inr (Fin (if b then 1 else 0))"
| "py_float (PStr s) = float_of_str s"
| "py_float v = Inl (Exc TypeError
     (''float() argument must be a string or a real number, not '' @ str_repr (type_name v)))"

section \<open>UUID syntax\<close>

definition is_hex :: "char \<Rightarrow> bool" where
  "is_hex c = (let n = (of_char c :: nat) in
     (48 \<le> n \<and> n \<le> 57) \<or> (97 \<le> n \<and> n \<le> 102) \<or> (65 \<le> n \<and> n \<le> 70))"

text \<open>Whether \<open>int(s, 16)\<close> of a 32-character string succeeds with a non-negative value.\<close>

definition hex_int_ok :: "string \<Rightarrow> bool" where
  "hex_int_ok s =
     (case split_sign (py_strip s) of (neg, t) \<Rightarrow>
        let u = (if starts_with ''0x'' (py_lower t) then drop 2 t else t);
            u' = (if u \<noteq> t \<and> starts_with ''_'' u then drop 1 u else u);
            ds = drop_underscores u'
        in underscores_ok is_hex False u' \<and> ds \<noteq> [] \<and> list_all is_hex ds
           \<and> (neg \<longrightarrow> list_all (\<lambda>c. c = CHR ''0'') ds))"

definition uuid_ok :: "string \<Rightarrow> bool" where
  "uuid_ok s =
     (let h = str_replace ''uuid:'' [] (str_replace ''urn:'' [] s);
          h' = str_replace ''-'' [] (strip_chars (\<lambda>c. c = CHR 0x7B \<or> c = CHR 0x7D) h)
      in length h' = 32 \<and> hex_int_ok h')"

lemma strip_no_space: "list_all (\<lambda>c. \<not> p c) s \<Longrightarrow> strip_chars p s = s"
proof -
  assume a: "list_all (\<lambda>c. \<not> p c) s"
  have "dropWhile p s = s" using a by (cases s) auto
  moreover have "dropWhile p (rev s) = rev s" using a by (cases "rev s") (auto simp: list_all_iff)
  ultimately show ?thesis by (simp add: strip_chars_def)
qed

section \<open>Plain UUID text is accepted\<close>

lemma is_hex_other:
  "is_hex c \<Longrightarrow> \<not> is_space c \<and> c \<noteq> CHR ''-'' \<and> c \<noteq> CHR ''+'' \<and> c \<noteq> CHR ''_'' \<and> c \<noteq> CHR ''x'' \<and> c \<noteq> CHR ''X''
     \<and> c \<noteq> CHR ''u'' \<and> c \<noteq> CHR 0x7B \<and> c \<noteq> CHR 0x7D"
  by (auto simp: is_hex_def is_space_def Let_def)

lemma replace_fuel_absent: "c \<notin> set s \<Longrightarrow> replace_fuel n (c # old) new s = s"
  by (induction n "c # old" new s rule: replace_fuel.induct) auto

lemma replace_fuel_filter: "length s \<le> n \<Longrightarrow> replace_fuel n [c] [] s = filter (\<lambda>d. d \<noteq> c) s"
  by (induction n "[c]" "[] :: string" s rule: replace_fuel.induct) auto

lemma underscores_ok_absent: "CHR ''_'' \<notin> set s \<Longrightarrow> underscores_ok dig b s"
  by (induction s arbitrary: b) auto

lemma hex_int_ok_hex:
  assumes "list_all is_hex h" "h \<noteq> []"
  shows "hex_int_ok h"
proof -
  have "CHR ''_'' \<notin> set h" using assms is_hex_other[of "CHR ''_''"] by (auto simp: list_all_iff)
  then have u: "underscores_ok is_hex False h" "drop_underscores h = h"
    by (simp_all add: underscores_ok_absent drop_underscores_def filter_id_conv) blast
  obtain c cs where h: "h = c # cs" using assms by (cases h) auto
  have s: "split_sign (py_strip h) = (False, h)"
    using assms is_hex_other[of c] strip_no_space[of is_space h] is_hex_other
    by (simp add: py_strip_def h list_all_iff)
  have "lower_char d \<noteq> CHR ''x''" if "is_hex d" for d
  proof
    assume "lower_char d = CHR ''x''"
    then have "(of_char (lower_char d) :: nat) = 120" by simp
    then show False using that by (auto simp: lower_char_def is_hex_def Let_def split: if_splits)
  qed
  then have "\<not> starts_with ''0x'' (py_lower h)"
    using assms unfolding h by (cases cs) (auto simp: py_lower_def eq_commute[of "CHR ''x''"])
  then show ?thesis using u assms by (simp add: hex_int_ok_def s)
qed

lemma uuid_ok_plain:
  assumes h: "list_all (\<lambda>c. is_hex c \<or> c = CHR ''-'') s"
    and n: "length (filter (\<lambda>c. c \<noteq> CHR ''-'') s) = 32"
  shows "uuid_ok s"
proof -
  have "CHR ''u'' \<notin> set s" using h is_hex_other[of "CHR ''u''"] by (auto simp: list_all_iff)
  then have r: "str_replace ''uuid:'' [] (str_replace ''urn:'' [] s) = s"
    by (simp add: str_replace_def replace_fuel_absent)
  have b: "strip_chars (\<lambda>c. c = CHR 0x7B \<or> c = CHR 0x7D) s = s"
    using h is_hex_other by (intro strip_no_space) (auto simp: list_all_iff)
  have d: "str_replace ''-'' [] s = filter (\<lambda>c. c \<noteq> CHR ''-'') s"
    by (simp add: str_replace_def replace_fuel_filter)
  have "list_all is_hex (filter (\<lambda>c. c \<noteq> CHR ''-'') s)" using h by (auto simp: list_all_iff)
  then have "hex_int_ok (filter (\<lambda>c. c \<noteq> CHR ''-'') s)" using n by (intro hex_int_ok_hex) auto
  then show ?thesis using n unfolding uuid_ok_def r Let_def b d by simp
qed

end
