(* ===== verification/Py_Clock.thy ===== *)
theory Py_Clock
  imports Py_Datetime
begin

text \<open>
  The calendar behind printed timestamps. The day number of the civil date computed for a day is
  that day, and the text printed for a UTC instant between the years 1 and 9999 parses back to
  the instant. Services that stamp their messages rely on it: what they print is accepted by the
  services that validate it.
\<close>

section \<open>Years of a 400-year era\<close>

definition year_start :: "int \<Rightarrow> int" where
  "year_start y = 365 * y + y div 4 - y div 100"

definition year_last :: "int \<Rightarrow> int" where
  "year_last y = year_start (y + 1) - 1 + (if y = 399 then 1 else 0)"

definition year_of_day :: "int \<Rightarrow> int" where
  "year_of_day doe = (doe - doe div 1460 + doe div 36524 - doe div 146096) div 365"

lemma year_table:
  "list_all (\<lambda>y. year_of_day (year_start y) = y \<and> year_of_day (year_last y) = y
     \<and> year_last y - year_start y = (if is_leap (y + 1) then 365 else 364)) [0..399]"
  by code_simp

lemma year_facts:
  assumes "0 \<le> y" "y \<le> 399"
  shows "year_of_day (year_start y) = y" "year_of_day (year_last y) = y"
    "year_last y - year_start y = (if is_leap (y + 1) then 365 else 364)"
  using year_table assms by (simp_all add: list_all_iff)

lemma year_of_day_step: "year_of_day n \<le> year_of_day (n + 1)"
proof -
  define b b' where "b = n div 36524" and "b' = (n + 1) div 36524"
  have a: "(n + 1) div 1460 \<le> n div 1460 + 1"
    using zdiv_mono1[of "n + 1" "n + 1460" 1460] by simp
  have "b \<le> b'" unfolding b_def b'_def by (intro zdiv_mono1) simp_all
  then have "b - b div 4 \<le> b' - b' div 4" by presburger
  moreover have "n div 146096 = b div 4" "(n + 1) div 146096 = b' div 4"
    unfolding b_def b'_def by (simp_all flip: zdiv_zmult2_eq)
  ultimately show ?thesis unfolding year_of_day_def b_def[symmetric] b'_def[symmetric]
    using a by (intro zdiv_mono1) simp_all
qed

lemma year_of_day_mono: "m \<le> n \<Longrightarrow> year_of_day m \<le> year_of_day n"
proof (induction n rule: int_ge_induct)
  case base
  then show ?case by simp
next
  case (step i)
  then show ?case using year_of_day_step[of i] by linarith
qed

lemma year_of_day_bounds:
  assumes "0 \<le> doe" "doe < 146097"
  defines "y \<equiv> year_of_day doe"
  shows "0 \<le> y" "y \<le> 399" "year_start y \<le> doe" "doe \<le> year_last y"
proof -
  have "year_of_day 0 = 0" "year_of_day 146096 = 399" by (simp_all add: year_of_day_def)
  then show y: "0 \<le> y" "y \<le> 399"
    using year_of_day_mono[of 0 doe] year_of_day_mono[of doe 146096] assms by auto
  show "year_start y \<le> doe"
  proof (rule ccontr)
    assume n: "\<not> year_start y \<le> doe"
    then have "y \<noteq> 0" using assms by (auto simp: year_start_def)
    with y have y1: "0 \<le> y - 1" "y - 1 \<le> 399" by auto
    have "doe \<le> year_last (y - 1)" using n by (auto simp: year_last_def)
    then show False using year_of_day_mono[of doe "year_last (y - 1)"] year_facts(2)[OF y1] by (simp add: y_def)
  qed
  show "doe \<le> year_last y"
  proof (rule ccontr)
    assume n: "\<not> doe \<le> year_last y"
    have "y \<noteq> 399"
    proof
      assume "y = 399"
      then show False using n assms by (simp add: year_last_def year_start_def)
    qed
    with y have y1: "0 \<le> y + 1" "y + 1 \<le> 399" by auto
    have "year_start (y + 1) \<le> doe" using n by (auto simp: year_last_def split: if_splits)
    then show False using year_of_day_mono[of "year_start (y + 1)" doe] year_facts(1)[OF y1] by (simp add: y_def)
  qed
qed

section \<open>Civil dates\<close>

lemma is_leap_era: "is_leap (y + era * 400) = is_leap y"
proof -
  have "(y + era * 400) mod 4 = y mod 4" "(y + era * 400) mod 100 = y mod 100"
    using mod_mult_self1[of y "era * 100" 4] mod_mult_self1[of y "era * 4" 100] by (simp_all add: mult.assoc)
  moreover have "(y + era * 400) mod 400 = y mod 400" by simp
  ultimately show ?thesis by (simp add: is_leap_def)
qed

lemma days_before_next_year:
  assumes "0 \<le> y" "y \<le> 399"
  shows "days_before_year (y + era * 400 + 1) = era * 146097 + year_start y"
proof -
  have "(y + era * 400) div 4 = y div 4 + era * 100" "(y + era * 400) div 100 = y div 100 + era * 4"
    using div_mult_self1[of 4 y "era * 100"] div_mult_self1[of 100 y "era * 4"] by (simp_all add: mult.assoc)
  moreover have "(y + era * 400) div 400 = era" using assms by simp
  ultimately show ?thesis
    unfolding days_before_year_def year_start_def Let_def add_diff_cancel_right' by (simp only: distrib_right)
qed

lemma div_pred: "1 < k \<Longrightarrow> (y :: int) div k = (y - 1) div k + (if y mod k = 0 then 1 else 0)"
proof -
  assume k: "1 < k"
  define q r where "q = (y - 1) div k" and "r = (y - 1) mod k"
  have y: "y = r + 1 + q * k" using div_mult_mod_eq[of "y - 1" k] by (simp add: q_def r_def)
  have r: "0 \<le> r" "r < k" using k by (simp_all add: r_def)
  show ?thesis
  proof (cases "r + 1 = k")
    case True
    then have "y = (q + 1) * k" using y by (simp add: distrib_right)
    then have "y div k = q + 1" "y mod k = 0" using k by simp_all
    then show ?thesis by (simp add: q_def)
  next
    case False
    then have "y div k = q" "y mod k = r + 1" unfolding y using k r by simp_all
    then show ?thesis using r by (simp add: q_def)
  qed
qed

lemma leap_count:
  fixes a a' b b' c c' y :: int
  assumes "a' = a + (if p then 1 else 0)" "b' = b + (if q then 1 else 0)" "c' = c + (if r then 1 else 0)"
    "r \<Longrightarrow> q" "q \<Longrightarrow> p"
  shows "y * 365 + a' - b' + c' = (y - 1) * 365 + a - b + c + 365 + (if p \<and> (\<not> q \<or> r) then 1 else 0)"
  using assms by (cases p; cases q; cases r) simp_all

lemma days_before_year_Suc: "days_before_year (y + 1) = days_before_year y + 365 + (if is_leap y then 1 else 0)"
proof -
  have m: "y mod 400 = 0 \<Longrightarrow> y mod 100 = 0" "y mod 100 = 0 \<Longrightarrow> y mod 4 = 0"
    using dvd_trans[of 100 400 y] dvd_trans[of 4 100 y] by (simp_all add: dvd_eq_mod_eq_0)
  have d: "y div 4 = (y - 1) div 4 + (if y mod 4 = 0 then 1 else 0)"
    "y div 100 = (y - 1) div 100 + (if y mod 100 = 0 then 1 else 0)"
    "y div 400 = (y - 1) div 400 + (if y mod 400 = 0 then 1 else 0)" by (rule div_pred; simp)+
  show ?thesis unfolding days_before_year_def is_leap_def Let_def add_diff_cancel_right'
    by (rule leap_count[OF d]) (erule m)+
qed

lemma upto_months: "[1..0] = []" "[1..1] = [1::int]" "[1..2] = [1::int,2]" "[1..3] = [1::int,2,3]"
  "[1..4] = [1::int,2,3,4]" "[1..5] = [1::int,2,3,4,5]" "[1..6] = [1::int,2,3,4,5,6]"
  "[1..7] = [1::int,2,3,4,5,6,7]" "[1..8] = [1::int,2,3,4,5,6,7,8]" "[1..9] = [1::int,2,3,4,5,6,7,8,9]"
  "[1..10] = [1::int,2,3,4,5,6,7,8,9,10]" "[1..11] = [1::int,2,3,4,5,6,7,8,9,10,11]"
  by (simp_all add: upto.simps)

lemma month_cases:
  fixes doy :: int
  assumes "0 \<le> doy" "doy \<le> 365"
  defines "mp \<equiv> (5 * doy + 2) div 153"
  shows "mp \<in> {0,1,2,3,4,5,6,7,8,9,10,11}"
proof -
  have "0 \<le> mp" "mp \<le> 11"
    using assms zdiv_mono1[of "5 * doy + 2" 1827 153] by (simp_all add: mp_def)
  then have "mp \<in> set [0..11]" by simp
  then show ?thesis by (simp only: upto_rec1 upto_rec2) (simp add: upto.simps)
qed

text \<open>Within a year that starts in March: month, day and number of days before them.\<close>

lemma month_of_day:
  assumes doy: "0 \<le> doy" "doy \<le> 365" and feb: "doy = 365 \<longrightarrow> is_leap (y + 1)"
  defines "mp \<equiv> (5 * doy + 2) div 153"
  defines "d \<equiv> doy - (153 * mp + 2) div 5 + 1"
  shows "mp < 10 \<Longrightarrow> 1 \<le> d \<and> d \<le> days_in_month y (mp + 3)
      \<and> days_before_month y (mp + 3) + d = doy + 60 + (if is_leap y then 1 else 0)"
    and "\<not> mp < 10 \<Longrightarrow> mp \<le> 11 \<and> 1 \<le> d \<and> d \<le> days_in_month (y + 1) (mp - 9)
      \<and> days_before_month (y + 1) (mp - 9) + d = doy - 305"
proof -
  have b: "153 * mp \<le> 5 * doy + 2" "5 * doy + 2 < 153 * mp + 153"
    using div_mult_mod_eq[of "5 * doy + 2" 153] pos_mod_sign[of 153 "5 * doy + 2"]
      pos_mod_bound[of 153 "5 * doy + 2"] unfolding mp_def by simp_all
  have c: "mp \<in> {0,1,2,3,4,5,6,7,8,9,10,11}" using month_cases[OF doy] by (simp add: mp_def)
  show "mp < 10 \<Longrightarrow> 1 \<le> d \<and> d \<le> days_in_month y (mp + 3)
      \<and> days_before_month y (mp + 3) + d = doy + 60 + (if is_leap y then 1 else 0)"
    using c b by (elim insertE emptyE)
      (simp_all add: d_def days_in_month_def days_before_month_def upto_months)
  show "\<not> mp < 10 \<Longrightarrow> mp \<le> 11 \<and> 1 \<le> d \<and> d \<le> days_in_month (y + 1) (mp - 9)
      \<and> days_before_month (y + 1) (mp - 9) + d = doy - 305"
  proof -
    assume "\<not> mp < 10"
    with c have "mp = 10 \<or> mp = 11" by auto
    then show ?thesis
    proof
      assume "mp = 10"
      with b show ?thesis by (simp add: d_def days_in_month_def days_before_month_def upto_months)
    next
      assume m: "mp = 11"
      have "doy = 365 \<or> doy \<le> 364" using doy by auto
      with m b feb show ?thesis by (auto simp: d_def days_in_month_def days_before_month_def upto_months)
    qed
  qed
qed

theorem civil_day_number:
  assumes n: "- 719162 \<le> n" "n \<le> 2932896" and c: "civil_from_days n = (y, m, d)"
  shows "valid_date y m d \<and> ymd2ord y m d = n + 719163"
proof -
  define z where "z = n + 719468"
  define era where "era = z div 146097"
  define doe where "doe = z - era * 146097"
  define yoe where "yoe = year_of_day doe"
  define doy where "doy = doe - year_start yoe"
  define mp where "mp = (5 * doy + 2) div 153"
  define dd where "dd = doy - (153 * mp + 2) div 5 + 1"
  have z: "306 \<le> z" "z \<le> 3652364" using n by (simp_all add: z_def)
  have era: "0 \<le> era" "era \<le> 24"
    using z zdiv_mono1[of z 3652364 146097] by (simp_all add: era_def)
  have doe: "0 \<le> doe" "doe < 146097"
    by (simp_all add: doe_def era_def minus_div_mult_eq_mod)
  note yb = year_of_day_bounds[OF doe, folded yoe_def]
  have doy: "0 \<le> doy" "doy \<le> 365" "doy = 365 \<Longrightarrow> is_leap (yoe + 1)"
    using yb year_facts(3)[OF yb(1,2)] by (auto simp: doy_def split: if_splits)
  have leap: "doy = 365 \<longrightarrow> is_leap (yoe + era * 400 + 1)"
    using doy(3) is_leap_era[of "yoe + 1" era] by (simp add: algebra_simps)
  note mo = month_of_day[OF doy(1,2) leap, folded mp_def, folded dd_def]
  have nz: "n + 719163 = era * 146097 + year_start yoe + doy - 305"
    by (simp add: doy_def doe_def z_def)
  have civ: "civil_from_days n = (if (if mp < 10 then mp + 3 else mp - 9) \<le> 2 then yoe + era * 400 + 1
      else yoe + era * 400, if mp < 10 then mp + 3 else mp - 9, dd)"
    unfolding civil_from_days_def Let_def z_def[symmetric] era_def[symmetric] doe_def[symmetric]
      year_of_day_def[symmetric] yoe_def[symmetric] year_start_def[symmetric] doy_def[symmetric]
      mp_def[symmetric] dd_def[symmetric] ..
  have mp: "0 \<le> mp" using doy by (simp add: mp_def)
  show ?thesis
  proof (cases "mp < 10")
    case True
    then have e: "y = yoe + era * 400" "m = mp + 3" "d = dd" using c civ mp by simp_all
    have "1 \<le> y"
    proof (rule ccontr)
      assume "\<not> 1 \<le> y"
      then have "era = 0" "yoe = 0" using e era yb by auto
      then have "306 \<le> doy" using z by (simp add: doy_def doe_def year_start_def)
      then show False using True unfolding mp_def by simp
    qed
    moreover have "y \<le> 9999" using e era yb by simp
    moreover have "ymd2ord y m d = n + 719163"
      using mo(1)[OF True] days_before_next_year[OF yb(1,2), of era] days_before_year_Suc[of "yoe + era * 400"] nz
      unfolding e ymd2ord_def by linarith
    ultimately show ?thesis using mo(1)[OF True] True mp unfolding e valid_date_def by simp
  next
    case False
    then have e: "y = yoe + era * 400 + 1" "m = mp - 9" "d = dd" using c civ mo(2) by auto
    have "y \<le> 9999"
    proof (rule ccontr)
      assume "\<not> y \<le> 9999"
      then have "era = 24" "yoe = 399" using e era yb by auto
      then have "doy \<le> 305" using z by (simp add: doy_def doe_def year_start_def)
      then show False using False unfolding mp_def by simp
    qed
    moreover have "ymd2ord y m d = n + 719163"
      using mo(2)[OF False] days_before_next_year[OF yb(1,2), of era] nz
      unfolding e ymd2ord_def by linarith
    ultimately show ?thesis using mo(2)[OF False] False e(1) era yb unfolding e valid_date_def by auto
  qed
qed

section \<open>Printing and parsing back\<close>

lemma length_int_digits: "0 \<le> i \<Longrightarrow> i < 10 ^ n \<Longrightarrow> 0 < n \<Longrightarrow> length (int_digits i) \<le> n"
proof (induction n arbitrary: i)
  case 0
  then show ?case by simp
next
  case (Suc n)
  show ?case
  proof (cases "i < 10")
    case True
    then show ?thesis by (simp add: int_digits.simps[of i])
  next
    case False
    have "n \<noteq> 0" using False Suc.prems by (intro notI) simp
    moreover have "i div 10 < 10 ^ n" using Suc.prems by (simp add: div_less_iff_less_mult mult.commute)
    ultimately have "length (int_digits (i div 10)) \<le> n" using Suc False by simp
    then show ?thesis using False by (simp add: int_digits.simps[of i])
  qed
qed

lemma digits_val_zeros: "digits_val (replicate k (CHR ''0'') @ s) = digits_val s"
  by (induction k) (simp_all add: digits_val_def digit_val_def)

lemma pad0_props:
  assumes "0 \<le> i" "i < 10 ^ n" "0 < n"
  shows "length (pad0 n i) = n" "list_all is_digit (pad0 n i)" "digits_val (pad0 n i) = i"
  using length_int_digits[OF assms] int_digits_props[OF assms(1)]
  by (auto simp: pad0_def Let_def digits_val_zeros list_all_iff is_digit_def)

lemma pad0_2: "0 \<le> i \<Longrightarrow> i < 100 \<Longrightarrow>
    \<exists>a b. pad0 2 i = [a, b] \<and> is_digit a \<and> is_digit b \<and> digits_val [a, b] = i"
  using pad0_props[of i 2] by (auto simp: numeral_2_eq_2 length_Suc_conv)

lemma pad0_4: "0 \<le> i \<Longrightarrow> i < 10000 \<Longrightarrow>
    \<exists>a b c d. pad0 4 i = [a, b, c, d] \<and> list_all is_digit [a, b, c, d] \<and> digits_val [a, b, c, d] = i"
  using pad0_props[of i 4] by (auto simp: eval_nat_numeral length_Suc_conv)

lemma pad0_6: "0 \<le> i \<Longrightarrow> i < 1000000 \<Longrightarrow> \<exists>a b c d e f. pad0 6 i = [a, b, c, d, e, f]
    \<and> list_all is_digit [a, b, c, d, e, f] \<and> digits_val [a, b, c, d, e, f] = i"
  using pad0_props[of i 6] by (auto simp: eval_nat_numeral length_Suc_conv)

lemma is_digit_other:
  "is_digit c \<Longrightarrow> c \<noteq> CHR ''Z'' \<and> c \<noteq> CHR ''W'' \<and> c \<noteq> CHR ''-'' \<and> c \<noteq> CHR ''+'' \<and> c \<noteq> CHR '':'' \<and> \<not> is_tz_char c"
  by (auto simp: is_digit_def is_tz_char_def)

lemma replace_fuel_last:
  "CHR ''Z'' \<notin> set u \<Longrightarrow> replace_fuel (Suc (length u)) ''Z'' new (u @ ''Z'') = u @ new"
  by (induction u) auto

lemma str_replace_last: "CHR ''Z'' \<notin> set u \<Longrightarrow> str_replace ''Z'' new (u @ ''Z'') = u @ new"
  using replace_fuel_last[of u new] by (simp add: str_replace_def)

definition frac_text :: "int \<Rightarrow> string" where
  "frac_text f = (if f = 0 then [] else CHR ''.'' # pad0 6 f)"

lemma parse_time_text:
  assumes "0 \<le> h" "h < 24" "0 \<le> m" "m < 60" "0 \<le> s" "s < 60" "0 \<le> f" "f < 1000000"
  shows "parse_iso_time (pad0 2 h @ '':'' @ pad0 2 m @ '':'' @ pad0 2 s @ frac_text f @ ''+00:00'') =
     Some (hms_us (h, m, s, f), Some 0)"
proof -
  obtain h1 h2 m1 m2 s1 s2 where
    p: "pad0 2 h = [h1, h2]" "is_digit h1" "is_digit h2" "digits_val [h1, h2] = h"
    "pad0 2 m = [m1, m2]" "is_digit m1" "is_digit m2" "digits_val [m1, m2] = m"
    "pad0 2 s = [s1, s2]" "is_digit s1" "is_digit s2" "digits_val [s1, s2] = s"
    using pad0_2[of h] pad0_2[of m] pad0_2[of s] assms by auto
  obtain a b c d e g where
    q: "pad0 6 f = [a, b, c, d, e, g]" "list_all is_digit [a, b, c, d, e, g]" "digits_val [a, b, c, d, e, g] = f"
    using pad0_6[of f] assms by auto
  have o: "parse_offset ''+00:00'' = Some (Some 0)" by code_simp
  have t: "\<not> is_tz_char (CHR '':'')" "\<not> is_tz_char (CHR ''.'')" "is_tz_char (CHR ''+'')"
    by (simp_all add: is_tz_char_def)
  show ?thesis
  proof (cases "f = 0")
    case True
    then show ?thesis using p assms
      by (simp add: parse_iso_time_def frac_text_def t is_digit_other parse_hms_def fixed_digits_def
          parse_fraction_def o)
  next
    case False
    then show ?thesis using p q assms
      by (simp add: parse_iso_time_def frac_text_def t is_digit_other parse_hms_def fixed_digits_def
          parse_fraction_def o)
  qed
qed

lemma parse_date_text:
  assumes "valid_date y m d"
  shows "parse_iso_date (pad0 4 y @ ''-'' @ pad0 2 m @ ''-'' @ pad0 2 d) = Some (ymd2ord y m d)"
proof -
  have r: "0 \<le> y" "y < 10000" "0 \<le> m" "m < 100" "0 \<le> d" "d < 100"
    using assms by (auto simp: valid_date_def days_in_month_def split: if_splits)
  obtain a b c e m1 m2 d1 d2 where
    "pad0 4 y = [a, b, c, e]" "list_all is_digit [a, b, c, e]" "digits_val [a, b, c, e] = y"
    "pad0 2 m = [m1, m2]" "is_digit m1" "is_digit m2" "digits_val [m1, m2] = m"
    "pad0 2 d = [d1, d2]" "is_digit d1" "is_digit d2" "digits_val [d1, d2] = d"
    using pad0_4[of y] pad0_2[of m] pad0_2[of d] r by auto
  then show ?thesis using assms
    by (simp add: parse_iso_date_def fixed_digits_def is_digit_other)
qed

lemma fromisoformat_split:
  assumes "length ds = 10" "ds ! 4 = CHR ''-''" "ds ! 5 \<noteq> CHR ''W''"
    and "parse_iso_date ds = Some ord" and "parse_iso_time ts = Some (us, off)"
  shows "fromisoformat (ds @ CHR ''T'' # ts) = Inr \<lparr>dt_wall = (ord - 719163) * 86400000000 + us, dt_offset = off\<rparr>"
proof -
  have "find_separator (ds @ CHR ''T'' # ts) = Some 10"
    using assms(1-3) by (simp add: find_separator_def nth_append)
  then show ?thesis using assms by (simp add: fromisoformat_def)
qed

theorem iso_utc_round_trip:
  assumes "in_range t"
  shows "fromisoformat (str_replace ''Z'' ''+00:00'' (iso_utc t)) = Inr \<lparr>dt_wall = t, dt_offset = Some 0\<rparr>"
proof -
  define secs f n s where "secs = t div 1000000" and "f = t mod 1000000"
    and "n = secs div 86400" and "s = secs mod 86400"
  obtain y m d where c: "civil_from_days n = (y, m, d)" by (cases "civil_from_days n") auto
  have t: "t = n * 86400000000 + s * 1000000 + f"
    using div_mult_mod_eq[of t 1000000, folded secs_def f_def]
      div_mult_mod_eq[of secs 86400, folded n_def s_def] by linarith
  have r: "0 \<le> s" "s < 86400" "0 \<le> f" "f < 1000000" by (simp_all add: s_def f_def)
  have n: "- 719162 \<le> n" "n \<le> 2932896"
    using assms t r by (auto simp: in_range_def MIN_INSTANT_def MAX_INSTANT_def)
  note cv = civil_day_number[OF n c]
  define h mi sc where "h = s div 3600" and "mi = s mod 3600 div 60" and "sc = s mod 60"
  have hm: "0 \<le> h" "h < 24" "0 \<le> mi" "mi < 60" "0 \<le> sc" "sc < 60"
    using r by (simp_all add: h_def mi_def sc_def div_less_iff_less_mult)
  have s: "s = (h * 60 + mi) * 60 + sc"
    using div_mult_mod_eq[of s 3600, folded h_def] div_mult_mod_eq[of "s mod 3600" 60, folded mi_def]
      mod_mod_cancel[of 60 3600 s] unfolding sc_def by simp
  define ds ts where "ds = pad0 4 y @ ''-'' @ pad0 2 m @ ''-'' @ pad0 2 d"
    and "ts = pad0 2 h @ '':'' @ pad0 2 mi @ '':'' @ pad0 2 sc @ frac_text f"
  have i: "iso_utc t = (ds @ CHR ''T'' # ts) @ ''Z''"
    by (simp add: iso_utc_def Let_def c ds_def ts_def frac_text_def
        flip: secs_def f_def n_def s_def h_def mi_def sc_def)
  have yb: "0 \<le> y" "y < 10000" "0 \<le> m" "m < 100" "0 \<le> d" "d < 100"
    using cv by (auto simp: valid_date_def days_in_month_def split: if_splits)
  note pads = pad0_props(1,2)[of y 4] pad0_props(1,2)[of m 2] pad0_props(1,2)[of d 2]
    pad0_props(1,2)[of h 2] pad0_props(1,2)[of mi 2] pad0_props(1,2)[of sc 2] pad0_props(1,2)[of f 6]
  have z: "CHR ''Z'' \<notin> set (ds @ CHR ''T'' # ts)"
    using pads yb hm r is_digit_other[of "CHR ''Z''"]
    by (auto simp: ds_def ts_def frac_text_def list_all_iff)
  have len: "length ds = 10" "ds ! 4 = CHR ''-''" "ds ! 5 \<noteq> CHR ''W''"
    using pads yb is_digit_other[of "pad0 2 m ! 0"] by (auto simp: ds_def nth_append list_all_length)
  have "parse_iso_time (ts @ ''+00:00'') = Some (hms_us (h, mi, sc, f), Some 0)"
    using parse_time_text[OF hm r(3,4)] by (simp add: ts_def)
  moreover have "parse_iso_date ds = Some (n + 719163)"
    using parse_date_text cv by (simp add: ds_def)
  ultimately have "fromisoformat (ds @ CHR ''T'' # (ts @ ''+00:00'')) = Inr \<lparr>dt_wall = t, dt_offset = Some 0\<rparr>"
    using fromisoformat_split[OF len] t s by (simp add: hms_us_def)
  then show ?thesis unfolding i str_replace_last[OF z] by simp
qed

end
