(* ===== verification/Shared_Envelope.thy ===== *)
theory Shared_Envelope
  imports Py_Values Py_Clock
begin

text \<open>
  The message contract every service shares (\<open>services/shared/contracts/message_envelope.py\<close>) and
  the W3C trace context (\<open>services/shared/runtime/trace_context.py\<close>). Random identifiers of the
  trace context are arguments. The lemmas show exactly which envelopes are accepted, which
  exceptions a refusal raises, and that a trace header built from well-formed identifiers parses
  back to them.
\<close>

section \<open>Envelope validation\<close>

definition REQUIRED_FIELDS :: "string list" where
  "REQUIRED_FIELDS = [''decision_id'', ''emitted_at'', ''event_type'', ''idempotency_key'',
     ''mode'', ''payload'', ''trace_id'']"

definition ALLOWED_MODES :: "string list" where
  "ALLOWED_MODES = [''MOCK'', ''REAL'']"

definition env_error :: "string \<Rightarrow> exc" where
  "env_error msg = Exc EnvelopeValidationError msg"

definition validate_uuid :: "pyval \<Rightarrow> string \<Rightarrow> unit result" where
  "validate_uuid v field_name = (case v of
      PStr s \<Rightarrow> if uuid_ok s then Inr () else Inl (env_error (field_name @ '' must be a valid UUID''))
    | _ \<Rightarrow> Inl (env_error (field_name @ '' must be a UUID string'')))"

definition validate_iso_datetime :: "pyval \<Rightarrow> string \<Rightarrow> unit result" where
  "validate_iso_datetime v field_name = (case v of
      PStr s \<Rightarrow> (case fromisoformat (str_replace ''Z'' ''+00:00'' s) of
          Inl e \<Rightarrow> Inl (env_error (field_name @ '' must be a valid ISO-8601 timestamp''))
        | Inr dt \<Rightarrow> if dt_offset dt = None
            then Inl (env_error (field_name @ '' must include timezone information'')) else Inr ())
    | _ \<Rightarrow> Inl (env_error (field_name @ '' must be an ISO-8601 string'')))"

text \<open>\<open>v in ALLOWED_MODES\<close>: an unhashable value raises.\<close>

definition in_modes :: "pyval \<Rightarrow> bool result" where
  "in_modes v = (case v of
      PStr s \<Rightarrow> Inr (s \<in> set ALLOWED_MODES)
    | PList _ \<Rightarrow> Inl (Exc TypeError (''unhashable type: '' @ str_repr ''list''))
    | PDict _ \<Rightarrow> Inl (Exc TypeError (''unhashable type: '' @ str_repr ''dict''))
    | _ \<Rightarrow> Inr False)"

definition non_empty_text :: "pyval \<Rightarrow> bool" where
  "non_empty_text v = (case v of PStr s \<Rightarrow> py_strip s \<noteq> [] | _ \<Rightarrow> False)"

definition validate_envelope :: "pyval \<Rightarrow> unit result" where
  "validate_envelope envelope = (case envelope of
      PDict d \<Rightarrow>
        (let missing = filter (\<lambda>f. dict_get d f = None) REQUIRED_FIELDS in
         if missing \<noteq> [] then
           Inl (env_error (''Missing required field(s): '' @ join_with '', '' missing))
         else
           rbind (rbind (pindex d ''trace_id'') (\<lambda>v. validate_uuid v ''trace_id'')) (\<lambda>_.
           rbind (rbind (pindex d ''decision_id'') (\<lambda>v. validate_uuid v ''decision_id'')) (\<lambda>_.
           rbind (rbind (pindex d ''mode'') in_modes) (\<lambda>known.
           if \<not> known then Inl (env_error ''mode must be one of: MOCK, REAL'') else
           rbind (pindex d ''idempotency_key'') (\<lambda>key.
           if \<not> non_empty_text key then
             Inl (env_error ''idempotency_key must be a non-empty string'') else
           rbind (pindex d ''event_type'') (\<lambda>event_type.
           if \<not> non_empty_text event_type then
             Inl (env_error ''event_type must be a non-empty string'') else
           rbind (rbind (pindex d ''emitted_at'') (\<lambda>v. validate_iso_datetime v ''emitted_at'')) (\<lambda>_.
           rbind (pindex d ''payload'') (\<lambda>payload.
           if \<not> is_mapping payload then Inl (env_error ''payload must be an object'')
           else Inr ()))))))))
    | _ \<Rightarrow> Inl (env_error ''Envelope must be a mapping''))"

section \<open>Trace context\<close>

record trace_context =
  tc_trace_id :: string
  tc_parent_span_id :: "string option"
  tc_span_id :: string
  tc_sampled :: bool

definition trace_flags :: "bool \<Rightarrow> string" where
  "trace_flags sampled = (if sampled then ''01'' else ''00'')"

definition traceparent :: "trace_context \<Rightarrow> string" where
  "traceparent tc = ''00-'' @ tc_trace_id tc @ ''-'' @ tc_span_id tc @ ''-'' @ trace_flags (tc_sampled tc)"

text \<open>\<open>x or generated\<close> for optional text\<close>

definition opt_or :: "string option \<Rightarrow> string \<Rightarrow> string" where
  "opt_or s g = (case s of None \<Rightarrow> g | Some t \<Rightarrow> if t = [] then g else t)"

definition build_traceparent ::
    "string \<Rightarrow> string \<Rightarrow> string option \<Rightarrow> string option \<Rightarrow> bool \<Rightarrow> string" where
  "build_traceparent new_trace_id new_span_id trace_id span_id sampled =
     ''00-'' @ opt_or trace_id new_trace_id @ ''-'' @ opt_or span_id new_span_id @ ''-''
     @ trace_flags sampled"

definition is_lower_hex :: "char \<Rightarrow> bool" where
  "is_lower_hex c = (let n = (of_char c :: nat) in (48 \<le> n \<and> n \<le> 57) \<or> (97 \<le> n \<and> n \<le> 102))"

definition hex_word :: "nat \<Rightarrow> string \<Rightarrow> bool" where
  "hex_word n s \<longleftrightarrow> length s = n \<and> list_all is_lower_hex s"

text \<open>The full match of \<open>00-([0-9a-f]{32})-([0-9a-f]{16})-([0-9a-f]{2})\<close>.\<close>

definition match_traceparent :: "string \<Rightarrow> (string \<times> string \<times> string) option" where
  "match_traceparent s =
     (let trace = take 32 (drop 3 s); parent = take 16 (drop 36 s); flags = drop 53 s in
      if length s = 55 \<and> take 3 s = ''00-'' \<and> hex_word 32 trace \<and> s ! 35 = CHR ''-''
         \<and> hex_word 16 parent \<and> s ! 52 = CHR ''-'' \<and> hex_word 2 flags
      then Some (trace, parent, flags) else None)"

definition parse_traceparent :: "string \<Rightarrow> string option \<Rightarrow> trace_context option" where
  "parse_traceparent new_span_id value = (case value of
      None \<Rightarrow> None
    | Some v \<Rightarrow> (case match_traceparent (py_lower (py_strip v)) of
        None \<Rightarrow> None
      | Some (trace_id, parent_span, flags) \<Rightarrow>
          Some \<lparr>tc_trace_id = trace_id, tc_parent_span_id = Some parent_span,
                tc_span_id = new_span_id, tc_sampled = (flags \<noteq> ''00'')\<rparr>))"

definition resolve_trace_context :: "string \<Rightarrow> string \<Rightarrow> string option \<Rightarrow> trace_context" where
  "resolve_trace_context new_trace_id new_span_id incoming =
     (case parse_traceparent new_span_id incoming of
        Some tc \<Rightarrow> tc
      | None \<Rightarrow> \<lparr>tc_trace_id = new_trace_id, tc_parent_span_id = None, tc_span_id = new_span_id,
                tc_sampled = True\<rparr>)"

section \<open>Which envelopes are accepted\<close>

definition uuid_field :: "pyval option \<Rightarrow> bool" where
  "uuid_field v = (case v of Some (PStr s) \<Rightarrow> uuid_ok s | _ \<Rightarrow> False)"

definition text_field :: "pyval option \<Rightarrow> bool" where
  "text_field v = (case v of Some t \<Rightarrow> non_empty_text t | None \<Rightarrow> False)"

definition timestamp_ok :: "string \<Rightarrow> bool" where
  "timestamp_ok s = returns (\<lambda>dt. dt_offset dt \<noteq> None) (fromisoformat (str_replace ''Z'' ''+00:00'' s))"

definition time_field :: "pyval option \<Rightarrow> bool" where
  "time_field v = (case v of Some (PStr s) \<Rightarrow> timestamp_ok s | _ \<Rightarrow> False)"

definition envelope_ok :: "pyval \<Rightarrow> bool" where
  "envelope_ok envelope = (case envelope of
      PDict d \<Rightarrow> uuid_field (dict_get d ''trace_id'') \<and> uuid_field (dict_get d ''decision_id'')
        \<and> dict_get d ''mode'' \<in> {Some (PStr ''MOCK''), Some (PStr ''REAL'')}
        \<and> text_field (dict_get d ''idempotency_key'') \<and> text_field (dict_get d ''event_type'')
        \<and> time_field (dict_get d ''emitted_at'')
        \<and> (case dict_get d ''payload'' of Some (PDict p) \<Rightarrow> True | _ \<Rightarrow> False)
    | _ \<Rightarrow> False)"

definition unhashable_mode :: "pyval \<Rightarrow> bool" where
  "unhashable_mode envelope = (case dict_get (as_dict envelope) ''mode'' of
      Some (PList _) \<Rightarrow> True | Some (PDict _) \<Rightarrow> True | _ \<Rightarrow> False)"

definition is_Inr :: "'a result \<Rightarrow> bool" where
  "is_Inr r = (case r of Inl _ \<Rightarrow> False | Inr _ \<Rightarrow> True)"

lemma validate_uuid_iff: "validate_uuid v f = Inr () \<longleftrightarrow> uuid_field (Some v)"
  by (cases v) (auto simp: uuid_field_def validate_uuid_def)

lemma validate_uuid_Inl: "validate_uuid v f = Inl e \<Longrightarrow> exc_class e = EnvelopeValidationError"
  by (cases v) (auto simp: validate_uuid_def env_error_def split: if_splits)

lemma validate_iso_iff: "validate_iso_datetime v f = Inr () \<longleftrightarrow> time_field (Some v)"
  by (cases v) (auto simp: time_field_def validate_iso_datetime_def timestamp_ok_def returns_def
      split: sum.splits)

lemma validate_iso_Inl: "validate_iso_datetime v f = Inl e \<Longrightarrow> exc_class e = EnvelopeValidationError"
  by (cases v) (auto simp: validate_iso_datetime_def env_error_def split: sum.splits if_splits)

lemma in_modes_bind:
  "rbind (in_modes v) (\<lambda>known. if \<not> known then Inl e else r) = Inr y
     \<longleftrightarrow> v \<in> {PStr ''MOCK'', PStr ''REAL''} \<and> r = Inr y"
  by (cases v) (auto simp: in_modes_def ALLOWED_MODES_def)

lemma no_missing: "filter (\<lambda>f. dict_get d f = None) REQUIRED_FIELDS = [] \<longleftrightarrow>
    (\<forall>f \<in> set REQUIRED_FIELDS. \<exists>v. dict_get d f = Some v)"
  by (auto simp: filter_empty_conv)

lemma validate_envelope_fields:
  assumes "\<forall>f \<in> set REQUIRED_FIELDS. \<exists>v. dict_get d f = Some v"
  obtains t di m k et ea pl where "dict_get d ''trace_id'' = Some t" "dict_get d ''decision_id'' = Some di"
    "dict_get d ''mode'' = Some m" "dict_get d ''idempotency_key'' = Some k"
    "dict_get d ''event_type'' = Some et" "dict_get d ''emitted_at'' = Some ea" "dict_get d ''payload'' = Some pl"
  using assms by (auto simp: REQUIRED_FIELDS_def)

lemma envelope_ok_fields:
  "envelope_ok (PDict d) \<Longrightarrow> \<forall>f \<in> set REQUIRED_FIELDS. \<exists>v. dict_get d f = Some v"
  by (auto simp: envelope_ok_def REQUIRED_FIELDS_def uuid_field_def text_field_def time_field_def
      split: option.splits)

lemma validate_envelope_complete:
  assumes f: "dict_get d ''trace_id'' = Some t" "dict_get d ''decision_id'' = Some di"
    "dict_get d ''mode'' = Some m" "dict_get d ''idempotency_key'' = Some k"
    "dict_get d ''event_type'' = Some et" "dict_get d ''emitted_at'' = Some ea" "dict_get d ''payload'' = Some pl"
  shows "validate_envelope (PDict d) =
     rbind (validate_uuid t ''trace_id'') (\<lambda>_.
     rbind (validate_uuid di ''decision_id'') (\<lambda>_.
     rbind (in_modes m) (\<lambda>known.
     if \<not> known then Inl (env_error ''mode must be one of: MOCK, REAL'') else
     if \<not> non_empty_text k then Inl (env_error ''idempotency_key must be a non-empty string'') else
     if \<not> non_empty_text et then Inl (env_error ''event_type must be a non-empty string'') else
     rbind (validate_iso_datetime ea ''emitted_at'') (\<lambda>_.
     if \<not> is_mapping pl then Inl (env_error ''payload must be an object'') else Inr ()))))"
proof -
  have p: "pindex d ''trace_id'' = Inr t" "pindex d ''decision_id'' = Inr di" "pindex d ''mode'' = Inr m"
    "pindex d ''idempotency_key'' = Inr k" "pindex d ''event_type'' = Inr et"
    "pindex d ''emitted_at'' = Inr ea" "pindex d ''payload'' = Inr pl"
    using f by (simp_all add: pindex_def)
  have "filter (\<lambda>f. dict_get d f = None) REQUIRED_FIELDS = []"
    using f by (simp add: REQUIRED_FIELDS_def)
  then show ?thesis unfolding validate_envelope_def pyval.case p rbind_simps by simp
qed

lemma mapping_cases: "(case v of PDict p \<Rightarrow> True | _ \<Rightarrow> False) = is_mapping v"
  by (cases v) auto

lemma validate_envelope_iff: "validate_envelope v = Inr () \<longleftrightarrow> envelope_ok v"
proof (cases v)
  case (PDict d)
  show ?thesis
  proof (cases "\<forall>f \<in> set REQUIRED_FIELDS. \<exists>v. dict_get d f = Some v")
    case True
    then obtain t di m k et ea pl where f: "dict_get d ''trace_id'' = Some t"
      "dict_get d ''decision_id'' = Some di" "dict_get d ''mode'' = Some m"
      "dict_get d ''idempotency_key'' = Some k" "dict_get d ''event_type'' = Some et"
      "dict_get d ''emitted_at'' = Some ea" "dict_get d ''payload'' = Some pl"
      by (rule validate_envelope_fields)
    show ?thesis
      unfolding PDict validate_envelope_complete[OF f]
      by (auto simp: envelope_ok_def f rbind_Inr_iff[where m = "validate_uuid _ _"]
          rbind_Inr_iff[where m = "validate_iso_datetime _ _"] in_modes_bind validate_uuid_iff
          validate_iso_iff text_field_def mapping_cases if_Inl_Inr)
  next
    case False
    then have "filter (\<lambda>f. dict_get d f = None) REQUIRED_FIELDS \<noteq> []" using no_missing by blast
    then show ?thesis using False envelope_ok_fields[of d] by (auto simp: PDict validate_envelope_def Let_def)
  qed
qed (auto simp: validate_envelope_def envelope_ok_def)

lemma validate_envelope_Inl:
  assumes "validate_envelope v = Inl e"
  shows "exc_class e = EnvelopeValidationError \<or> exc_class e = TypeError \<and> unhashable_mode v"
proof (cases v)
  case (PDict d)
  show ?thesis
  proof (cases "\<forall>f \<in> set REQUIRED_FIELDS. \<exists>v. dict_get d f = Some v")
    case True
    then obtain t di m k et ea pl where f: "dict_get d ''trace_id'' = Some t"
      "dict_get d ''decision_id'' = Some di" "dict_get d ''mode'' = Some m"
      "dict_get d ''idempotency_key'' = Some k" "dict_get d ''event_type'' = Some et"
      "dict_get d ''emitted_at'' = Some ea" "dict_get d ''payload'' = Some pl"
      by (rule validate_envelope_fields)
    have "in_modes m = Inl e \<Longrightarrow> exc_class e = TypeError \<and> unhashable_mode v"
      by (cases m) (auto simp: in_modes_def unhashable_mode_def PDict f)
    then show ?thesis
      using assms unfolding PDict validate_envelope_complete[OF f]
      by (auto simp: result_simps env_error_def dest: validate_uuid_Inl validate_iso_Inl split: if_splits)
  next
    case False
    then have "filter (\<lambda>f. dict_get d f = None) REQUIRED_FIELDS \<noteq> []" using no_missing by blast
    then show ?thesis using assms by (auto simp: PDict validate_envelope_def Let_def env_error_def)
  qed
qed (use assms in \<open>auto simp: validate_envelope_def env_error_def\<close>)

definition all_fields :: "pyval \<Rightarrow> bool" where
  "all_fields envelope = (\<forall>f \<in> set REQUIRED_FIELDS. dict_get (as_dict envelope) f \<noteq> None)"

lemma validate_envelope_class:
  assumes "validate_envelope v = Inl e"
  shows "exc_class e = (if is_mapping v \<and> all_fields v \<and> uuid_field (dict_get (as_dict v) ''trace_id'')
       \<and> uuid_field (dict_get (as_dict v) ''decision_id'') \<and> unhashable_mode v
     then TypeError else EnvelopeValidationError)"
proof (cases v)
  case (PDict d)
  show ?thesis
  proof (cases "\<forall>f \<in> set REQUIRED_FIELDS. \<exists>v. dict_get d f = Some v")
    case True
    then obtain t di m k et ea pl where f: "dict_get d ''trace_id'' = Some t"
      "dict_get d ''decision_id'' = Some di" "dict_get d ''mode'' = Some m"
      "dict_get d ''idempotency_key'' = Some k" "dict_get d ''event_type'' = Some et"
      "dict_get d ''emitted_at'' = Some ea" "dict_get d ''payload'' = Some pl"
      by (rule validate_envelope_fields)
    have all: "all_fields v" using True by (auto simp: all_fields_def PDict)
    have u: "uuid_field (Some x) \<longleftrightarrow> validate_uuid x n = Inr ()" for x n by (simp add: validate_uuid_iff)
    have modes: "unhashable_mode v \<longleftrightarrow> (\<exists>e. in_modes m = Inl e)" "in_modes m = Inl e \<Longrightarrow> exc_class e = TypeError"
      by (cases m; auto simp: in_modes_def unhashable_mode_def PDict f)+
    show ?thesis
      using assms all modes(2) unfolding PDict validate_envelope_complete[OF f]
      by (auto simp: result_simps env_error_def f modes(1)[unfolded PDict] u[of t "''trace_id''"]
          u[of di "''decision_id''"] dest: validate_uuid_Inl validate_iso_Inl split: if_splits)
  next
    case False
    then have "filter (\<lambda>f. dict_get d f = None) REQUIRED_FIELDS \<noteq> []" using no_missing by blast
    then show ?thesis using assms False
      by (auto simp: PDict validate_envelope_def Let_def env_error_def all_fields_def)
  qed
qed (use assms in \<open>auto simp: validate_envelope_def env_error_def\<close>)

lemma field_iffs:
  "uuid_field v \<longleftrightarrow> (\<exists>s. v = Some (PStr s) \<and> uuid_ok s)"
  "text_field v \<longleftrightarrow> (\<exists>s. v = Some (PStr s) \<and> py_strip s \<noteq> [])"
  "time_field v \<longleftrightarrow> (\<exists>s. v = Some (PStr s) \<and> timestamp_ok s)"
  "(case v of Some (PDict p) \<Rightarrow> True | _ \<Rightarrow> False) \<longleftrightarrow> (\<exists>p. v = Some (PDict p))"
  by (auto simp: uuid_field_def text_field_def time_field_def non_empty_text_def
      split: option.splits pyval.splits)

lemma envelope_okE:
  assumes "envelope_ok envelope"
  obtains d t di m k et ea pl where "envelope = PDict d" "dict_get d ''trace_id'' = Some (PStr t)" "uuid_ok t"
    "dict_get d ''decision_id'' = Some (PStr di)" "uuid_ok di" "dict_get d ''mode'' = Some (PStr m)"
    "m \<in> {''MOCK'', ''REAL''}" "dict_get d ''idempotency_key'' = Some (PStr k)" "py_strip k \<noteq> []"
    "dict_get d ''event_type'' = Some (PStr et)" "dict_get d ''emitted_at'' = Some (PStr ea)"
    "dict_get d ''payload'' = Some (PDict pl)"
proof -
  obtain d where d: "envelope = PDict d" using assms by (cases envelope) (auto simp: envelope_ok_def)
  with assms show ?thesis by (auto simp: envelope_ok_def field_iffs intro: that)
qed

lemma timestamp_ok_iso: "in_range t \<Longrightarrow> timestamp_ok (iso_utc t)"
  by (simp add: timestamp_ok_def iso_utc_round_trip returns_def)

section \<open>Trace headers\<close>

lemma lower_hex_plain: "is_lower_hex c \<Longrightarrow> \<not> is_space c \<and> lower_char c = c"
  by (auto simp: is_lower_hex_def is_space_def lower_char_def Let_def)

lemma normalized_plain:
  "list_all (\<lambda>c. \<not> is_space c \<and> lower_char c = c) s \<Longrightarrow> py_lower (py_strip s) = s"
  by (simp add: py_strip_def strip_no_space py_lower_def list_all_iff map_idI)

section \<open>Properties\<close>

text \<open>C39: An envelope is accepted exactly when both identifiers are UUIDs, the mode is MOCK or REAL, key
  and event type are non-blank text, the timestamp parses with a time zone and the payload is an
  object. Every refusal is an \<open>EnvelopeValidationError\<close>, except for a mapping that has every
  required field and two good identifiers but a list or object as mode: it raises \<open>TypeError\<close>.\<close>

theorem validate_envelope_accepts_iff:
  "case validate_envelope v of
     Inl e \<Rightarrow> \<not> envelope_ok v
       \<and> exc_class e =
           (if is_mapping v \<and> all_fields v \<and> uuid_field (dict_get (as_dict v) ''trace_id'')
               \<and> uuid_field (dict_get (as_dict v) ''decision_id'') \<and> unhashable_mode v
            then TypeError else EnvelopeValidationError)
   | Inr _ \<Rightarrow> envelope_ok v"
  using validate_envelope_iff[of v] validate_envelope_class[of v]
  by (cases "validate_envelope v") auto

text \<open>A trace header built from a 32-digit trace identifier and a 16-digit span identifier parses
  back: same trace, the span becomes the parent, and the sampling decision survives.\<close>

theorem traceparent_round_trip:
  assumes "hex_word 32 tid" and "hex_word 16 sid"
  shows "parse_traceparent new_span (Some (build_traceparent g h (Some tid) (Some sid) sampled)) =
    Some \<lparr>tc_trace_id = tid, tc_parent_span_id = Some sid, tc_span_id = new_span, tc_sampled = sampled\<rparr>"
proof -
  have len: "length tid = 32" "length sid = 16" using assms by (simp_all add: hex_word_def)
  then have ne: "tid \<noteq> []" "sid \<noteq> []" by auto
  let ?s = "''00-'' @ tid @ ''-'' @ sid @ ''-'' @ trace_flags sampled"
  have b: "build_traceparent g h (Some tid) (Some sid) sampled = ?s"
    using ne by (simp add: build_traceparent_def opt_or_def)
  have "list_all (\<lambda>c. \<not> is_space c \<and> lower_char c = c) tid"
    "list_all (\<lambda>c. \<not> is_space c \<and> lower_char c = c) sid"
    using assms lower_hex_plain by (auto simp: hex_word_def list_all_iff)
  then have "py_lower (py_strip ?s) = ?s"
    by (intro normalized_plain)
      (simp add: trace_flags_def is_space_def lower_char_def)
  moreover have "match_traceparent ?s = Some (tid, sid, trace_flags sampled)"
    using len assms
    by (simp add: match_traceparent_def nth_append trace_flags_def hex_word_def is_lower_hex_def)
  ultimately show ?thesis
    by (simp add: parse_traceparent_def b) (simp add: trace_flags_def)
qed

theorem traceparent_round_trip_witness:
  "parse_traceparent ''b7ad6b7169203331'' (Some (build_traceparent ''x'' ''y''
      (Some ''0af7651916cd43dd8448eb211c80319c'') (Some ''b7ad6b7169203331'') True)) =
    Some \<lparr>tc_trace_id = ''0af7651916cd43dd8448eb211c80319c'', tc_parent_span_id = Some ''b7ad6b7169203331'',
      tc_span_id = ''b7ad6b7169203331'', tc_sampled = True\<rparr>"
  by (rule traceparent_round_trip) code_simp+

end
