(* ===== verification/Py_Hash.thy ===== *)
theory Py_Hash
  imports Py_Values "HOL-Library.Word"
begin

unbundle bit_operations_syntax

text \<open>
  The digests the services derive identifiers from: \<open>hashlib.sha256(...).hexdigest()\<close> and
  \<open>uuid.uuid5\<close>, which is SHA-1 with the version and variant bits set. Text is encoded in UTF-8
  (characters of a \<open>string\<close> are the code points below 256). The lemmas show that the text of a
  name-based UUID is always accepted as a UUID.
\<close>

section \<open>Bytes and padding\<close>

definition utf8_char :: "char \<Rightarrow> nat list" where
  "utf8_char c = (let n = (of_char c :: nat) in if n < 128 then [n] else [192 + n div 64, 128 + n mod 64])"

definition utf8 :: "string \<Rightarrow> nat list" where
  "utf8 s = concat (map utf8_char s)"

text \<open>Big-endian bytes of a number.\<close>

fun be_bytes :: "nat \<Rightarrow> nat \<Rightarrow> nat list" where
  "be_bytes 0 n = []"
| "be_bytes (Suc k) n = be_bytes k (n div 256) @ [n mod 256]"

definition md_pad :: "nat list \<Rightarrow> nat list" where
  "md_pad bs = bs @ [128] @ replicate ((119 - length bs mod 64) mod 64) 0 @ be_bytes 8 (8 * length bs)"

fun be_words :: "nat list \<Rightarrow> 32 word list" where
  "be_words (a # b # c # d # bs) = of_nat (((a * 256 + b) * 256 + c) * 256 + d) # be_words bs"
| "be_words _ = []"

fun blocks_of :: "nat \<Rightarrow> 32 word list \<Rightarrow> 32 word list list" where
  "blocks_of 0 ws = []"
| "blocks_of (Suc n) ws = take 16 ws # blocks_of n (drop 16 ws)"

definition message_blocks :: "nat list \<Rightarrow> 32 word list list" where
  "message_blocks bs = (let ws = be_words (md_pad bs) in blocks_of (length ws div 16) ws)"

section \<open>SHA-1\<close>

type_synonym sha1_state = "32 word \<times> 32 word \<times> 32 word \<times> 32 word \<times> 32 word"

text \<open>The message schedule, newest word first.\<close>

fun sha1_schedule :: "nat \<Rightarrow> 32 word list \<Rightarrow> 32 word list" where
  "sha1_schedule 0 ws = ws"
| "sha1_schedule (Suc n) ws =
     sha1_schedule n (word_rotl 1 (ws ! 2 XOR ws ! 7 XOR ws ! 13 XOR ws ! 15) # ws)"

definition sha1_round :: "sha1_state \<Rightarrow> nat \<times> 32 word \<Rightarrow> sha1_state" where
  "sha1_round st iw = (case (st, iw) of ((a, b, c, d, e), (i, w)) \<Rightarrow>
     let (f, k) =
       (if i < 20 then ((b AND c) OR (NOT b AND d), 0x5a827999)
        else if i < 40 then (b XOR c XOR d, 0x6ed9eba1)
        else if i < 60 then ((b AND c) OR (b AND d) OR (c AND d), 0x8f1bbcdc)
        else (b XOR c XOR d, 0xca62c1d6))
     in (word_rotl 5 a + f + e + k + w, a, word_rotl 30 b, c, d))"

definition sha1_block :: "sha1_state \<Rightarrow> 32 word list \<Rightarrow> sha1_state" where
  "sha1_block st ws = (case (st, foldl sha1_round st (zip [0..<80] (rev (sha1_schedule 64 (rev ws)))))
     of ((a, b, c, d, e), (a', b', c', d', e')) \<Rightarrow> (a + a', b + b', c + c', d + d', e + e'))"

definition sha1 :: "nat list \<Rightarrow> nat list" where
  "sha1 bs = (case foldl sha1_block (0x67452301, 0xefcdab89, 0x98badcfe, 0x10325476, 0xc3d2e1f0)
       (message_blocks bs)
     of (a, b, c, d, e) \<Rightarrow> concat (map (\<lambda>w. be_bytes 4 (unat w)) [a, b, c, d, e]))"

section \<open>SHA-256\<close>

text \<open>The constants are the first 32 bits of the fractional parts of roots of primes: cube roots of the
  first 64 primes for the rounds, square roots of the first eight for the initial state.\<close>

fun root_bits :: "nat \<Rightarrow> nat \<Rightarrow> nat \<Rightarrow> nat \<Rightarrow> nat" where
  "root_bits k n 0 acc = acc"
| "root_bits k n (Suc b) acc = root_bits k n b (if (acc + 2 ^ b) ^ k \<le> n then acc + 2 ^ b else acc)"

definition root_fraction :: "nat \<Rightarrow> nat \<Rightarrow> 32 word" where
  "root_fraction k p = of_nat (root_bits k (p * 2 ^ (32 * k)) 40 0)"

definition small_primes :: "nat list" where
  "small_primes = filter (\<lambda>n. list_all (\<lambda>d. n mod d \<noteq> 0) [2..<n]) [2..<312]"

definition sha256_constants :: "32 word list" where
  "sha256_constants = map (root_fraction 3) small_primes"

definition sha256_init :: "32 word list" where
  "sha256_init = map (root_fraction 2) (take 8 small_primes)"

fun sha256_schedule :: "nat \<Rightarrow> 32 word list \<Rightarrow> 32 word list" where
  "sha256_schedule 0 ws = ws"
| "sha256_schedule (Suc n) ws =
     (let x = ws ! 14; y = ws ! 1;
          s0 = word_rotr 7 x XOR word_rotr 18 x XOR drop_bit 3 x;
          s1 = word_rotr 17 y XOR word_rotr 19 y XOR drop_bit 10 y
      in sha256_schedule n ((ws ! 15 + s0 + ws ! 6 + s1) # ws))"

definition sha256_round :: "32 word list \<Rightarrow> 32 word \<times> 32 word \<Rightarrow> 32 word list" where
  "sha256_round st kw = (case st of
      [a, b, c, d, e, f, g, h] \<Rightarrow>
        (let s1 = word_rotr 6 e XOR word_rotr 11 e XOR word_rotr 25 e;
             ch = (e AND f) XOR (NOT e AND g);
             t1 = h + s1 + ch + fst kw + snd kw;
             s0 = word_rotr 2 a XOR word_rotr 13 a XOR word_rotr 22 a;
             maj = (a AND b) XOR (a AND c) XOR (b AND c)
         in [t1 + s0 + maj, a, b, c, d + t1, e, f, g])
    | _ \<Rightarrow> st)"

definition sha256_block :: "32 word list \<Rightarrow> 32 word list \<Rightarrow> 32 word list" where
  "sha256_block st ws =
     map2 (+) st (foldl sha256_round st (zip sha256_constants (rev (sha256_schedule 48 (rev ws)))))"

definition sha256 :: "nat list \<Rightarrow> nat list" where
  "sha256 bs = concat (map (\<lambda>w. be_bytes 4 (unat w)) (foldl sha256_block sha256_init (message_blocks bs)))"

section \<open>Text of a digest\<close>

definition hex_byte :: "nat \<Rightarrow> string" where
  "hex_byte b = [hex_char (b div 16 mod 16), hex_char (b mod 16)]"

definition hexdigest :: "nat list \<Rightarrow> string" where
  "hexdigest bs = concat (map hex_byte bs)"

text \<open>\<open>sha256(s.encode("utf-8")).hexdigest()\<close>\<close>

definition sha256_hex :: "string \<Rightarrow> string" where
  "sha256_hex s = hexdigest (sha256 (utf8 s))"

definition NAMESPACE_URL :: "nat list" where
  "NAMESPACE_URL = [0x6b, 0xa7, 0xb8, 0x11, 0x9d, 0xad, 0x11, 0xd1, 0x80, 0xb4, 0x00, 0xc0, 0x4f, 0xd4, 0x30, 0xc8]"

definition dashed :: "string \<Rightarrow> string" where
  "dashed h = take 8 h @ ''-'' @ take 4 (drop 8 h) @ ''-'' @ take 4 (drop 12 h) @ ''-''
     @ take 4 (drop 16 h) @ ''-'' @ drop 20 h"

text \<open>\<open>str(uuid.uuid5(uuid.NAMESPACE_URL, name))\<close>\<close>

definition uuid5_url :: "string \<Rightarrow> string" where
  "uuid5_url name = (let h = take 16 (sha1 (NAMESPACE_URL @ utf8 name))
     in dashed (hexdigest (h[6 := 80 + h ! 6 mod 16, 8 := 128 + h ! 8 mod 64])))"

section \<open>Name-based UUIDs are UUIDs\<close>

lemma length_be_bytes [simp]: "length (be_bytes k n) = k"
  by (induction k arbitrary: n) auto

lemma length_sha1: "length (sha1 bs) = 20"
  by (simp add: sha1_def split: prod.splits)

lemma is_hex_hex_char: "n < 16 \<Longrightarrow> is_hex (hex_char n)"
  by (auto simp: is_hex_def hex_char_def of_char_of Let_def)

lemma hexdigest_hex: "list_all is_hex (hexdigest bs)"
  by (auto simp: hexdigest_def hex_byte_def list_all_iff is_hex_hex_char)

lemma length_hexdigest: "length (hexdigest bs) = 2 * length bs"
  by (induction bs) (auto simp: hexdigest_def hex_byte_def)

lemma uuid_ok_dashed:
  assumes h: "list_all is_hex h" and n: "length h = 32"
  shows "uuid_ok (dashed h)"
proof (rule uuid_ok_plain)
  have p: "is_hex c" if "c \<in> set (take i (drop j h)) \<or> c \<in> set (take i h) \<or> c \<in> set (drop j h)" for c i j
    using that h set_take_subset[of i] set_drop_subset[of j h] by (fastforce simp: list_all_iff)
  then show "list_all (\<lambda>c. is_hex c \<or> c = CHR ''-'') (dashed h)"
    by (auto simp: dashed_def list_all_iff)
  have f: "filter (\<lambda>c. c \<noteq> CHR ''-'') u = u" if "set u \<subseteq> set h" for u
    using that h is_hex_other by (intro filter_True) (auto simp: list_all_iff)
  have "set (take i (drop j h)) \<subseteq> set h" "set (take i h) \<subseteq> set h" "set (drop j h) \<subseteq> set h" for i j
    by (meson set_take_subset set_drop_subset subset_trans)+
  then show "length (filter (\<lambda>c. c \<noteq> CHR ''-'') (dashed h)) = 32"
    using n by (simp add: dashed_def f)
qed

theorem uuid5_url_ok: "uuid_ok (uuid5_url name)"
  unfolding uuid5_url_def Let_def
  by (rule uuid_ok_dashed) (simp_all add: hexdigest_hex length_hexdigest length_sha1)

end
