(* ===== verification/Oms_Risk_Observability.thy ===== *)
theory Oms_Risk_Observability
  imports Oms_Risk_Policy Shared_Envelope Py_Hash "HOL-Library.List_Lexorder" "HOL-Library.Char_ord"
begin

text \<open>
  The collector of risk telemetry (\<open>services/oms/risk_observability.py\<close>): counters, structured events
  and the notification envelopes for denied orders and control events. It is the sink that the
  policy engine records its decisions in. Clock readings and random identifiers are arguments. The
  lemmas show that recording never fails, that the counters add up over every sequence of calls,
  and that every envelope the collector holds or hands out is valid.
\<close>

section \<open>Data\<close>

definition CRITICAL_BLOCKERS :: "string list" where
  "CRITICAL_BLOCKERS = [''kill_switch'', ''circuit_breaker'']"

datatype risk_metadata =
    PolicyMeta (pmeta_order: proposed_order) (pmeta_blocked_by: "string list") (pmeta_position: xdec)
      (pmeta_notional: xdec) (pmeta_leverage: xdec) (pmeta_drawdown_pct: pyfloat) (pmeta_daily_loss_usd: pyfloat)
  | ControlMeta (cmeta_control: string) (cmeta_status: string) (cmeta_reason: string) (cmeta_actor: string)
      (cmeta_metadata: "(string, meta_value) dict")

record risk_event =
  re_event_type :: string
  re_severity :: string
  re_occurred_at :: string
  re_trace_id :: "string option"
  re_decision_id :: "string option"
  re_strategy_id :: "string option"
  re_metadata :: risk_metadata

record risk_collector =
  rc_evaluations_total :: int
  rc_allowed_total :: int
  rc_denied_total :: int
  rc_control_events_total :: int
  rc_blocked_by :: "(string, int) dict"
  rc_control_events :: "(string, int) dict"
  rc_events :: "risk_event list"
  rc_notifications :: "pydict list"

definition new_collector :: risk_collector where
  "new_collector = \<lparr>rc_evaluations_total = 0, rc_allowed_total = 0, rc_denied_total = 0,
     rc_control_events_total = 0, rc_blocked_by = [], rc_control_events = [], rc_events = [],
     rc_notifications = []\<rparr>"

section \<open>Severities\<close>

text \<open>Both remaining branches of the code give a warning.\<close>

definition policy_severity :: "string list \<Rightarrow> string" where
  "policy_severity blocked_by =
     (if blocked_by = [] then ''INFO''
      else if list_ex (\<lambda>name. name \<in> set CRITICAL_BLOCKERS) blocked_by then ''CRITICAL''
      else ''WARNING'')"

definition control_severity :: "string \<Rightarrow> string" where
  "control_severity event_type =
     (if event_type \<in> {''risk.kill_switch.enabled'', ''risk.circuit_breaker.tripped''} then ''CRITICAL''
      else if event_type \<in> {''risk.circuit_breaker.failure_recorded''} then ''WARNING''
      else ''INFO'')"

section \<open>Notification envelopes\<close>

definition risk_safe_uuid :: "string option \<Rightarrow> string \<Rightarrow> string" where
  "risk_safe_uuid v namespace = (case v of
      Some s \<Rightarrow> if s \<noteq> [] \<and> uuid_ok s then s
        else uuid5_url (namespace @ '':'' @ (if s \<noteq> [] then s else ''none''))
    | None \<Rightarrow> uuid5_url (namespace @ '':none''))"

definition risk_envelope :: "string \<Rightarrow> risk_event \<Rightarrow> string \<Rightarrow> pydict \<Rightarrow> pydict" where
  "risk_envelope fresh_uuid event mode payload =
     (let trace_id = risk_safe_uuid (re_trace_id event) ''risk-trace'';
          decision_id = risk_safe_uuid (re_decision_id event) ''risk-decision''
      in [(''trace_id'', PStr trace_id), (''decision_id'', PStr decision_id),
          (''mode'', PStr (if mode \<in> {''MOCK'', ''REAL''} then mode else ''REAL'')),
          (''idempotency_key'', PStr (''notify:risk:'' @ re_event_type event @ '':'' @ decision_id @ '':''
             @ re_occurred_at event @ '':'' @ fresh_uuid)),
          (''event_type'', PStr ''notify.risk.event''), (''severity'', PStr (re_severity event)),
          (''emitted_at'', PStr (re_occurred_at event)), (''payload'', PDict payload),
          (''service'', PStr ''risk_observability'')])"

definition build_notification_envelope :: "string \<Rightarrow> risk_event \<Rightarrow> string \<Rightarrow> pydict \<Rightarrow> pydict result" where
  "build_notification_envelope fresh_uuid event mode payload =
     (let envelope = risk_envelope fresh_uuid event mode payload
      in rbind (validate_envelope (PDict envelope)) (\<lambda>_. Inr envelope))"

section \<open>Recording\<close>

definition count_decision :: "policy_decision \<Rightarrow> risk_collector \<Rightarrow> risk_collector" where
  "count_decision decision rc =
     (let rc1 = rc\<lparr>rc_evaluations_total := rc_evaluations_total rc + 1\<rparr> in
      if pd_allowed decision then rc1\<lparr>rc_allowed_total := rc_allowed_total rc1 + 1\<rparr>
      else rc1\<lparr>rc_denied_total := rc_denied_total rc1 + 1,
               rc_blocked_by := foldl (\<lambda>d reason. dict_incr reason d) (rc_blocked_by rc1) (pd_blocked_by decision)\<rparr>)"

definition decision_event ::
    "int \<Rightarrow> string option \<Rightarrow> string option \<Rightarrow> string option \<Rightarrow> proposed_order \<Rightarrow> policy_decision \<Rightarrow> risk_event" where
  "decision_event now trace_id decision_id strategy_id order decision =
     \<lparr>re_event_type = (if pd_allowed decision then ''risk.policy.allowed'' else ''risk.policy.denied''),
      re_severity = policy_severity (pd_blocked_by decision), re_occurred_at = iso_utc now,
      re_trace_id = trace_id, re_decision_id = decision_id, re_strategy_id = strategy_id,
      re_metadata = PolicyMeta order (pd_blocked_by decision)
        (cre_projected_position_qty (pd_core decision)) (cre_projected_symbol_notional_usd (pd_core decision))
        (cre_projected_leverage (pd_core decision)) (dde_drawdown_pct (pd_guards decision))
        (dde_daily_loss_usd (pd_guards decision))\<rparr>"

definition risk_opt_str :: "string option \<Rightarrow> pyval" where
  "risk_opt_str s = (case s of None \<Rightarrow> PNone | Some t \<Rightarrow> PStr t)"

definition denial_payload :: "string option \<Rightarrow> proposed_order \<Rightarrow> policy_decision \<Rightarrow> risk_event \<Rightarrow> pydict" where
  "denial_payload strategy_id order decision event =
     [(''source_event_type'', PStr (re_event_type event)),
      (''blocked_by'', PList (map PStr (pd_blocked_by decision))), (''strategy_id'', risk_opt_str strategy_id),
      (''symbol'', PStr (po_symbol order)), (''severity'', PStr (re_severity event))]"

definition record_policy_decision :: "int \<Rightarrow> string \<Rightarrow> risk_collector decision_recorder" where
  "record_policy_decision now fresh_uuid trace_id decision_id strategy_id order decision rc =
     (let event = decision_event now trace_id decision_id strategy_id order decision;
          rc0 = count_decision decision rc;
          rc1 = rc0\<lparr>rc_events := rc_events rc0 @ [event]\<rparr>
      in if pd_allowed decision then (Inr (), rc1)
         else (case build_notification_envelope fresh_uuid event (po_mode order)
                   (denial_payload strategy_id order decision event) of
             Inl e \<Rightarrow> (Inl e, rc1)
           | Inr envelope \<Rightarrow> (Inr (), rc1\<lparr>rc_notifications := rc_notifications rc1 @ [envelope]\<rparr>)))"

definition control_risk_event :: "control_event \<Rightarrow> risk_event" where
  "control_risk_event event =
     \<lparr>re_event_type = ''risk.control.'' @ ce_event_type event, re_severity = control_severity (ce_event_type event),
      re_occurred_at = ce_occurred_at event, re_trace_id = None, re_decision_id = None, re_strategy_id = None,
      re_metadata = ControlMeta (ce_control event) (ce_status event) (ce_reason event) (ce_actor event)
        (ce_metadata event)\<rparr>"

definition control_payload :: "control_event \<Rightarrow> pydict" where
  "control_payload event =
     [(''source_event_type'', PStr (ce_event_type event)), (''control'', PStr (ce_control event)),
      (''status'', PStr (ce_status event)), (''reason'', PStr (ce_reason event)),
      (''actor'', PStr (ce_actor event)), (''severity'', PStr (control_severity (ce_event_type event)))]"

definition count_control :: "control_event \<Rightarrow> risk_collector \<Rightarrow> risk_collector" where
  "count_control event rc =
     rc\<lparr>rc_control_events_total := rc_control_events_total rc + 1,
        rc_control_events := dict_incr (ce_event_type event) (rc_control_events rc),
        rc_events := rc_events rc @ [control_risk_event event]\<rparr>"

text \<open>Each event comes with the random identifier of its notification.\<close>

fun record_control_events :: "(control_event \<times> string) list \<Rightarrow> risk_collector \<Rightarrow> unit result \<times> risk_collector" where
  "record_control_events [] rc = (Inr (), rc)"
| "record_control_events ((event, fresh_uuid) # events) rc =
     (let rc1 = count_control event rc in
      case build_notification_envelope fresh_uuid (last (rc_events rc1)) ''REAL'' (control_payload event) of
        Inl e \<Rightarrow> (Inl e, rc1)
      | Inr envelope \<Rightarrow>
          record_control_events events (rc1\<lparr>rc_notifications := rc_notifications rc1 @ [envelope]\<rparr>))"

section \<open>Reading and draining\<close>

record risk_report =
  rr_evaluations_total :: int
  rr_allowed_total :: int
  rr_denied_total :: int
  rr_control_events_total :: int
  rr_blocked_by :: "(string, int) dict"
  rr_control_events :: "(string, int) dict"
  rr_recent_events :: "risk_event list"

definition risk_collector_snapshot :: "risk_collector \<Rightarrow> risk_report" where
  "risk_collector_snapshot rc =
     \<lparr>rr_evaluations_total = rc_evaluations_total rc, rr_allowed_total = rc_allowed_total rc,
      rr_denied_total = rc_denied_total rc, rr_control_events_total = rc_control_events_total rc,
      rr_blocked_by = sort_key fst (rc_blocked_by rc), rr_control_events = sort_key fst (rc_control_events rc),
      rr_recent_events = last_n 100 (rc_events rc)\<rparr>"

definition drain_risk_events :: "risk_collector \<Rightarrow> risk_event list \<times> risk_collector" where
  "drain_risk_events rc = (rc_events rc, rc\<lparr>rc_events := []\<rparr>)"

definition stamp_mode :: "string \<Rightarrow> pydict \<Rightarrow> pydict result" where
  "stamp_mode mode envelope =
     (let current = dict_set ''mode'' (PStr mode) envelope
      in rbind (validate_envelope (PDict current)) (\<lambda>_. Inr current))"

definition drain_notification_events :: "string \<Rightarrow> risk_collector \<Rightarrow> pydict list result \<times> risk_collector" where
  "drain_notification_events mode rc =
     (let normalized_mode = norm_upper mode in
      if normalized_mode \<notin> {''MOCK'', ''REAL''} then (Inl (Exc ValueError ''mode must be MOCK or REAL''), rc)
      else (case rmap (stamp_mode normalized_mode) (rc_notifications rc) of
          Inl e \<Rightarrow> (Inl e, rc)
        | Inr drained \<Rightarrow> (Inr drained, rc\<lparr>rc_notifications := []\<rparr>)))"

section \<open>Envelopes are valid\<close>

lemma risk_safe_uuid_ok: "uuid_ok (risk_safe_uuid v ns)"
  by (auto simp: risk_safe_uuid_def uuid5_url_ok split: option.splits)

lemma risk_envelope_ok:
  assumes "timestamp_ok (re_occurred_at event)"
  shows "envelope_ok (PDict (risk_envelope fresh event mode payload))"
proof -
  have "py_strip (CHR ''n'' # s) \<noteq> []" for s by (simp add: py_strip_def strip_chars_empty is_space_def)
  then show ?thesis using assms
    by (simp add: risk_envelope_def Let_def envelope_ok_def uuid_field_def text_field_def time_field_def
        non_empty_text_def risk_safe_uuid_ok)
qed

lemma build_notification_envelope_returns:
  "timestamp_ok (re_occurred_at event) \<Longrightarrow>
     build_notification_envelope fresh event mode payload = Inr (risk_envelope fresh event mode payload)"
  using risk_envelope_ok[of event fresh mode payload]
  by (simp add: build_notification_envelope_def Let_def validate_envelope_iff[THEN iffD2])

lemma envelope_ok_mode:
  "envelope_ok (PDict d) \<Longrightarrow> mode \<in> {''MOCK'', ''REAL''} \<Longrightarrow> envelope_ok (PDict (dict_set ''mode'' (PStr mode) d))"
  by (auto simp: envelope_ok_def)

lemma stamp_mode_returns:
  "envelope_ok (PDict d) \<Longrightarrow> mode \<in> {''MOCK'', ''REAL''} \<Longrightarrow> stamp_mode mode d = Inr (dict_set ''mode'' (PStr mode) d)"
  by (simp add: stamp_mode_def Let_def validate_envelope_iff[THEN iffD2] envelope_ok_mode)

section \<open>Effect of the operations\<close>

definition denial_envelope ::
    "int \<Rightarrow> string \<Rightarrow> string option \<Rightarrow> string option \<Rightarrow> string option \<Rightarrow> proposed_order \<Rightarrow> policy_decision \<Rightarrow> pydict" where
  "denial_envelope now fresh t d st order decision =
     (let event = decision_event now t d st order decision
      in risk_envelope fresh event (po_mode order) (denial_payload st order decision event))"

lemma record_policy_decision_value:
  assumes "in_range now"
  shows "record_policy_decision now fresh t d st order decision rc =
    (Inr (), (count_decision decision rc)
       \<lparr>rc_events := rc_events rc @ [decision_event now t d st order decision],
        rc_notifications := rc_notifications rc
          @ (if pd_allowed decision then [] else [denial_envelope now fresh t d st order decision])\<rparr>)"
proof -
  have "timestamp_ok (re_occurred_at (decision_event now t d st order decision))"
    using timestamp_ok_iso[OF assms] by (simp add: decision_event_def)
  note build = build_notification_envelope_returns[OF this]
  have "rc_events (count_decision decision rc) = rc_events rc"
    "rc_notifications (count_decision decision rc) = rc_notifications rc"
    by (simp_all add: count_decision_def Let_def)
  then show ?thesis by (simp add: record_policy_decision_def Let_def build denial_envelope_def)
qed

definition control_envelope :: "control_event \<times> string \<Rightarrow> pydict" where
  "control_envelope p = risk_envelope (snd p) (control_risk_event (fst p)) ''REAL'' (control_payload (fst p))"

text \<open>The collector after a loop over control events\<close>

definition count_controls :: "(control_event \<times> string) list \<Rightarrow> risk_collector \<Rightarrow> risk_collector" where
  "count_controls events rc = foldl (\<lambda>rc p. (count_control (fst p) rc)
     \<lparr>rc_notifications := rc_notifications rc @ [control_envelope p]\<rparr>) rc events"

definition control_times_ok :: "(control_event \<times> string) list \<Rightarrow> bool" where
  "control_times_ok events \<longleftrightarrow> (\<forall>p \<in> set events. timestamp_ok (ce_occurred_at (fst p)))"

lemma record_control_events_value:
  "control_times_ok events \<Longrightarrow> record_control_events events rc = (Inr (), count_controls events rc)"
proof (induction events rc rule: record_control_events.induct)
  case (2 event fresh events rc)
  have "timestamp_ok (re_occurred_at (control_risk_event event))"
    using 2(2) by (simp add: control_times_ok_def control_risk_event_def)
  note build = build_notification_envelope_returns[OF this]
  have "control_times_ok events" using 2(2) by (simp add: control_times_ok_def)
  then show ?case
    using 2(1) build by (simp add: Let_def count_control_def count_controls_def control_envelope_def)
qed (simp add: count_controls_def)

section \<open>Sequences of calls\<close>

datatype collector_call =
    RecordDecision int string "string option" "string option" "string option" proposed_order policy_decision
  | RecordControls "(control_event \<times> string) list"
  | DrainRiskEvents
  | DrainNotifications string

text \<open>One call on a collector; the first component gathers the envelopes handed out.\<close>

fun collector_exec :: "pydict list \<times> risk_collector \<Rightarrow> collector_call \<Rightarrow> pydict list \<times> risk_collector" where
  "collector_exec (out, rc) (RecordDecision now fresh t d st order decision) =
     (out, snd (record_policy_decision now fresh t d st order decision rc))"
| "collector_exec (out, rc) (RecordControls events) = (out, snd (record_control_events events rc))"
| "collector_exec (out, rc) DrainRiskEvents = (out, snd (drain_risk_events rc))"
| "collector_exec (out, rc) (DrainNotifications mode) = (case drain_notification_events mode rc of
      (Inl e, rc') \<Rightarrow> (out, rc') | (Inr es, rc') \<Rightarrow> (out @ es, rc'))"

fun call_times_ok :: "collector_call \<Rightarrow> bool" where
  "call_times_ok (RecordDecision now fresh t d st order decision) = in_range now"
| "call_times_ok (RecordControls events) = control_times_ok events"
| "call_times_ok _ = True"

text \<open>Decisions recorded by a sequence of calls, and those that deny.\<close>

fun decisions :: "collector_call list \<Rightarrow> policy_decision list" where
  "decisions [] = []"
| "decisions (RecordDecision now fresh t d st order decision # cs) = decision # decisions cs"
| "decisions (_ # cs) = decisions cs"

fun controls_of :: "collector_call list \<Rightarrow> control_event list" where
  "controls_of [] = []"
| "controls_of (RecordControls events # cs) = map fst events @ controls_of cs"
| "controls_of (_ # cs) = controls_of cs"


lemma dict_incr_fold:
  "dict_get_default (foldl (\<lambda>d r. dict_incr r d) d rs) k 0 = dict_get_default d k 0 + int (count_list rs k)"
  by (induction rs arbitrary: d) (auto simp: dict_get_incr)

text \<open>What the counters and the envelopes say about the decisions \<open>ds\<close> and control events \<open>cs\<close> so far.\<close>

definition accounts :: "policy_decision list \<Rightarrow> control_event list \<Rightarrow> pydict list \<times> risk_collector \<Rightarrow> bool" where
  "accounts ds cs s \<longleftrightarrow> (case s of (out, rc) \<Rightarrow>
     rc_evaluations_total rc = int (length ds)
     \<and> rc_allowed_total rc = int (length (filter pd_allowed ds))
     \<and> rc_denied_total rc = int (length (filter (\<lambda>d. \<not> pd_allowed d) ds))
     \<and> rc_control_events_total rc = int (length cs)
     \<and> (\<forall>name. dict_get_default (rc_blocked_by rc) name 0 =
          int (count_list (concat (map pd_blocked_by (filter (\<lambda>d. \<not> pd_allowed d) ds))) name))
     \<and> (\<forall>ty. dict_get_default (rc_control_events rc) ty 0 = int (count_list (map ce_event_type cs) ty))
     \<and> int (length out) + int (length (rc_notifications rc)) = rc_denied_total rc + rc_control_events_total rc
     \<and> (\<forall>env \<in> set out \<union> set (rc_notifications rc). envelope_ok (PDict env)))"

lemma accounts_decision:
  assumes "accounts ds cs (out, rc)" "in_range now"
  shows "accounts (ds @ [decision]) cs (out, snd (record_policy_decision now fresh t d st order decision rc))"
proof -
  have "envelope_ok (PDict (denial_envelope now fresh t d st order decision))"
    unfolding denial_envelope_def Let_def
    by (rule risk_envelope_ok) (simp add: decision_event_def timestamp_ok_iso[OF assms(2)])
  then show ?thesis
    using assms(1) unfolding record_policy_decision_value[OF assms(2)]
    by (auto simp: accounts_def count_decision_def Let_def dict_incr_fold)
qed

lemma accounts_controls:
  assumes "accounts ds cs (out, rc)" "control_times_ok events"
  shows "accounts ds (cs @ map fst events) (out, count_controls events rc)"
  using assms
proof (induction events arbitrary: cs rc)
  case (Cons p events)
  have "envelope_ok (PDict (control_envelope p))"
    unfolding control_envelope_def
    by (rule risk_envelope_ok) (use Cons.prems(2) in \<open>simp add: control_times_ok_def control_risk_event_def\<close>)
  then have "accounts ds (cs @ [fst p]) (out, (count_control (fst p) rc)\<lparr>rc_notifications := rc_notifications rc @ [control_envelope p]\<rparr>)"
    using Cons.prems(1) by (auto simp: accounts_def count_control_def dict_get_incr)
  from Cons.IH[OF this] Cons.prems(2) show ?case by (simp add: count_controls_def control_times_ok_def)
qed (simp add: count_controls_def)

lemma drain_value:
  assumes "\<forall>env \<in> set (rc_notifications rc). envelope_ok (PDict env)" "norm_upper mode \<in> {''MOCK'', ''REAL''}"
  shows "drain_notification_events mode rc =
    (Inr (map (dict_set ''mode'' (PStr (norm_upper mode))) (rc_notifications rc)), rc\<lparr>rc_notifications := []\<rparr>)"
proof -
  have "rmap (stamp_mode (norm_upper mode)) (rc_notifications rc) =
      Inr (map (dict_set ''mode'' (PStr (norm_upper mode))) (rc_notifications rc))"
    using assms by (intro rmap_total stamp_mode_returns) auto
  then show ?thesis using assms(2) unfolding drain_notification_events_def Let_def by auto
qed

lemma accounts_drain:
  assumes "accounts ds cs (out, rc)"
  shows "accounts ds cs (collector_exec (out, rc) (DrainNotifications mode))"
proof (cases "norm_upper mode \<in> {''MOCK'', ''REAL''}")
  case True
  have "\<forall>env \<in> set (rc_notifications rc). envelope_ok (PDict env)" using assms by (simp add: accounts_def)
  from drain_value[OF this True] this envelope_ok_mode[OF _ True] assms show ?thesis
    by (auto simp: accounts_def)
next
  case False
  then show ?thesis using assms by (auto simp: drain_notification_events_def Let_def)
qed

lemma accounts_run:
  assumes "accounts ds cs s" "list_all call_times_ok calls"
  shows "accounts (ds @ decisions calls) (cs @ controls_of calls) (foldl collector_exec s calls)"
  using assms
proof (induction calls arbitrary: ds cs s)
  case (Cons c calls)
  obtain out rc where s: "s = (out, rc)" by (cases s)
  have ok: "call_times_ok c" "list_all call_times_ok calls" using Cons.prems by auto
  show ?case
  proof (cases c)
    case (RecordDecision now fresh t d st order decision)
    with Cons.IH[OF accounts_decision[of ds cs out rc now decision fresh t d st order] ok(2)] Cons.prems ok s
    show ?thesis by simp
  next
    case (RecordControls events)
    with Cons.IH[OF accounts_controls[of ds cs out rc events] ok(2)] Cons.prems ok s
    show ?thesis by (simp add: record_control_events_value)
  next
    case DrainRiskEvents
    have "accounts ds cs (out, snd (drain_risk_events rc))"
      using Cons.prems(1) s by (simp add: accounts_def drain_risk_events_def)
    with DrainRiskEvents Cons.IH[OF _ ok(2)] s show ?thesis by simp
  next
    case (DrainNotifications mode)
    with Cons.IH[OF accounts_drain[of ds cs out rc mode] ok(2)] Cons.prems s show ?thesis by simp
  qed
qed simp

section \<open>Properties\<close>

text \<open>C21: Whatever is recorded and drained in whatever order, the counters say exactly how many orders
  were evaluated, allowed and denied, how often each reason blocked and how often each control event
  occurred; every denial and control event has produced exactly one notification, handed out or
  held, and all of them are valid envelopes.\<close>

theorem risk_telemetry_adds_up:
  assumes "list_all call_times_ok calls"
  shows "accounts (decisions calls) (controls_of calls) (foldl collector_exec ([], new_collector) calls)"
  using accounts_run[OF _ assms, of "[]" "[]" "([], new_collector)"]
  by (simp add: accounts_def new_collector_def dict_get_default_def)


theorem risk_telemetry_adds_up_witness:
  "case foldl collector_exec ([], new_collector)
      [RecordControls [(\<lparr>ce_event_type = ''risk.kill_switch.enabled'', ce_control = ''kill_switch'',
         ce_status = ''ENABLED'', ce_reason = ''manual'', ce_actor = ''ops'', ce_occurred_at = iso_utc 0,
         ce_metadata = []\<rparr>, ''u'')], DrainNotifications '' mock ''] of
     (out, rc) \<Rightarrow> rc_control_events_total rc = 1 \<and> rc_denied_total rc = 0
       \<and> length out + length (rc_notifications rc) = 1
       \<and> dict_get_default (rc_control_events rc) ''risk.kill_switch.enabled'' 0 = 1"
    (is "case foldl _ _ ?calls of (out, rc) \<Rightarrow> _")
proof -
  have "timestamp_ok (iso_utc 0)" by (rule timestamp_ok_iso) code_simp
  then have "list_all call_times_ok ?calls" by (simp add: control_times_ok_def)
  from risk_telemetry_adds_up[OF this] show ?thesis
    by (auto simp: accounts_def simp del: collector_exec.simps foldl_Cons)
qed


end
