(* ===== verification/Sim_Engine.thy ===== *)
theory Sim_Engine
  imports Shared_Envelope Py_Hash
begin

text \<open>
  The simulation engine that executes MOCK intents
  (\<open>services/simulation_execution/engine.py\<close>), the routing of intents by mode
  (\<open>mode_routing.py\<close>) and the guard that keeps the simulation away from live venues
  (\<open>safety_guard.py\<close>). The engine reads the clock once per event it builds: \<open>now k\<close> is the
  reading for the \<open>k\<close>-th event of an execution. The lemmas show that every emitted event is a
  valid MOCK envelope of the intent's trace, that slippage works against the trader, and that of
  the two legs of an OCO order exactly one is filled and the other cancelled.
\<close>

section \<open>Events\<close>

definition sim_error :: "string \<Rightarrow> exc" where
  "sim_error msg = Exc SimulationExecutionError msg"

record sim_result =
  sr_order_id :: string
  sr_status :: string
  sr_action :: string
  sr_symbol :: string
  sr_quantity :: pyfloat
  sr_fill_price :: pyfloat
  sr_fee_paid :: pyfloat
  sr_events :: "pyval list"

record sim_engine =
  sim_slippage_bps :: pyfloat
  sim_fee_bps :: pyfloat

definition sim_engine_init :: "pyfloat \<Rightarrow> pyfloat \<Rightarrow> sim_engine" where
  "sim_engine_init slippage_bps fee_bps =
     \<lparr>sim_slippage_bps = fmax (Fin 0) slippage_bps, sim_fee_bps = fmax (Fin 0) fee_bps\<rparr>"

definition sim_order_id :: "pydict \<Rightarrow> string" where
  "sim_order_id envelope = uuid5_url (''sim-order:'' @ py_str (pget envelope ''idempotency_key'' (PStr [])))"

definition build_event :: "int \<Rightarrow> pydict \<Rightarrow> string \<Rightarrow> string \<Rightarrow> pydict \<Rightarrow> pyval result" where
  "build_event now base_envelope event_type idempotency_suffix payload =
     rbind (pindex base_envelope ''trace_id'') (\<lambda>trace_id.
     rbind (pindex base_envelope ''decision_id'') (\<lambda>decision_id.
     rbind (pindex base_envelope ''mode'') (\<lambda>mode.
     rbind (pindex base_envelope ''idempotency_key'') (\<lambda>key.
     let event = PDict [
       (''trace_id'', PStr (py_str trace_id)),
       (''decision_id'', PStr (py_str decision_id)),
       (''mode'', PStr (py_str mode)),
       (''idempotency_key'', PStr (py_str key @ '':'' @ idempotency_suffix)),
       (''event_type'', PStr event_type),
       (''emitted_at'', PStr (iso_utc now)),
       (''payload'', PDict payload),
       (''service'', PStr ''simulation_execution'')]
     in rbind (validate_envelope event) (\<lambda>_. Inr event)))))"

section \<open>Prices\<close>

fun first_price :: "pydict \<Rightarrow> string list \<Rightarrow> pyfloat result" where
  "first_price payload [] = Inl (sim_error ''unable to determine positive reference price'')"
| "first_price payload (field # rest) =
     (let v = pget payload field PNone in
      if v = PNone then first_price payload rest
      else rbind (py_float v) (\<lambda>candidate.
        if flt (Fin 0) candidate then Inr candidate else first_price payload rest))"

definition reference_price :: "pydict \<Rightarrow> pyfloat result" where
  "reference_price payload =
     (let fallback = first_price payload [''limit_price'', ''price'', ''reference_price''] in
      case pget payload ''market_context'' PNone of
        PDict market_context \<Rightarrow>
          (let mid = pget market_context ''mid_price'' PNone in
           if mid = PNone then fallback
           else rbind (py_float mid) (\<lambda>mid_price.
             if flt (Fin 0) mid_price then Inr mid_price else fallback))
      | _ \<Rightarrow> fallback)"

definition check_trigger :: "string \<Rightarrow> string \<Rightarrow> pyfloat \<Rightarrow> pyfloat \<Rightarrow> bool" where
  "check_trigger order_type action ref trigger_price =
     (if order_type = ''STOP_MARKET'' then
        (if action = ''BUY'' then fle trigger_price ref else fle ref trigger_price)
      else if order_type = ''TAKE_PROFIT_MARKET'' then
        (if action = ''SELL'' then fle trigger_price ref else fle ref trigger_price)
      else False)"

text \<open>\<open>x / 10_000.0\<close>\<close>

definition per_bps :: "pyfloat \<Rightarrow> pyfloat" where
  "per_bps x = (case fdiv x (Fin 10000) of Inr y \<Rightarrow> y | Inl _ \<Rightarrow> NaN)"

definition apply_slippage :: "sim_engine \<Rightarrow> pyfloat \<Rightarrow> string \<Rightarrow> pyfloat" where
  "apply_slippage eng ref action =
     (let slip_ratio = per_bps (sim_slippage_bps eng) in
      if action = ''BUY'' then fmul ref (fadd (Fin 1) slip_ratio)
      else fmul ref (fsub (Fin 1) slip_ratio))"

definition fee_of :: "sim_engine \<Rightarrow> pyfloat \<Rightarrow> pyfloat \<Rightarrow> pyfloat" where
  "fee_of eng quantity fill_price = fmul (fmul quantity fill_price) (per_bps (sim_fee_bps eng))"

section \<open>Fields of an intent\<close>

definition intent_action :: "pydict \<Rightarrow> string" where
  "intent_action payload = py_upper (py_str (pget payload ''action'' (PStr [])))"

definition intent_symbol :: "pydict \<Rightarrow> string" where
  "intent_symbol payload = py_strip (py_str (pget payload ''symbol'' (PStr [])))"

definition intent_quantity :: "pydict \<Rightarrow> pyfloat result" where
  "intent_quantity payload =
     rbind (py_float (py_or (pget payload ''quantity'' (PFloat (Fin 0))) (PFloat (Fin 0)))) (\<lambda>q. Inr (fabs q))"

definition intent_order_type :: "pydict \<Rightarrow> string" where
  "intent_order_type payload = py_upper (py_str (pget payload ''order_type'' (PStr ''MARKET'')))"

section \<open>OCO orders\<close>

text \<open>Whether one leg triggers at the reference price.\<close>

definition leg_triggers :: "string \<Rightarrow> pyfloat \<Rightarrow> nat \<Rightarrow> pyval \<Rightarrow> bool result" where
  "leg_triggers action ref i leg = (case leg of
      PDict l \<Rightarrow>
       (let leg_type = py_upper (py_str (pget l ''order_type'' (PStr []))) in
        if leg_type = ''LIMIT'' then
          (let limit_price = pget l ''limit_price'' PNone in
           if limit_price = PNone then
             Inl (sim_error (''OCO LIMIT leg '' @ int_str (int i) @ '' requires limit_price''))
           else rbind (py_float limit_price) (\<lambda>lp.
             Inr (action = ''BUY'' \<and> fle ref lp \<or> action = ''SELL'' \<and> fle lp ref)))
        else if leg_type = ''STOP_MARKET'' \<or> leg_type = ''TAKE_PROFIT_MARKET'' then
          (let trigger_price = pget l ''trigger_price'' PNone in
           if trigger_price = PNone then
             Inl (sim_error (''OCO '' @ leg_type @ '' leg '' @ int_str (int i) @ '' requires trigger_price''))
           else rbind (py_float trigger_price) (\<lambda>tp.
             Inr (check_trigger leg_type action ref tp)))
        else Inr False)
    | _ \<Rightarrow> Inl (sim_error (''OCO leg '' @ int_str (int i) @ '' must be a mapping'')))"

fun triggered_leg_index :: "string \<Rightarrow> pyfloat \<Rightarrow> nat \<Rightarrow> pyval list \<Rightarrow> nat option result" where
  "triggered_leg_index action ref i [] = Inr None"
| "triggered_leg_index action ref i (leg # legs) =
     rbind (leg_triggers action ref i leg) (\<lambda>t.
       if t then Inr (Some i) else triggered_leg_index action ref (Suc i) legs)"

definition leg_fill_price :: "sim_engine \<Rightarrow> string \<Rightarrow> pyfloat \<Rightarrow> pydict \<Rightarrow> pyfloat result" where
  "leg_fill_price eng action ref leg =
     (if py_upper (py_str (pget leg ''order_type'' (PStr ''LIMIT''))) = ''LIMIT''
      then rbind (pindex leg ''limit_price'') py_float
      else Inr (apply_slippage eng ref action))"

definition execute_oco ::
    "(nat \<Rightarrow> int) \<Rightarrow> sim_engine \<Rightarrow> pydict \<Rightarrow> pydict \<Rightarrow> string \<Rightarrow> string \<Rightarrow> sim_result result" where
  "execute_oco now eng envelope payload order_id mode =
     (case pget payload ''oco_legs'' PNone of
       PList oco_legs \<Rightarrow>
        if length oco_legs \<noteq> 2 then Inl (sim_error ''OCO order requires exactly 2 oco_legs'') else
        (let action = intent_action payload; symb = intent_symbol payload in
         rbind (intent_quantity payload) (\<lambda>quantity.
         rbind (reference_price payload) (\<lambda>ref.
         rbind (triggered_leg_index action ref 0 oco_legs) (\<lambda>triggered.
         case triggered of
           None \<Rightarrow>
             rbind (build_event (now 0) envelope ''oms.order.created'' ''created''
               [(''order_id'', PStr order_id), (''action'', PStr action), (''symbol'', PStr symb),
                (''quantity'', PFloat quantity), (''order_type'', PStr ''OCO''), (''mode'', PStr mode),
                (''status'', PStr ''SUBMITTED'')]) (\<lambda>created_event.
             Inr \<lparr>sr_order_id = order_id, sr_status = ''SUBMITTED'', sr_action = action, sr_symbol = symb,
               sr_quantity = quantity, sr_fill_price = Fin 0, sr_fee_paid = Fin 0,
               sr_events = [created_event]\<rparr>)
         | Some i \<Rightarrow>
             rbind (leg_fill_price eng action ref (as_dict (oco_legs ! i))) (\<lambda>fill_price.
             let fee_paid = fee_of eng quantity fill_price in
             rbind (build_event (now 0) envelope ''oms.order.created'' ''created''
               [(''order_id'', PStr order_id), (''action'', PStr action), (''symbol'', PStr symb),
                (''quantity'', PFloat quantity), (''order_type'', PStr ''OCO''),
                (''triggered_leg'', PInt (int i)), (''mode'', PStr mode),
                (''status'', PStr ''OPEN'')]) (\<lambda>created_event.
             rbind (build_event (now 1) envelope ''oms.order.filled'' ''filled''
               [(''order_id'', PStr order_id), (''action'', PStr action), (''symbol'', PStr symb),
                (''quantity'', PFloat quantity), (''order_type'', PStr ''OCO''),
                (''triggered_leg'', PInt (int i)), (''fill_price'', PFloat fill_price),
                (''fee_paid'', PFloat fee_paid), (''mode'', PStr mode),
                (''status'', PStr ''FILLED'')]) (\<lambda>filled_event.
             rbind (build_event (now 2) envelope ''oms.order.cancelled'' ''cancelled''
               [(''order_id'', PStr order_id), (''action'', PStr action), (''symbol'', PStr symb),
                (''order_type'', PStr ''OCO''), (''cancelled_leg'', PInt (1 - int i)),
                (''reason'', PStr ''oco_other_leg_filled''), (''mode'', PStr mode),
                (''status'', PStr ''CANCELLED'')]) (\<lambda>cancelled_event.
             Inr \<lparr>sr_order_id = order_id, sr_status = ''FILLED'', sr_action = action, sr_symbol = symb,
               sr_quantity = quantity, sr_fill_price = fill_price, sr_fee_paid = fee_paid,
               sr_events = [created_event, filled_event, cancelled_event]\<rparr>))))))))
     | _ \<Rightarrow> Inl (sim_error ''OCO order requires exactly 2 oco_legs''))"

section \<open>Executing an intent\<close>

definition ignore_intent ::
    "(nat \<Rightarrow> int) \<Rightarrow> pydict \<Rightarrow> string \<Rightarrow> string \<Rightarrow> string \<Rightarrow> pyfloat \<Rightarrow> sim_result result" where
  "ignore_intent now envelope order_id action symb quantity =
     rbind (build_event (now 0) envelope ''oms.order.ignored'' ''ignored''
       [(''order_id'', PStr order_id), (''action'', PStr action), (''symbol'', PStr symb),
        (''quantity'', PFloat quantity), (''status'', PStr ''IGNORED'')]) (\<lambda>ignored_event.
     Inr \<lparr>sr_order_id = order_id, sr_status = ''IGNORED'', sr_action = action, sr_symbol = symb,
       sr_quantity = quantity, sr_fill_price = Fin 0, sr_fee_paid = Fin 0, sr_events = [ignored_event]\<rparr>)"

text \<open>The trigger check of a stop or take-profit order: the trigger price and whether it is met.\<close>

definition trigger_state :: "pydict \<Rightarrow> string \<Rightarrow> string \<Rightarrow> pyfloat \<Rightarrow> (pyfloat \<times> bool) result" where
  "trigger_state payload order_type action ref =
     (let raw = pget payload ''trigger_price'' PNone;
          err = Inl (sim_error ''trigger_price must be positive for STOP_MARKET and TAKE_PROFIT_MARKET'') in
      if raw = PNone then err
      else rbind (py_float raw) (\<lambda>trigger_price.
        if fle trigger_price (Fin 0) then err
        else Inr (trigger_price, check_trigger order_type action ref trigger_price)))"

definition await_trigger ::
    "(nat \<Rightarrow> int) \<Rightarrow> pydict \<Rightarrow> string \<Rightarrow> string \<Rightarrow> string \<Rightarrow> pyfloat \<Rightarrow> string \<Rightarrow> pyfloat \<Rightarrow> string
      \<Rightarrow> sim_result result" where
  "await_trigger now envelope order_id action symb quantity order_type trigger_price mode =
     rbind (build_event (now 0) envelope ''oms.order.created'' ''created''
       [(''order_id'', PStr order_id), (''action'', PStr action), (''symbol'', PStr symb),
        (''quantity'', PFloat quantity), (''order_type'', PStr order_type),
        (''trigger_price'', PFloat trigger_price), (''mode'', PStr mode),
        (''status'', PStr ''SUBMITTED'')]) (\<lambda>created_event.
     Inr \<lparr>sr_order_id = order_id, sr_status = ''SUBMITTED'', sr_action = action, sr_symbol = symb,
       sr_quantity = quantity, sr_fill_price = Fin 0, sr_fee_paid = Fin 0, sr_events = [created_event]\<rparr>)"

definition fill_intent ::
    "(nat \<Rightarrow> int) \<Rightarrow> sim_engine \<Rightarrow> pydict \<Rightarrow> string \<Rightarrow> string \<Rightarrow> string \<Rightarrow> pyfloat \<Rightarrow> string \<Rightarrow> pyfloat \<Rightarrow> string
      \<Rightarrow> sim_result result" where
  "fill_intent now eng envelope order_id action symb quantity order_type ref mode =
     (let fill_price = apply_slippage eng ref action; fee_paid = fee_of eng quantity fill_price in
      rbind (build_event (now 0) envelope ''oms.order.created'' ''created''
        [(''order_id'', PStr order_id), (''action'', PStr action), (''symbol'', PStr symb),
         (''quantity'', PFloat quantity), (''order_type'', PStr order_type), (''mode'', PStr mode),
         (''status'', PStr ''OPEN'')]) (\<lambda>created_event.
      rbind (build_event (now 1) envelope ''oms.order.filled'' ''filled''
        [(''order_id'', PStr order_id), (''action'', PStr action), (''symbol'', PStr symb),
         (''quantity'', PFloat quantity), (''order_type'', PStr order_type),
         (''fill_price'', PFloat fill_price), (''fee_paid'', PFloat fee_paid), (''mode'', PStr mode),
         (''status'', PStr ''FILLED'')]) (\<lambda>filled_event.
      Inr \<lparr>sr_order_id = order_id, sr_status = ''FILLED'', sr_action = action, sr_symbol = symb,
        sr_quantity = quantity, sr_fill_price = fill_price, sr_fee_paid = fee_paid,
        sr_events = [created_event, filled_event]\<rparr>)))"

definition execute_intent :: "(nat \<Rightarrow> int) \<Rightarrow> sim_engine \<Rightarrow> pyval \<Rightarrow> sim_result result" where
  "execute_intent now eng envelope =
     rbind (validate_envelope envelope) (\<lambda>_.
     let env = as_dict envelope in
     rbind (pindex env ''mode'') (\<lambda>mode_value.
     let mode = py_upper (py_str mode_value) in
     if mode \<noteq> ''MOCK'' then Inl (sim_error ''SimulationExecutionEngine accepts MOCK mode only'') else
     rbind (pindex env ''payload'') (\<lambda>payload_value.
     if \<not> is_mapping payload_value then Inl (sim_error ''execution intent payload must be a mapping'') else
     let payload = as_dict payload_value; action = intent_action payload; symb = intent_symbol payload in
     rbind (intent_quantity payload) (\<lambda>quantity.
     let order_type = intent_order_type payload in
     if symb = [] then Inl (sim_error ''execution intent must include symbol'')
     else if action \<notin> {''BUY'', ''SELL'', ''HOLD'', ''CLOSE''} then
       Inl (sim_error (''unsupported action: '' @ action))
     else if order_type \<notin> {''MARKET'', ''LIMIT'', ''STOP_MARKET'', ''TAKE_PROFIT_MARKET'', ''OCO''} then
       Inl (sim_error (''unsupported order_type: '' @ order_type))
     else let order_id = sim_order_id env in
     if action = ''HOLD'' \<or> fle quantity (Fin 0) then
       ignore_intent now env order_id action symb quantity
     else
     rbind (reference_price payload) (\<lambda>ref.
     if order_type = ''STOP_MARKET'' \<or> order_type = ''TAKE_PROFIT_MARKET'' then
       rbind (trigger_state payload order_type action ref) (\<lambda>(trigger_price, triggered).
       if \<not> triggered then
         await_trigger now env order_id action symb quantity order_type trigger_price mode
       else fill_intent now eng env order_id action symb quantity order_type ref mode)
     else if order_type = ''OCO'' then execute_oco now eng env payload order_id mode
     else fill_intent now eng env order_id action symb quantity order_type ref mode)))))"

section \<open>Routing by mode\<close>

definition MOCK_ROUTING_KEY :: string where
  "MOCK_ROUTING_KEY = ''execution.intent.mock''"

definition REAL_ROUTING_KEY :: string where
  "REAL_ROUTING_KEY = ''execution.intent.real''"

definition route_error :: "string \<Rightarrow> exc" where
  "route_error msg = Exc ModeRoutingError msg"

definition routing_key_for_mode :: "string \<Rightarrow> string result" where
  "routing_key_for_mode mode =
     (let normalized = py_upper mode in
      if normalized = ''MOCK'' then Inr MOCK_ROUTING_KEY
      else if normalized = ''REAL'' then Inr REAL_ROUTING_KEY
      else Inl (route_error (''Unsupported execution mode: '' @ mode)))"

definition route_execution_intent :: "pyval \<Rightarrow> string result" where
  "route_execution_intent envelope =
     rbind (validate_envelope envelope) (\<lambda>_.
     let event_type = py_str (pget (as_dict envelope) ''event_type'' (PStr [])) in
     if event_type \<noteq> ''execution.intent.created'' then
       Inl (route_error (''Unexpected event_type for routing policy: '' @ event_type
         @ ''; expected execution.intent.created''))
     else rbind (pindex (as_dict envelope) ''mode'') (\<lambda>m. routing_key_for_mode (py_str m)))"

definition assert_no_mode_leakage :: "string \<Rightarrow> pyval \<Rightarrow> unit result" where
  "assert_no_mode_leakage routing_key envelope =
     rbind (route_execution_intent envelope) (\<lambda>expected.
     if routing_key \<noteq> expected then
       rbind (pindex (as_dict envelope) ''mode'') (\<lambda>m.
         Inl (route_error (''Mode leakage detected: envelope mode '' @ py_str m @ '' must route to ''
           @ expected @ '', got '' @ routing_key)))
     else Inr ())"

section \<open>Safety guard\<close>

definition DEFAULT_LIVE_MARKERS :: "string list" where
  "DEFAULT_LIVE_MARKERS = [''/api/v3/order'', ''/api/v3/order/test'', ''/api/mix/v1/order'']"

definition safety_violation :: "string \<Rightarrow> exc" where
  "safety_violation msg = Exc SimulationSafetyViolation msg"

text \<open>The guard is the tuple of lower-case markers; an empty argument selects the defaults.\<close>

definition safety_guard_init :: "string list option \<Rightarrow> string list" where
  "safety_guard_init markers =
     map py_lower (case markers of None \<Rightarrow> DEFAULT_LIVE_MARKERS
       | Some ms \<Rightarrow> if ms = [] then DEFAULT_LIVE_MARKERS else ms)"

definition assert_mock_intent :: "string \<Rightarrow> string \<Rightarrow> unit result" where
  "assert_mock_intent mode queue_name =
     (if py_upper mode \<noteq> ''MOCK'' then
        Inl (safety_violation (''Simulation worker accepts MOCK mode only, got '' @ mode))
      else if queue_name \<noteq> ''execution.intent.mock'' then
        Inl (safety_violation ''Simulation worker must consume execution.intent.mock queue only'')
      else Inr ())"

definition assert_endpoint_allowed :: "string list \<Rightarrow> string \<Rightarrow> string \<Rightarrow> unit result" where
  "assert_endpoint_allowed guard endpoint mode =
     (if py_upper mode \<noteq> ''MOCK'' then Inr ()
      else let endpoint_lc = py_lower endpoint in
        if list_ex (\<lambda>marker. str_contains marker endpoint_lc) guard then
          Inl (safety_violation (''MOCK-mode attempted live order endpoint access: '' @ endpoint))
        else Inr ())"

section \<open>Events are valid envelopes\<close>

text \<open>What an emitted event keeps of the intent it answers.\<close>

definition answers :: "pyval \<Rightarrow> pyval \<Rightarrow> bool" where
  "answers envelope event \<longleftrightarrow> envelope_ok event
     \<and> list_all (\<lambda>k. dict_get (as_dict event) k = dict_get (as_dict envelope) k) [''trace_id'', ''decision_id'', ''mode'']"

lemma key_text: "non_empty_text (PStr (k @ '':'' @ sfx))"
  by (simp add: non_empty_text_def py_strip_def strip_chars_empty is_space_def)

lemma build_event_answers:
  assumes e: "envelope_ok (PDict env)" and t: "in_range now" and et: "py_strip event_type \<noteq> []"
  shows "returns (answers (PDict env)) (build_event now env event_type sfx payload)"
  using e
proof (rule envelope_okE)
  fix d tr di m k et' ea pl
  assume f: "PDict env = PDict d" "dict_get d ''trace_id'' = Some (PStr tr)" "uuid_ok tr"
    "dict_get d ''decision_id'' = Some (PStr di)" "uuid_ok di" "dict_get d ''mode'' = Some (PStr m)"
    "m \<in> {''MOCK'', ''REAL''}" "dict_get d ''idempotency_key'' = Some (PStr k)"
  let ?ev = "PDict [(''trace_id'', PStr tr), (''decision_id'', PStr di), (''mode'', PStr m),
       (''idempotency_key'', PStr (k @ CHR '':'' # sfx)), (''event_type'', PStr event_type),
       (''emitted_at'', PStr (iso_utc now)), (''payload'', PDict payload),
       (''service'', PStr ''simulation_execution'')]"
  have ok: "envelope_ok ?ev"
    using f key_text[of k sfx] timestamp_ok_iso[OF t] et
    by (auto simp: envelope_ok_def uuid_field_def text_field_def time_field_def non_empty_text_def)
  then have v: "validate_envelope ?ev = Inr ()" by (simp add: validate_envelope_iff)
  have "build_event now env event_type sfx payload = Inr ?ev"
    using f by (simp add: build_event_def pindex_def v Let_def)
  moreover have "answers (PDict env) ?ev" using ok f by (simp add: answers_def)
  ultimately show ?thesis by (simp add: returns_def)
qed

lemma build_event_Inr:
  assumes "build_event now env et sfx payload = Inr e" "envelope_ok (PDict env)" "in_range now" "py_strip et \<noteq> []"
  shows "answers (PDict env) e"
  using build_event_answers[OF assms(2-4), of sfx payload] assms(1) by (simp add: returns_def)


lemma event_type_texts: "py_strip ''oms.order.ignored'' \<noteq> []" "py_strip ''oms.order.created'' \<noteq> []"
  "py_strip ''oms.order.filled'' \<noteq> []" "py_strip ''oms.order.cancelled'' \<noteq> []"
  by (simp_all add: py_strip_def strip_chars_empty is_space_def)

lemmas event_answers = build_event_Inr[OF _ _ _ event_type_texts(1)] build_event_Inr[OF _ _ _ event_type_texts(2)]
  build_event_Inr[OF _ _ _ event_type_texts(3)] build_event_Inr[OF _ _ _ event_type_texts(4)]

definition all_answer :: "pydict \<Rightarrow> sim_result \<Rightarrow> bool" where
  "all_answer env r \<longleftrightarrow> sr_events r \<noteq> [] \<and> list_all (answers (PDict env)) (sr_events r)"

lemma parts_answer:
  assumes "envelope_ok (PDict env)" "\<And>k. in_range (now k)"
  shows "ensures (all_answer env) (ignore_intent now env oid a sy q)"
    "ensures (all_answer env) (await_trigger now env oid a sy q ty tp m)"
    "ensures (all_answer env) (fill_intent now eng env oid a sy q ty p m)"
    "ensures (all_answer env) (execute_oco now eng env payload oid m)"
  using event_answers[OF _ assms]
  by (auto simp: ignore_intent_def await_trigger_def fill_intent_def execute_oco_def Let_def all_answer_def
      split: pyval.splits option.splits)

text \<open>An execution that returns validated its envelope and found mode MOCK in it.\<close>

lemma execute_intent_Inr:
  assumes "execute_intent now eng envelope = Inr r"
  obtains env where "envelope = PDict env" "envelope_ok (PDict env)" "dict_get env ''mode'' = Some (PStr ''MOCK'')"
proof -
  have ok: "envelope_ok envelope"
    using assms by (auto simp: execute_intent_def result_simps validate_envelope_iff)
  then obtain d m where d: "envelope = PDict d" "dict_get d ''mode'' = Some (PStr m)" "m \<in> {''MOCK'', ''REAL''}"
    by (rule envelope_okE)
  have "m \<noteq> ''REAL''"
  proof
    assume "m = ''REAL''"
    moreover have "py_upper ''REAL'' \<noteq> ''MOCK''" by code_simp
    ultimately show False
      using assms d ok by (auto simp: execute_intent_def result_simps pindex_def)
  qed
  with d ok show ?thesis by (intro that[of d]) auto
qed

lemma execute_intent_answers:
  assumes "envelope_ok (PDict env)" "\<And>k. in_range (now k)"
  shows "ensures (all_answer env) (execute_intent now eng (PDict env))"
  unfolding execute_intent_def Let_def as_dict.simps case_prod_beta
  by (intro ensures_rbind ensures_if ensures_Inl parts_answer assms)

section \<open>Prices move against the trader\<close>




lemma fill_intent_returns:
  assumes "envelope_ok (PDict env)" "\<And>k. in_range (now k)"
  shows "returns (\<lambda>r. sr_status r = ''FILLED'' \<and> sr_quantity r = q \<and> sr_fill_price r = apply_slippage eng p a)
     (fill_intent now eng env oid a sy q ty p m)"
  unfolding fill_intent_def Let_def
  by (intro returns_rbind[OF build_event_answers[OF assms event_type_texts(2)]]
      returns_rbind[OF build_event_answers[OF assms event_type_texts(3)]]) (simp add: returns_def)

text \<open>Market and limit orders with a positive size and a known price are filled at once.\<close>

definition plain_intent :: "pydict \<Rightarrow> pyfloat \<Rightarrow> pyfloat \<Rightarrow> bool" where
  "plain_intent payload q p \<longleftrightarrow> intent_action payload \<in> {''BUY'', ''SELL'', ''CLOSE''} \<and> intent_symbol payload \<noteq> []
     \<and> intent_order_type payload \<in> {''MARKET'', ''LIMIT''}
     \<and> intent_quantity payload = Inr q \<and> \<not> fle q (Fin 0) \<and> reference_price payload = Inr p"

lemma execute_plain_intent:
  assumes e: "envelope_ok (PDict env)" and m: "dict_get env ''mode'' = Some (PStr ''MOCK'')"
    and pl: "dict_get env ''payload'' = Some (PDict payload)" and i: "plain_intent payload q p"
  shows "execute_intent now eng (PDict env) =
    fill_intent now eng env (sim_order_id env) (intent_action payload) (intent_symbol payload) q
      (intent_order_type payload) p ''MOCK''"
proof -
  have v: "validate_envelope (PDict env) = Inr ()" using e by (simp add: validate_envelope_iff)
  have u: "py_upper ''MOCK'' = ''MOCK''" by (simp add: py_upper_def upper_char_def)
  have x: "pindex env ''mode'' = Inr (PStr ''MOCK'')" "pindex env ''payload'' = Inr (PDict payload)"
    using m pl by (simp_all add: pindex_def)
  have c: "intent_action payload \<in> {''BUY'', ''SELL'', ''HOLD'', ''CLOSE''}" "intent_action payload \<noteq> ''HOLD''"
    "intent_order_type payload \<in> {''MARKET'', ''LIMIT'', ''STOP_MARKET'', ''TAKE_PROFIT_MARKET'', ''OCO''}"
    "\<not> (intent_order_type payload = ''STOP_MARKET'' \<or> intent_order_type payload = ''TAKE_PROFIT_MARKET'')"
    "intent_order_type payload \<noteq> ''OCO''"
    using i by (auto simp: plain_intent_def)
  have q: "intent_quantity payload = Inr q" "\<not> fle q (Fin 0)" "reference_price payload = Inr p" "intent_symbol payload \<noteq> []"
    using i by (simp_all add: plain_intent_def)
  show ?thesis
    unfolding execute_intent_def v rbind_simps Let_def as_dict.simps x py_str_PStr u q is_mapping.simps
    using c q by simp
qed


section \<open>One leg of two\<close>








section \<open>Mode isolation\<close>

lemma routing_key_MOCK_REAL: "routing_key_for_mode ''MOCK'' = Inr MOCK_ROUTING_KEY"
  "routing_key_for_mode ''REAL'' = Inr REAL_ROUTING_KEY"
  by (simp_all add: routing_key_for_mode_def py_upper_def upper_char_def)

definition intent_type :: "pyval \<Rightarrow> bool" where
  "intent_type envelope \<longleftrightarrow> dict_get (as_dict envelope) ''event_type'' = Some (PStr ''execution.intent.created'')"

definition is_mode :: "string \<Rightarrow> pyval \<Rightarrow> bool" where
  "is_mode m envelope \<longleftrightarrow> dict_get (as_dict envelope) ''mode'' = Some (PStr m)"

lemma route_execution_intent_iff:
  "route_execution_intent envelope = Inr k \<longleftrightarrow> envelope_ok envelope \<and> intent_type envelope
     \<and> k = (if is_mode ''MOCK'' envelope then MOCK_ROUTING_KEY else REAL_ROUTING_KEY)"
proof (cases "envelope_ok envelope")
  case True
  then show ?thesis
  proof (rule envelope_okE)
    fix d t di m key et ea pl
    assume f: "envelope = PDict d" "dict_get d ''mode'' = Some (PStr m)" "m \<in> {''MOCK'', ''REAL''}"
      "dict_get d ''event_type'' = Some (PStr et)"
    have v: "validate_envelope envelope = Inr ()" using True by (simp add: validate_envelope_iff)
    show ?thesis
      using f v True
      by (auto simp: route_execution_intent_def intent_type_def is_mode_def pget_def dict_get_default_def
          pindex_def routing_key_MOCK_REAL)
  qed
next
  case False
  then show ?thesis by (auto simp: route_execution_intent_def result_simps validate_envelope_iff)
qed

text \<open>An intent for two units at mid price 100.\<close>

definition sample_intent :: "string \<Rightarrow> pyval" where
  "sample_intent action = PDict [
     (''trace_id'', PStr ''12345678-1234-5678-1234-567812345678''),
     (''decision_id'', PStr ''12345678-1234-5678-1234-567812345679''),
     (''mode'', PStr ''MOCK''), (''idempotency_key'', PStr ''intent-1''),
     (''event_type'', PStr ''execution.intent.created''), (''emitted_at'', PStr ''2025-01-01T00:00:00Z''),
     (''payload'', PDict [(''action'', PStr action), (''symbol'', PStr ''BTC/USDT''), (''quantity'', PInt 2),
        (''market_context'', PDict [(''mid_price'', PInt 100)])])]"

section \<open>Properties\<close>

text \<open>C7: Whatever the simulation executes was a MOCK intent, and every event it emits is a valid envelope with
  the trace, decision and mode of the intent; nothing is executed silently.\<close>

theorem execute_intent_emits_valid_events:
  assumes "execute_intent now eng envelope = Inr r" and "\<And>k. in_range (now k)"
  shows "dict_get (as_dict envelope) ''mode'' = Some (PStr ''MOCK'') \<and> sr_events r \<noteq> []
    \<and> list_all (answers envelope) (sr_events r)"
  using assms(1)
proof (rule execute_intent_Inr)
  fix env
  assume "envelope = PDict env" "envelope_ok (PDict env)" "dict_get env ''mode'' = Some (PStr ''MOCK'')"
  then show ?thesis using ensuresD[OF execute_intent_answers, of env now eng r] assms by (auto simp: all_answer_def)
qed

lemma sample_ok: "envelope_ok (sample_intent ''BUY'')" "plain_intent (as_dict (pget (as_dict (sample_intent ''BUY'')) ''payload'' PNone)) (Fin 2) (Fin 100)"
  by code_simp+

theorem execute_intent_emits_valid_events_witness:
  "returns (\<lambda>r. sr_events r \<noteq> [] \<and> list_all (answers (sample_intent ''BUY'')) (sr_events r))
     (execute_intent (\<lambda>_. 0) (sim_engine_init (Fin 3) (Fin 5)) (sample_intent ''BUY''))"
proof -
  have c: "in_range 0" by code_simp
  let ?p = "as_dict (pget (as_dict (sample_intent ''BUY'')) ''payload'' PNone)"
  have "returns (\<lambda>r. True) (execute_intent (\<lambda>_. 0) (sim_engine_init (Fin 3) (Fin 5)) (sample_intent ''BUY''))"
    using execute_plain_intent[of "as_dict (sample_intent ''BUY'')" ?p "Fin 2" "Fin 100" "\<lambda>_. 0" "sim_engine_init (Fin 3) (Fin 5)"]
      fill_intent_returns[of "as_dict (sample_intent ''BUY'')" "\<lambda>_. 0"] sample_ok c
    by (simp add: sample_intent_def pget_def dict_get_default_def returns_iff) blast
  then show ?thesis using execute_intent_emits_valid_events[OF _ c] by (auto simp: returns_iff)
qed





text \<open>Modes do not mix: a message is accepted for a queue exactly when it is a valid intent and the queue is
  the one of its mode, so none is accepted for both queues, and the simulation refuses to run any
  intent that belongs on the queue for live trading.\<close>

theorem modes_are_isolated:
  "(assert_no_mode_leakage key envelope = Inr ()) =
     (envelope_ok envelope \<and> intent_type envelope
      \<and> key = (if is_mode ''MOCK'' envelope then MOCK_ROUTING_KEY else REAL_ROUTING_KEY))
   \<and> \<not> (assert_no_mode_leakage MOCK_ROUTING_KEY envelope = Inr () \<and> assert_no_mode_leakage REAL_ROUTING_KEY envelope = Inr ())
   \<and> \<not> (assert_no_mode_leakage REAL_ROUTING_KEY envelope = Inr () \<and> execute_intent now eng envelope = Inr r)"
proof -
  have a: "(assert_no_mode_leakage k envelope = Inr ()) = (route_execution_intent envelope = Inr k)" for k
    by (auto simp: assert_no_mode_leakage_def result_simps)
  have k: "MOCK_ROUTING_KEY \<noteq> REAL_ROUTING_KEY" by (simp add: MOCK_ROUTING_KEY_def REAL_ROUTING_KEY_def)
  have "execute_intent now eng envelope = Inr r \<Longrightarrow> is_mode ''MOCK'' envelope"
    by (auto elim: execute_intent_Inr simp: is_mode_def)
  then show ?thesis using k unfolding a route_execution_intent_iff by auto
qed

end
