(* ===== verification/Shared_Broker.thy ===== *)
theory Shared_Broker
  imports Py_Values "HOL-Library.List_Lexorder" "HOL-Library.Char_ord"
begin

text \<open>
  The in-process topic broker of \<open>services/shared/runtime/broker.py\<close>: queues, bindings with the wild
  cards \<open>*\<close> and \<open>#\<close>, publishing, consuming and draining. The coroutines run to completion between
  two broker calls; a consumer without time limit on an empty queue waits. The lemmas give the
  matching a declarative meaning, show that publishing appends the message once to exactly the
  matching queues, and, through the interface \<open>fifo\<close>, that every queue is first in first out.
\<close>

section \<open>State\<close>

record broker =
  bk_queues :: "(string, pydict list) dict"
  bk_bindings :: "(string, string list) dict"

record published_message =
  pm_queue :: string
  pm_routing_key :: string
  pm_message :: pydict

definition new_broker :: broker where
  "new_broker = \<lparr>bk_queues = [], bk_bindings = []\<rparr>"

definition bk_error :: "string \<Rightarrow> exc" where
  "bk_error msg = Exc BrokerConfigurationError msg"

section \<open>Topic matching\<close>

fun match_tokens :: "string list \<Rightarrow> string list \<Rightarrow> bool" where
  "match_tokens [] routing_tokens = (routing_tokens = [])"
| "match_tokens (token # pattern_tokens) routing_tokens =
     (if token = ''#'' then
        (if pattern_tokens = [] then True
         else list_ex (\<lambda>idx. match_tokens pattern_tokens (drop idx routing_tokens))
                [0..<length routing_tokens + 1])
      else (case routing_tokens of
          [] \<Rightarrow> False
        | w # ws \<Rightarrow> if token = ''*'' \<or> token = w then match_tokens pattern_tokens ws else False))"

definition topic_matches :: "string \<Rightarrow> string \<Rightarrow> bool" where
  "topic_matches pattern routing_key =
     match_tokens (split_on (CHR ''.'') pattern) (split_on (CHR ''.'') routing_key)"

section \<open>Operations\<close>

definition declare_queue :: "string \<Rightarrow> broker \<Rightarrow> broker result" where
  "declare_queue queue_name b =
     (if queue_name = [] then Inl (bk_error ''queue_name must be non-empty'')
      else if dict_get (bk_queues b) queue_name = None
        then Inr (b\<lparr>bk_queues := dict_set queue_name [] (bk_queues b)\<rparr>)
      else Inr b)"

definition bind_queue :: "string \<Rightarrow> string \<Rightarrow> broker \<Rightarrow> broker result" where
  "bind_queue routing_key queue_name b =
     (if routing_key = [] then Inl (bk_error ''routing_key must be non-empty'')
      else rbind (declare_queue queue_name b) (\<lambda>b1.
        let bound = dict_get_default (bk_bindings b1) routing_key []
        in Inr (b1\<lparr>bk_bindings := dict_set routing_key
             (if queue_name \<in> set bound then bound else bound @ [queue_name]) (bk_bindings b1)\<rparr>)))"

definition resolve_queues :: "string \<Rightarrow> broker \<Rightarrow> string list" where
  "resolve_queues routing_key b =
     (let bound = concat (map (\<lambda>(pattern, queues). if topic_matches pattern routing_key then queues else [])
            (bk_bindings b));
          own = (if dict_get (bk_queues b) routing_key = None then [] else [routing_key])
      in sort (remdups (bound @ own)))"

definition queue_put :: "string \<Rightarrow> pydict \<Rightarrow> broker \<Rightarrow> broker" where
  "queue_put name m b = b\<lparr>bk_queues := dict_set name (dict_get_default (bk_queues b) name [] @ [m]) (bk_queues b)\<rparr>"

definition queue_get :: "string \<Rightarrow> broker \<Rightarrow> (pydict \<times> broker) option" where
  "queue_get name b = (case dict_get_default (bk_queues b) name [] of
      [] \<Rightarrow> None
    | m # ms \<Rightarrow> Some (m, b\<lparr>bk_queues := dict_set name ms (bk_queues b)\<rparr>))"

fun publish_to ::
    "string \<Rightarrow> pydict \<Rightarrow> string list \<Rightarrow> broker \<Rightarrow> (published_message list \<times> broker) result" where
  "publish_to routing_key m [] b = Inr ([], b)"
| "publish_to routing_key m (name # names) b =
     (if dict_get (bk_queues b) name = None then Inl (Exc KeyError name)
      else rbind (publish_to routing_key m names (queue_put name m b)) (\<lambda>(ps, b').
        Inr (\<lparr>pm_queue = name, pm_routing_key = routing_key, pm_message = m\<rparr> # ps, b')))"

definition broker_publish :: "string \<Rightarrow> pyval \<Rightarrow> broker \<Rightarrow> (published_message list \<times> broker) result" where
  "broker_publish routing_key message b = (case message of
      PDict m \<Rightarrow> publish_to routing_key m (resolve_queues routing_key b) b
    | _ \<Rightarrow> Inl (bk_error ''message must be a dict''))"

datatype consumed = Received pydict | Nothing | Waits

definition broker_consume :: "string \<Rightarrow> pyfloat option \<Rightarrow> broker \<Rightarrow> (consumed \<times> broker) result" where
  "broker_consume queue_name timeout_seconds b =
     (if dict_get (bk_queues b) queue_name = None
      then Inl (bk_error (''queue not declared: '' @ queue_name))
      else (case queue_get queue_name b of
          Some (m, b') \<Rightarrow> Inr (Received m, b')
        | None \<Rightarrow> Inr (if timeout_seconds = None then Waits else Nothing, b)))"

definition queue_size :: "string \<Rightarrow> broker \<Rightarrow> nat result" where
  "queue_size queue_name b = (case dict_get (bk_queues b) queue_name of
      None \<Rightarrow> Inl (bk_error (''queue not declared: '' @ queue_name))
    | Some ms \<Rightarrow> Inr (length ms))"

definition broker_drain :: "string \<Rightarrow> broker \<Rightarrow> (pydict list \<times> broker) result" where
  "broker_drain queue_name b = (case dict_get (bk_queues b) queue_name of
      None \<Rightarrow> Inl (bk_error (''queue not declared: '' @ queue_name))
    | Some ms \<Rightarrow> Inr (ms, b\<lparr>bk_queues := dict_set queue_name [] (bk_queues b)\<rparr>))"

text \<open>\<open>from_topology_file\<close> after the file is parsed: malformed entries are skipped.\<close>

fun topology_items :: "pyval \<Rightarrow> pyval list result" where
  "topology_items (PList xs) = Inr xs"
| "topology_items (PDict d) = Inr (map (\<lambda>(k, v). PStr k) d)"
| "topology_items (PStr s) = Inr (map (\<lambda>c. PStr [c]) s)"
| "topology_items v = Inl (Exc TypeError (str_repr (type_name v) @ '' object is not iterable''))"

definition topology_queue :: "broker \<Rightarrow> pyval \<Rightarrow> broker result" where
  "topology_queue b queue = (case queue of
      PDict d \<Rightarrow> (case dict_get d ''name'' of Some (PStr n) \<Rightarrow> declare_queue n b | _ \<Rightarrow> Inr b)
    | _ \<Rightarrow> Inr b)"

definition topology_binding :: "broker \<Rightarrow> pyval \<Rightarrow> broker result" where
  "topology_binding b binding = (case binding of
      PDict d \<Rightarrow> (case (dict_get d ''queue'', dict_get d ''routing_key'') of
          (Some (PStr q), Some (PStr r)) \<Rightarrow> bind_queue r q b
        | _ \<Rightarrow> Inr b)
    | _ \<Rightarrow> Inr b)"

definition from_topology :: "pydict \<Rightarrow> broker result" where
  "from_topology payload =
     rbind (topology_items (pget payload ''queues'' (PList []))) (\<lambda>queues.
     rbind (rfold topology_queue new_broker queues) (\<lambda>b.
     rbind (topology_items (pget payload ''bindings'' (PList []))) (\<lambda>bindings.
       rfold topology_binding b bindings)))"

section \<open>The meaning of a pattern\<close>

inductive topic_match :: "string list \<Rightarrow> string list \<Rightarrow> bool" where
  nil: "topic_match [] []"
| word: "token \<noteq> ''#'' \<Longrightarrow> token = ''*'' \<or> token = w \<Longrightarrow> topic_match ps ws \<Longrightarrow> topic_match (token # ps) (w # ws)"
| none: "topic_match ps ws \<Longrightarrow> topic_match (''#'' # ps) ws"
| more: "topic_match (''#'' # ps) ws \<Longrightarrow> topic_match (''#'' # ps) (w # ws)"

inductive_cases topic_match_nilE: "topic_match [] ws"
inductive_cases topic_match_wordE: "topic_match (token # ps) ws"

lemma topic_match_hash: "topic_match ps (drop i ws) \<Longrightarrow> topic_match (''#'' # ps) ws"
proof (induction i arbitrary: ws)
  case 0
  then show ?case by (simp add: topic_match.none)
next
  case (Suc i)
  then show ?case by (cases ws) (auto intro: topic_match.intros)
qed

lemma topic_match_hash_drop:
  "topic_match pat ws \<Longrightarrow> pat = ''#'' # ps \<Longrightarrow> \<exists>i \<le> length ws. topic_match ps (drop i ws)"
proof (induction pat ws rule: topic_match.induct)
  case (none qs ws)
  then show ?case by auto
next
  case (more qs ws w)
  then obtain i where "i \<le> length ws" "topic_match ps (drop i ws)" by auto
  then show ?case by (intro exI[of _ "Suc i"]) simp
qed auto

lemma topic_match_all: "topic_match [''#''] ws"
  using topic_match_hash[of "[]" "length ws" ws] by (simp add: topic_match.nil)

lemma match_tokens_sound: "match_tokens ps ws \<Longrightarrow> topic_match ps ws"
proof (induction ps arbitrary: ws)
  case Nil
  then show ?case by (simp add: topic_match.nil)
next
  case (Cons token ps)
  show ?case
  proof (cases "token = ''#''")
    case True
    show ?thesis
    proof (cases "ps = []")
      case True
      then show ?thesis using \<open>token = ''#''\<close> topic_match_all by simp
    next
      case False
      then obtain i where "match_tokens ps (drop i ws)"
        using Cons.prems True by (auto simp: list_ex_iff simp del: upt_Suc)
      then show ?thesis using Cons.IH True topic_match_hash by blast
    qed
  next
    case False
    then show ?thesis using Cons by (auto intro: topic_match.word split: list.splits if_splits)
  qed
qed

lemma match_tokens_complete: "topic_match ps ws \<Longrightarrow> match_tokens ps ws"
proof (induction ps arbitrary: ws)
  case Nil
  then show ?case by (auto elim: topic_match_nilE)
next
  case (Cons token ps)
  show ?case
  proof (cases "token = ''#''")
    case True
    then obtain i where i: "i \<le> length ws" "topic_match ps (drop i ws)"
      using Cons.prems topic_match_hash_drop by blast
    then have "match_tokens ps (drop i ws)" using Cons.IH by blast
    then show ?thesis using True i(1) by (auto simp: list_ex_iff simp del: upt_Suc)
  next
    case False
    then show ?thesis using Cons by (auto elim!: topic_match_wordE)
  qed
qed

section \<open>Queues are first in first out\<close>

locale fifo =
  fixes put :: "'m \<Rightarrow> 'q \<Rightarrow> 'q" and get :: "'q \<Rightarrow> ('m \<times> 'q) option" and contents :: "'q \<Rightarrow> 'm list"
  assumes put_law: "contents (put m q) = contents q @ [m]"
    and get_None: "get q = None \<Longrightarrow> contents q = []"
    and get_Some: "get q = Some (m, q') \<Longrightarrow> contents q = m # contents q'"
begin

lemma puts_law: "contents (fold put ms q) = contents q @ ms"
  by (induction ms arbitrary: q) (simp_all add: put_law)

lemma get_oldest:
  assumes "contents q = []"
  shows "\<exists>q'. get (fold put (m # ms) q) = Some (m, q') \<and> contents q' = ms"
proof -
  have c: "contents (fold put (m # ms) q) = m # ms" using puts_law[of "m # ms" q] assms by simp
  then have "get (fold put (m # ms) q) \<noteq> None" using get_None by fastforce
  then obtain x q' where g: "get (fold put (m # ms) q) = Some (x, q')" by auto
  with get_Some[OF g] c show ?thesis by simp
qed

end

definition queue_contents :: "string \<Rightarrow> broker \<Rightarrow> pydict list" where
  "queue_contents name b = dict_get_default (bk_queues b) name []"

lemma queue_contents_put:
  "queue_contents n (queue_put name m b) = queue_contents n b @ (if n = name then [m] else [])"
  by (simp add: queue_contents_def queue_put_def dict_get_default_def)

interpretation queue: fifo "queue_put name" "queue_get name" "queue_contents name" for name
proof unfold_locales
  show "queue_contents name (queue_put name m q) = queue_contents name q @ [m]" for m q
    by (simp add: queue_contents_put)
qed (auto simp: queue_get_def queue_contents_def dict_get_default_def split: list.splits option.splits)

section \<open>The broker invariant\<close>

definition broker_ok :: "broker \<Rightarrow> bool" where
  "broker_ok b \<longleftrightarrow> dict_wf (bk_queues b) \<and> dict_wf (bk_bindings b)
     \<and> list_all (\<lambda>(p, qs). list_all (\<lambda>q. dict_get (bk_queues b) q \<noteq> None) qs) (bk_bindings b)"

lemma dict_set_mem:
  "x \<in> set (dict_set k v d) \<Longrightarrow> x = (k, v) \<or> x \<in> set d"
  by (induction k v d rule: dict_set.induct) (auto split: if_splits)

lemma broker_ok_new: "broker_ok new_broker"
  by (simp add: broker_ok_def new_broker_def)

lemma broker_ok_queues:
  assumes "broker_ok b" and "\<And>q. dict_get (bk_queues b) q \<noteq> None \<Longrightarrow> dict_get qs q \<noteq> None" and "dict_wf qs"
  shows "broker_ok (b\<lparr>bk_queues := qs\<rparr>)"
  using assms unfolding broker_ok_def list_all_iff by fastforce

lemma declare_queue_ok: "broker_ok b \<Longrightarrow> declare_queue n b = Inr b' \<Longrightarrow> broker_ok b'"
  by (auto simp: declare_queue_def intro!: broker_ok_queues split: if_splits)
    (auto simp: broker_ok_def)

lemma declare_queue_declares: "declare_queue n b = Inr b' \<Longrightarrow> dict_get (bk_queues b') n \<noteq> None"
  by (auto simp: declare_queue_def split: if_splits)

lemma bind_queue_ok:
  assumes "broker_ok b" and "bind_queue r n b = Inr b'"
  shows "broker_ok b'"
proof -
  from assms(2) obtain b1 where b1: "declare_queue n b = Inr b1"
    and b': "b' = b1\<lparr>bk_bindings := dict_set r
       (let bound = dict_get_default (bk_bindings b1) r [] in if n \<in> set bound then bound else bound @ [n])
       (bk_bindings b1)\<rparr>"
    by (auto simp: bind_queue_def result_simps Let_def split: if_splits)
  have ok: "broker_ok b1" using declare_queue_ok[OF assms(1) b1] .
  have "\<forall>q \<in> set (dict_get_default (bk_bindings b1) r []). dict_get (bk_queues b1) q \<noteq> None"
  proof (cases "dict_get (bk_bindings b1) r")
    case (Some qs)
    then have "(r, qs) \<in> set (bk_bindings b1)" by (rule map_of_SomeD)
    then show ?thesis using ok Some by (auto simp: broker_ok_def dict_get_default_def list_all_iff)
  qed (simp add: dict_get_default_def)
  then show ?thesis
    using ok declare_queue_declares[OF b1]
    by (auto simp: b' broker_ok_def list_all_iff Let_def dest!: dict_set_mem split: if_splits)
qed

lemma queue_put_ok: "broker_ok b \<Longrightarrow> broker_ok (queue_put name m b)"
  unfolding queue_put_def by (rule broker_ok_queues) (auto simp: broker_ok_def)

lemma queue_puts_declared:
  "dict_get (bk_queues b) name \<noteq> None \<Longrightarrow> dict_get (bk_queues (fold (queue_put name) ms b)) name \<noteq> None"
  by (induction ms arbitrary: b) (auto simp: queue_put_def)

lemma bindings_queue_put [simp]: "bk_bindings (queue_put name m b) = bk_bindings b"
  by (simp add: queue_put_def)

lemma from_topology_ok: "from_topology payload = Inr b \<Longrightarrow> broker_ok b"
proof -
  assume "from_topology payload = Inr b"
  then obtain qs b1 bs where q: "rfold topology_queue new_broker qs = Inr b1"
    and r: "rfold topology_binding b1 bs = Inr b"
    by (auto simp: from_topology_def result_simps)
  from q have "broker_ok b1"
    by (rule rfold_invariant)
      (auto simp: broker_ok_new topology_queue_def declare_queue_ok split: pyval.splits option.splits)
  from r this show ?thesis
    by (rule rfold_invariant)
      (auto simp: topology_binding_def bind_queue_ok split: pyval.splits option.splits)
qed

text \<open>A queue receives a message when a binding matches or it is named like the routing key.\<close>

definition routed :: "broker \<Rightarrow> string \<Rightarrow> string \<Rightarrow> bool" where
  "routed b rk q \<longleftrightarrow> list_ex (\<lambda>(p, qs). topic_matches p rk \<and> q \<in> set qs) (bk_bindings b)
     \<or> q = rk \<and> dict_get (bk_queues b) rk \<noteq> None"

lemma resolve_queues_set:
  assumes "broker_ok b"
  shows "distinct (resolve_queues rk b)"
    and "q \<in> set (resolve_queues rk b) \<longleftrightarrow> routed b rk q"
    and "q \<in> set (resolve_queues rk b) \<Longrightarrow> dict_get (bk_queues b) q \<noteq> None"
proof -
  show "distinct (resolve_queues rk b)" by (simp add: resolve_queues_def Let_def)
  show m: "q \<in> set (resolve_queues rk b) \<longleftrightarrow> routed b rk q"
    by (fastforce simp: resolve_queues_def routed_def list_ex_iff Let_def split: if_splits)
  show "q \<in> set (resolve_queues rk b) \<Longrightarrow> dict_get (bk_queues b) q \<noteq> None"
    using assms unfolding m routed_def list_ex_iff by (fastforce simp: broker_ok_def list_all_iff)
qed

lemma publish_to_delivers:
  assumes "\<And>q. q \<in> set names \<Longrightarrow> dict_get (bk_queues b) q \<noteq> None" and "distinct names"
  shows "\<exists>ps b'. publish_to rk m names b = Inr (ps, b') \<and> map pm_queue ps = names
    \<and> bk_bindings b' = bk_bindings b \<and> (\<forall>q. (dict_get (bk_queues b') q = None) = (dict_get (bk_queues b) q = None))
    \<and> (\<forall>q. queue_contents q b' = queue_contents q b @ (if q \<in> set names then [m] else []))
    \<and> (broker_ok b \<longrightarrow> broker_ok b')"
  using assms
proof (induction names arbitrary: b)
  case Nil
  then show ?case by simp
next
  case (Cons n names)
  have "\<And>q. q \<in> set names \<Longrightarrow> dict_get (bk_queues (queue_put n m b)) q \<noteq> None"
    using Cons.prems(1) by (simp add: queue_put_def)
  then obtain ps b' where p: "publish_to rk m names (queue_put n m b) = Inr (ps, b')" "map pm_queue ps = names"
    "bk_bindings b' = bk_bindings (queue_put n m b)"
    "\<forall>q. (dict_get (bk_queues b') q = None) = (dict_get (bk_queues (queue_put n m b)) q = None)"
    "\<forall>q. queue_contents q b' = queue_contents q (queue_put n m b) @ (if q \<in> set names then [m] else [])"
    "broker_ok (queue_put n m b) \<longrightarrow> broker_ok b'"
    using Cons.IH[of "queue_put n m b"] Cons.prems(2) by auto
  have n: "dict_get (bk_queues b) n \<noteq> None" using Cons.prems(1) by simp
  then have "(dict_get (bk_queues (queue_put n m b)) q = None) = (dict_get (bk_queues b) q = None)" for q
    by (simp add: queue_put_def)
  then show ?case
    using p n Cons.prems(2) queue_put_ok[of b n m]
    by (auto simp: queue_contents_put)
qed

text \<open>What the other services rely on when they publish.\<close>

lemma broker_publish_returns:
  assumes ok: "broker_ok b"
  shows "returns (\<lambda>(ps, b'). broker_ok b' \<and> map pm_queue ps = resolve_queues rk b
      \<and> (\<forall>k q. routed b' k q = routed b k q)
      \<and> (\<forall>q. queue_contents q b' = queue_contents q b @ (if routed b rk q then [m] else [])))
    (broker_publish rk (PDict m) b)"
proof -
  have "dict_get (bk_queues b) q \<noteq> None" if "q \<in> set (resolve_queues rk b)" for q
    using resolve_queues_set(3)[OF ok that] .
  from publish_to_delivers[OF this resolve_queues_set(1)[OF ok]] obtain ps b' where
    p: "publish_to rk m (resolve_queues rk b) b = Inr (ps, b')" "map pm_queue ps = resolve_queues rk b"
      "bk_bindings b' = bk_bindings b" "\<forall>q. (dict_get (bk_queues b') q = None) = (dict_get (bk_queues b) q = None)"
      "\<forall>q. queue_contents q b' = queue_contents q b @ (if q \<in> set (resolve_queues rk b) then [m] else [])"
      "broker_ok b \<longrightarrow> broker_ok b'"
    by blast
  have "routed b' k q = routed b k q" for k q using p(3,4) by (simp add: routed_def)
  then show ?thesis
    unfolding broker_publish_def pyval.case p(1) returns_def sum.case prod.case
    using p(2,5,6) ok unfolding resolve_queues_set(2)[OF ok] by blast
qed

section \<open>Properties\<close>

text \<open>C27: A topic pattern means what AMQP says: \<open>*\<close> stands for one word and \<open>#\<close> for any number of words;
  the recursive matcher of the broker decides exactly this relation.\<close>

theorem topic_matches_iff:
  "topic_matches pattern routing_key =
     topic_match (split_on (CHR ''.'') pattern) (split_on (CHR ''.'') routing_key)"
  unfolding topic_matches_def using match_tokens_sound match_tokens_complete by blast

lemma consume_received:
  assumes "broker_ok b" "broker_consume q t b = Inr (Received m, b')"
  shows "broker_ok b' \<and> (\<forall>k q'. routed b' k q' = routed b k q') \<and> queue_contents q b = m # queue_contents q b'
    \<and> (\<forall>q'. q' \<noteq> q \<longrightarrow> queue_contents q' b' = queue_contents q' b)"
proof -
  have g: "queue_get q b = Some (m, b')" and dq: "dict_get (bk_queues b) q \<noteq> None"
    using assms(2) by (auto simp: broker_consume_def split: if_splits option.splits)
  then obtain ms where b': "b' = b\<lparr>bk_queues := dict_set q ms (bk_queues b)\<rparr>"
    by (auto simp: queue_get_def split: list.splits)
  have "broker_ok b'" unfolding b' by (rule broker_ok_queues[OF assms(1)]) (use assms(1) in \<open>auto simp: broker_ok_def\<close>)
  moreover have "routed b' k q' = routed b k q'" for k q' using dq by (auto simp: routed_def b')
  moreover have "queue_contents q' b' = queue_contents q' b" if "q' \<noteq> q" for q'
    using that by (simp add: queue_contents_def b' dict_get_default_def)
  ultimately show ?thesis using queue.get_Some[OF g] by simp
qed

lemma consume_other:
  assumes "broker_consume q t b = Inr (c, b')" "c \<in> {Nothing, Waits}"
  shows "b' = b"
  using assms by (auto simp: broker_consume_def split: if_splits option.splits)

text \<open>C29: Publishing a message to a broker built from any topology never fails and appends the message
  once to exactly the queues that are bound by a matching pattern or named like the routing key;
  every other queue is unchanged, and the report lists the queues served.\<close>

theorem publish_delivers_exactly:
  assumes ok: "broker_ok b"
  shows "returns (\<lambda>(ps, b'). broker_ok b' \<and> map pm_queue ps = resolve_queues rk b
      \<and> (\<forall>q. queue_contents q b' = queue_contents q b @ (if routed b rk q then [m] else [])))
    (broker_publish rk (PDict m) b)"
  using broker_publish_returns[OF ok, of rk m] by (auto simp: returns_iff)

definition sample_topology :: pydict where
  "sample_topology =
     [(''queues'', PList [PDict [(''name'', PStr ''oms'')], PDict [(''name'', PStr ''audit'')]]),
      (''bindings'', PList [PDict [(''queue'', PStr ''oms''), (''routing_key'', PStr ''oms.order.*'')],
                           PDict [(''queue'', PStr ''audit''), (''routing_key'', PStr ''oms.#'')]])]"

theorem publish_delivers_exactly_witness:
  "returns (\<lambda>b. returns (\<lambda>(ps, b'). map pm_queue ps = [''audit'', ''oms'']
       \<and> queue_contents ''oms'' b' = [[(''k'', PInt 1)]]) (broker_publish ''oms.order.mock'' (PDict [(''k'', PInt 1)]) b))
    (from_topology sample_topology)"
proof -
  have "returns (\<lambda>b. resolve_queues ''oms.order.mock'' b = [''audit'', ''oms''] \<and> queue_contents ''oms'' b = []
      \<and> routed b ''oms.order.mock'' ''oms'') (from_topology sample_topology)" by code_simp
  then obtain b where b: "from_topology sample_topology = Inr b"
    "resolve_queues ''oms.order.mock'' b = [''audit'', ''oms'']" "queue_contents ''oms'' b = []"
    "routed b ''oms.order.mock'' ''oms''"
    by (auto elim: returnsE)
  from publish_delivers_exactly[OF from_topology_ok[OF b(1)], of "''oms.order.mock''" "[(''k'', PInt 1)]"]
  obtain ps b' where "broker_publish ''oms.order.mock'' (PDict [(''k'', PInt 1)]) b = Inr (ps, b')"
    "map pm_queue ps = [''audit'', ''oms'']" "queue_contents ''oms'' b' = [[(''k'', PInt 1)]]"
    using b(2-4) by (auto simp: returns_iff)
  then show ?thesis by (simp add: returns_def b(1))
qed

text \<open>Every queue is first in first out: after publishing a sequence of messages to an empty queue the
  next message consumed is the oldest one, and the others remain in order.\<close>

theorem queue_is_fifo:
  assumes "queue_contents name b = []" and "dict_get (bk_queues b) name \<noteq> None"
  shows "\<exists>b'. broker_consume name timeout (fold (queue_put name) (m # ms) b) = Inr (Received m, b')
    \<and> queue_contents name b' = ms"
proof -
  obtain b' where "queue_get name (fold (queue_put name) (m # ms) b) = Some (m, b')"
    "queue_contents name b' = ms"
    using queue.get_oldest[OF assms(1)] by blast
  moreover have "dict_get (bk_queues (fold (queue_put name) (m # ms) b)) name \<noteq> None"
    by (rule queue_puts_declared[OF assms(2)])
  ultimately show ?thesis unfolding broker_consume_def by (simp del: fold_simps)
qed

theorem queue_is_fifo_witness:
  "\<exists>b'. broker_consume ''q'' None (fold (queue_put ''q'') [[(''a'', PInt 1)], [(''a'', PInt 2)]]
      \<lparr>bk_queues = [(''q'', [])], bk_bindings = []\<rparr>) = Inr (Received [(''a'', PInt 1)], b')"
  using queue_is_fifo[of "''q''" "\<lparr>bk_queues = [(''q'', [])], bk_bindings = []\<rparr>" None "[(''a'', PInt 1)]"
      "[[(''a'', PInt 2)]]"]
  by (auto simp: queue_contents_def dict_get_default_def)

end
