(* ===== verification/Notify_Events.thy ===== *)
theory Notify_Events
  imports Shared_Envelope Shared_Broker Py_Hash
begin

text \<open>
  Notification events: the data of \<open>services/notification_service/models.py\<close>, the intake that turns
  an envelope into an event with a severity (\<open>event_intake.py\<close>) and the bridge through which the
  other services publish notifications (\<open>publishers.py\<close>). The random identifier and the clock
  readings of the bridge are arguments. The lemmas show that whatever the bridge publishes is a
  valid envelope, and that the intake reads back the severity the bridge determined.
\<close>

section \<open>Data\<close>

datatype severity = INFO | WARNING | CRITICAL

fun severity_value :: "severity \<Rightarrow> string" where
  "severity_value INFO = ''INFO''"
| "severity_value WARNING = ''WARNING''"
| "severity_value CRITICAL = ''CRITICAL''"

fun severity_rank :: "severity \<Rightarrow> int" where
  "severity_rank INFO = 1"
| "severity_rank WARNING = 2"
| "severity_rank CRITICAL = 3"

record notification_event =
  ne_id :: string
  ne_trace_id :: string
  ne_decision_id :: string
  ne_mode :: string
  ne_event_type :: string
  ne_severity :: severity
  ne_idempotency_key :: string
  ne_emitted_at :: string
  ne_service :: string
  ne_payload :: pydict

record notification_preference =
  np_user_id :: string
  np_min_severity :: severity
  np_gateways :: "string list"
  np_strategy_ids :: "string list"
  np_event_types :: "string list"

record notification_message =
  nm_message_id :: string
  nm_user_id :: string
  nm_gateway :: string
  nm_severity :: severity
  nm_title :: string
  nm_body :: string
  nm_metadata :: pydict

record delivery_result =
  dr_message_id :: string
  dr_gateway :: string
  dr_status :: string
  dr_attempt :: int
  dr_detail :: "string option"

record processing_result =
  pr_event :: notification_event
  pr_messages :: "notification_message list"
  pr_results :: "delivery_result list"

section \<open>Severity\<close>

definition declared_severity :: "pydict \<Rightarrow> severity option" where
  "declared_severity payload = (case dict_get payload ''severity'' of
      Some (PStr declared) \<Rightarrow>
        (let normalized = norm_upper declared in
         if normalized = ''INFO'' then Some INFO
         else if normalized = ''WARNING'' then Some WARNING
         else if normalized = ''CRITICAL'' then Some CRITICAL else None)
    | _ \<Rightarrow> None)"

definition classify_severity :: "string \<Rightarrow> pydict \<Rightarrow> severity" where
  "classify_severity event_type payload =
     (let lowered = py_lower event_type;
          urgent = (str_contains ''kill_switch'' lowered \<or> str_contains ''tripped'' lowered) in
      if starts_with ''risk.'' lowered then (if urgent then CRITICAL else WARNING)
      else if starts_with ''notify.risk.'' lowered then
        (case declared_severity payload of
           Some declared \<Rightarrow> declared
         | None \<Rightarrow> if urgent then CRITICAL else WARNING)
      else if starts_with ''system.'' lowered \<or> starts_with ''notify.system.'' lowered then CRITICAL
      else if starts_with ''oms.order.'' lowered then
        (if list_ex (\<lambda>token. str_contains token lowered) [''rejected'', ''cancel'', ''expired'']
         then WARNING else INFO)
      else if starts_with ''agent.decision'' lowered then
        (if str_contains ''rejected'' lowered then WARNING else INFO)
      else (case declared_severity payload of Some declared \<Rightarrow> declared | None \<Rightarrow> INFO))"

section \<open>Intake\<close>

definition normalize_event :: "pyval \<Rightarrow> notification_event result" where
  "normalize_event envelope =
     rbind (validate_envelope envelope) (\<lambda>_.
     let env = as_dict envelope in
     rbind (pindex env ''event_type'') (\<lambda>et.
     rbind (pindex env ''payload'') (\<lambda>payload_obj.
     rbind (pindex env ''idempotency_key'') (\<lambda>key.
     let event_type = py_str et; payload = as_dict payload_obj;
         severity = classify_severity event_type payload in
     rbind (pindex env ''trace_id'') (\<lambda>trace_id.
     rbind (pindex env ''decision_id'') (\<lambda>decision_id.
     rbind (pindex env ''mode'') (\<lambda>mode.
     rbind (pindex env ''emitted_at'') (\<lambda>emitted_at.
     Inr \<lparr>ne_id = uuid5_url (''notify:'' @ py_str key @ '':'' @ event_type @ '':'' @ severity_value severity),
       ne_trace_id = py_str trace_id, ne_decision_id = py_str decision_id, ne_mode = py_str mode,
       ne_event_type = event_type, ne_severity = severity, ne_idempotency_key = py_str key,
       ne_emitted_at = py_str emitted_at, ne_service = py_str (pget env ''service'' (PStr ''unknown'')),
       ne_payload = payload\<rparr>))))))))"

text \<open>\<open>stable_hash\<close> joins the characters of its one string argument.\<close>

definition stable_hash :: "string \<Rightarrow> string" where
  "stable_hash values = sha256_hex (join_with ''|'' (map (\<lambda>c. [c]) values))"

section \<open>Bridge\<close>

record notification_bridge =
  nb_routing_key :: string
  nb_service_name :: string

definition safe_uuid :: "string \<Rightarrow> string \<Rightarrow> string" where
  "safe_uuid v prefix = (if uuid_ok v then v else uuid5_url (prefix @ '':'' @ v))"

definition notification_envelope ::
    "notification_bridge \<Rightarrow> string \<Rightarrow> int \<Rightarrow> pydict \<Rightarrow> string \<Rightarrow> pydict" where
  "notification_envelope bridge fresh_uuid now source notification_event_type =
     (let trace_id = safe_uuid (py_str (pget source ''trace_id'' (PStr []))) ''trace'';
          decision_id = safe_uuid (py_str (pget source ''decision_id'' (PStr []))) ''decision'';
          mode0 = norm_upper (py_str (pget source ''mode'' (PStr ''REAL'')));
          mode = (if mode0 = [] then ''REAL'' else mode0);
          key0 = py_str (pget source ''idempotency_key'' (PStr []));
          idempotency_key = (if key0 = [] then fresh_uuid else key0);
          source_event_type = py_str (pget source ''event_type'' (PStr ''unknown''));
          payload = as_dict (pget source ''payload'' PNone);
          severity = severity_value (classify_severity source_event_type payload)
      in [(''trace_id'', PStr trace_id), (''decision_id'', PStr decision_id),
          (''mode'', PStr (if mode \<in> {''MOCK'', ''REAL''} then mode else ''REAL'')),
          (''idempotency_key'', PStr (''notify:'' @ notification_event_type @ '':'' @ idempotency_key)),
          (''event_type'', PStr notification_event_type), (''severity'', PStr severity),
          (''emitted_at'', PStr (py_str (pget source ''emitted_at'' (PStr (iso_utc now))))),
          (''payload'', PDict [
             (''source_event_type'', PStr source_event_type),
             (''source_service'', PStr (py_str (pget source ''service'' (PStr ''unknown'')))),
             (''source_payload'', PDict payload), (''severity'', PStr severity)]),
          (''service'', PStr (nb_service_name bridge))])"

definition publish_from_source ::
    "notification_bridge \<Rightarrow> string \<Rightarrow> int \<Rightarrow> pydict \<Rightarrow> string \<Rightarrow> broker \<Rightarrow> (pydict \<times> broker) result" where
  "publish_from_source bridge fresh_uuid now source notification_event_type b =
     (let env = notification_envelope bridge fresh_uuid now source notification_event_type in
      rbind (validate_envelope (PDict env)) (\<lambda>_.
      rbind (broker_publish (nb_routing_key bridge) (PDict env) b) (\<lambda>(_, b'). Inr (env, b'))))"

definition publish_strategy_event ::
    "notification_bridge \<Rightarrow> string \<Rightarrow> int \<Rightarrow> pydict \<Rightarrow> broker \<Rightarrow> (pydict \<times> broker) result" where
  "publish_strategy_event bridge fresh_uuid now source b =
     publish_from_source bridge fresh_uuid now source ''notify.strategy.event'' b"

definition publish_oms_event ::
    "notification_bridge \<Rightarrow> string \<Rightarrow> int \<Rightarrow> pydict \<Rightarrow> broker \<Rightarrow> (pydict \<times> broker) result" where
  "publish_oms_event bridge fresh_uuid now source b =
     publish_from_source bridge fresh_uuid now source ''notify.oms.event'' b"

definition publish_risk_event ::
    "notification_bridge \<Rightarrow> string \<Rightarrow> int \<Rightarrow> pydict \<Rightarrow> broker \<Rightarrow> (pydict \<times> broker) result" where
  "publish_risk_event bridge fresh_uuid now source b =
     publish_from_source bridge fresh_uuid now source ''notify.risk.event'' b"

definition publish_system_health_event ::
    "notification_bridge \<Rightarrow> string \<Rightarrow> int \<Rightarrow> int \<Rightarrow> string \<Rightarrow> string \<Rightarrow> string \<Rightarrow> string \<Rightarrow> string \<Rightarrow> pydict
      \<Rightarrow> broker \<Rightarrow> (pydict \<times> broker) result" where
  "publish_system_health_event bridge fresh_uuid now now' trace_id mode event_type severity reason details b =
     (let source = [
        (''trace_id'', PStr (safe_uuid trace_id ''trace'')),
        (''decision_id'', PStr (uuid5_url (''system:'' @ event_type @ '':'' @ reason))),
        (''mode'', PStr mode),
        (''idempotency_key'', PStr (''system:'' @ event_type @ '':'' @ reason)),
        (''event_type'', PStr event_type), (''emitted_at'', PStr (iso_utc now)),
        (''payload'', PDict [(''reason'', PStr reason), (''details'', PDict details), (''severity'', PStr severity)]),
        (''service'', PStr ''system_health'')]
      in publish_from_source bridge fresh_uuid now' source ''notify.system.event'' b)"

section \<open>Published notifications are valid\<close>

lemma safe_uuid_ok: "uuid_ok (safe_uuid v prefix)"
  by (simp add: safe_uuid_def uuid5_url_ok)

text \<open>The time stamp of the source, if it has one, is the only field that can be rejected.\<close>

definition source_time_ok :: "pydict \<Rightarrow> bool" where
  "source_time_ok source = (case dict_get source ''emitted_at'' of None \<Rightarrow> True | Some v \<Rightarrow> timestamp_ok (py_str v))"

lemma bridge_types: "py_strip ''notify.strategy.event'' \<noteq> []" "py_strip ''notify.oms.event'' \<noteq> []"
  "py_strip ''notify.risk.event'' \<noteq> []" "py_strip ''notify.system.event'' \<noteq> []"
  by (simp_all add: py_strip_def strip_chars_empty is_space_def)

lemma notification_envelope_ok:
  assumes "in_range now" "py_strip net \<noteq> []"
  shows "envelope_ok (PDict (notification_envelope bridge fresh now source net)) \<longleftrightarrow> source_time_ok source"
proof -
  have k: "non_empty_text (PStr (CHR ''n'' # s))" for s
    by (simp add: non_empty_text_def py_strip_def strip_chars_empty is_space_def)
  have t: "timestamp_ok (py_str (pget source ''emitted_at'' (PStr (iso_utc now)))) \<longleftrightarrow> source_time_ok source"
    using timestamp_ok_iso[OF assms(1)]
    by (auto simp: source_time_ok_def pget_def dict_get_default_def split: option.splits)
  have e: "non_empty_text (PStr net)" using assms(2) by (simp add: non_empty_text_def)
  show ?thesis
    unfolding notification_envelope_def Let_def envelope_ok_def
    by (simp add: uuid_field_def text_field_def time_field_def safe_uuid_ok k t e)
qed

section \<open>Severity survives the bridge\<close>

lemma declared_severity_value:
  "dict_get d ''severity'' = Some (PStr (severity_value s)) \<Longrightarrow> declared_severity d = Some s"
  by (cases s) (simp_all add: declared_severity_def norm_upper_def py_strip_def strip_chars_def py_upper_def
      upper_char_def is_space_def)

lemma classify_bridge_types:
  assumes "net \<in> {''notify.strategy.event'', ''notify.oms.event'', ''notify.risk.event''}" "declared_severity p = Some s"
  shows "classify_severity net p = s"
  using assms by (auto simp: classify_severity_def py_lower_def lower_char_def)

lemma classify_system_event: "classify_severity ''notify.system.event'' p = CRITICAL"
  by (simp add: classify_severity_def py_lower_def lower_char_def)

text \<open>Severity of a source message, as the bridge determines it.\<close>

definition source_severity :: "pydict \<Rightarrow> severity" where
  "source_severity source = classify_severity (py_str (pget source ''event_type'' (PStr ''unknown'')))
     (as_dict (pget source ''payload'' PNone))"

lemma normalize_event_ok:
  assumes "envelope_ok (PDict env)" "dict_get env ''event_type'' = Some (PStr et)" "dict_get env ''payload'' = Some (PDict p)"
  shows "returns (\<lambda>e. ne_severity e = classify_severity et p \<and> ne_event_type e = et) (normalize_event (PDict env))"
  using assms(1)
proof (rule envelope_okE)
  fix d t di m k et' ea pl
  assume f: "PDict env = PDict d" "dict_get d ''trace_id'' = Some (PStr t)"
    "dict_get d ''decision_id'' = Some (PStr di)" "dict_get d ''mode'' = Some (PStr m)"
    "dict_get d ''idempotency_key'' = Some (PStr k)" "dict_get d ''emitted_at'' = Some (PStr ea)"
  have "validate_envelope (PDict env) = Inr ()" using assms(1) by (simp add: validate_envelope_iff)
  then show ?thesis using f assms(2,3) by (simp add: normalize_event_def pindex_def returns_def Let_def)
qed

lemma publish_from_source_returns:
  assumes "broker_ok b" "in_range now" "py_strip net \<noteq> []" "source_time_ok source"
  shows "returns (\<lambda>(env, b'). env = notification_envelope bridge fresh now source net \<and> broker_ok b'
      \<and> envelope_ok (PDict env)
      \<and> (\<forall>q. queue_contents q b' = queue_contents q b @ (if routed b (nb_routing_key bridge) q then [env] else [])))
    (publish_from_source bridge fresh now source net b)"
proof -
  let ?env = "notification_envelope bridge fresh now source net"
  have ok: "envelope_ok (PDict ?env)" using notification_envelope_ok assms(2-4) by blast
  then have v: "validate_envelope (PDict ?env) = Inr ()" by (simp add: validate_envelope_iff)
  show ?thesis unfolding publish_from_source_def Let_def v rbind_simps
    by (rule returns_rbind[OF broker_publish_returns[OF assms(1)]]) (auto simp: returns_def ok)
qed

section \<open>Properties\<close>

text \<open>C34: A strategy, order or risk message published through the bridge reaches every subscribed queue as a
  valid envelope, and the notification service reads from it exactly the severity the source
  message has.\<close>

theorem bridge_severity_round_trip:
  assumes "broker_ok b" and "in_range now" and "source_time_ok source"
    and "net \<in> {''notify.strategy.event'', ''notify.oms.event'', ''notify.risk.event''}"
  shows "returns (\<lambda>(env, b'). broker_ok b'
      \<and> (\<forall>q. queue_contents q b' = queue_contents q b @ (if routed b (nb_routing_key bridge) q then [env] else []))
      \<and> returns (\<lambda>e. ne_severity e = source_severity source \<and> ne_event_type e = net) (normalize_event (PDict env)))
    (publish_from_source bridge fresh now source net b)"
proof -
  have net: "py_strip net \<noteq> []" using assms(4) bridge_types by auto
  let ?env = "notification_envelope bridge fresh now source net"
  have f: "dict_get ?env ''event_type'' = Some (PStr net)" "\<exists>p. dict_get ?env ''payload'' = Some (PDict p)
      \<and> dict_get p ''severity'' = Some (PStr (severity_value (source_severity source)))"
    by (simp_all add: notification_envelope_def Let_def source_severity_def)
  then obtain p where p: "dict_get ?env ''payload'' = Some (PDict p)"
    "dict_get p ''severity'' = Some (PStr (severity_value (source_severity source)))" by auto
  have "classify_severity net p = source_severity source"
    by (rule classify_bridge_types[OF assms(4) declared_severity_value[OF p(2)]])
  then show ?thesis
    using publish_from_source_returns[OF assms(1,2) net assms(3), of bridge fresh]
      normalize_event_ok[OF _ f(1) p(1)] by (fastforce simp: returns_iff)
qed

theorem bridge_severity_round_trip_witness:
  "returns (\<lambda>(env, b'). queue_contents ''notify.events.raw'' b' = [env]
      \<and> returns (\<lambda>e. ne_severity e = CRITICAL) (normalize_event (PDict env)))
    (publish_from_source \<lparr>nb_routing_key = ''notify.events.raw'', nb_service_name = ''notification_bridge''\<rparr> ''u'' 0
      [(''event_type'', PStr ''risk.kill_switch.enabled''), (''emitted_at'', PStr ''2025-01-01T00:00:00Z'')]
      ''notify.risk.event'' \<lparr>bk_queues = [(''notify.events.raw'', [])], bk_bindings = []\<rparr>)"
    (is "returns _ (publish_from_source ?br _ _ ?src _ ?b)")
proof -
  have "broker_ok ?b" "in_range 0" "source_time_ok ?src" "source_severity ?src = CRITICAL"
    "routed ?b ''notify.events.raw'' ''notify.events.raw''" "queue_contents ''notify.events.raw'' ?b = []"
    by code_simp+
  then show ?thesis
    using bridge_severity_round_trip[of ?b 0 ?src "''notify.risk.event''" ?br "''u''"]
    by (fastforce simp: returns_iff)
qed

end
