(* ===== verification/Sim_Worker.thy ===== *)
theory Sim_Worker
  imports Sim_Engine Notify_Events
begin

text \<open>
  The worker that takes intents from the broker, executes them and publishes the resulting events
  (\<open>services/simulation_execution/worker.py\<close>), with its metrics (\<open>metrics_tracing.py\<close>). The bridge
  for notifications, when there is one, publishes to the same broker. Clock readings, latencies
  and random identifiers are arguments, indexed by the position of the event they are read for.
  The lemmas show what one cycle does to the queues and that every consumed intent is counted.
\<close>

section \<open>Metrics\<close>

record execution_span =
  es_trace_id :: string
  es_decision_id :: string
  es_mode :: string
  es_stage :: string
  es_status :: string
  es_latency_ms :: pyfloat
  es_error_type :: "exc_class option"
  es_started_at :: string
  es_completed_at :: string

record sim_metrics =
  sm_runs_total :: int
  sm_success_total :: int
  sm_failure_total :: int
  sm_events_published_total :: int
  sm_latencies_ms :: "pyfloat list"
  sm_spans :: "execution_span list"

definition new_metrics :: sim_metrics where
  "new_metrics = \<lparr>sm_runs_total = 0, sm_success_total = 0, sm_failure_total = 0, sm_events_published_total = 0,
     sm_latencies_ms = [], sm_spans = []\<rparr>"

definition sim_record_success ::
    "string \<Rightarrow> string \<Rightarrow> string \<Rightarrow> string \<Rightarrow> pyfloat \<Rightarrow> int \<Rightarrow> string \<Rightarrow> string \<Rightarrow> sim_metrics \<Rightarrow> sim_metrics" where
  "sim_record_success trace_id decision_id mode stage latency_ms events_published started_at completed_at m =
     m\<lparr>sm_runs_total := sm_runs_total m + 1, sm_success_total := sm_success_total m + 1,
       sm_events_published_total := sm_events_published_total m + max 0 events_published,
       sm_latencies_ms := sm_latencies_ms m @ [latency_ms],
       sm_spans := sm_spans m @ [\<lparr>es_trace_id = trace_id, es_decision_id = decision_id, es_mode = mode,
         es_stage = stage, es_status = ''succeeded'', es_latency_ms = latency_ms, es_error_type = None,
         es_started_at = started_at, es_completed_at = completed_at\<rparr>]\<rparr>"

definition sim_record_failure ::
    "string \<Rightarrow> string \<Rightarrow> string \<Rightarrow> string \<Rightarrow> pyfloat \<Rightarrow> exc_class \<Rightarrow> string \<Rightarrow> string \<Rightarrow> sim_metrics \<Rightarrow> sim_metrics" where
  "sim_record_failure trace_id decision_id mode stage latency_ms error_type started_at completed_at m =
     m\<lparr>sm_runs_total := sm_runs_total m + 1, sm_failure_total := sm_failure_total m + 1,
       sm_latencies_ms := sm_latencies_ms m @ [latency_ms],
       sm_spans := sm_spans m @ [\<lparr>es_trace_id = trace_id, es_decision_id = decision_id, es_mode = mode,
         es_stage = stage, es_status = ''failed'', es_latency_ms = latency_ms, es_error_type = Some error_type,
         es_started_at = started_at, es_completed_at = completed_at\<rparr>]\<rparr>"

record metrics_snapshot =
  ms_runs_total :: int
  ms_success_total :: int
  ms_failure_total :: int
  ms_failure_rate :: pyfloat
  ms_events_published_total :: int
  ms_avg_latency :: "pyfloat option"
  ms_max_latency :: "pyfloat option"
  ms_recent_spans :: "execution_span list"

text \<open>\<open>sum(xs) / len(xs)\<close>, \<open>max(xs)\<close> and \<open>a / b\<close> of counters\<close>

definition float_avg :: "pyfloat list \<Rightarrow> pyfloat result" where
  "float_avg xs = fdiv (float_sum xs) (fl (of_nat (length xs)))"

definition float_max :: "pyfloat list \<Rightarrow> pyfloat" where
  "float_max xs = foldl fmax (hd xs) (tl xs)"

definition int_ratio :: "int \<Rightarrow> int \<Rightarrow> pyfloat" where
  "int_ratio a b = fl (of_int a / of_int b)"

definition sim_metrics_snapshot :: "sim_metrics \<Rightarrow> metrics_snapshot result" where
  "sim_metrics_snapshot m =
     rbind (if sm_latencies_ms m = [] then Inr None else rbind (float_avg (sm_latencies_ms m)) (\<lambda>x. Inr (Some x))) (\<lambda>avg.
     Inr \<lparr>ms_runs_total = sm_runs_total m, ms_success_total = sm_success_total m, ms_failure_total = sm_failure_total m,
       ms_failure_rate = (if sm_runs_total m = 0 then Fin 0 else int_ratio (sm_failure_total m) (sm_runs_total m)),
       ms_events_published_total = sm_events_published_total m, ms_avg_latency = avg,
       ms_max_latency = (if sm_latencies_ms m = [] then None else Some (float_max (sm_latencies_ms m))),
       ms_recent_spans = last_n 100 (sm_spans m)\<rparr>)"

section \<open>Worker\<close>

record sim_worker =
  sw_engine :: sim_engine
  sw_guard :: "string list"
  sw_metrics :: sim_metrics
  sw_bridge :: "notification_bridge option"
  sw_consume_queue :: string
  sw_publish_routing_key :: string

definition sim_worker_init :: "notification_bridge option \<Rightarrow> sim_worker" where
  "sim_worker_init bridge = \<lparr>sw_engine = sim_engine_init (Fin 3) (Fin 5), sw_guard = safety_guard_init None,
     sw_metrics = new_metrics, sw_bridge = bridge, sw_consume_queue = MOCK_ROUTING_KEY,
     sw_publish_routing_key = ''oms.order.mock''\<rparr>"

text \<open>What a cycle reads from outside: clock readings, fresh identifiers and the latency.\<close>

record cycle_env =
  ce_event_now :: "nat \<Rightarrow> int"
  ce_bridge_now :: "nat \<Rightarrow> int"
  ce_bridge_uuid :: "nat \<Rightarrow> string"
  ce_latency_ms :: pyfloat
  ce_started_at :: string
  ce_completed_at :: string

fun publish_events ::
    "string \<Rightarrow> notification_bridge option \<Rightarrow> cycle_env \<Rightarrow> nat \<Rightarrow> pyval list \<Rightarrow> broker \<Rightarrow> unit result \<times> broker" where
  "publish_events key bridge ce i [] b = (Inr (), b)"
| "publish_events key bridge ce i (event # events) b = (case broker_publish key event b of
      Inl e \<Rightarrow> (Inl e, b)
    | Inr (_, b1) \<Rightarrow> (case bridge of
        None \<Rightarrow> publish_events key bridge ce (Suc i) events b1
      | Some br \<Rightarrow> (case publish_oms_event br (ce_bridge_uuid ce i) (ce_bridge_now ce i) (as_dict event) b1 of
            Inl e \<Rightarrow> (Inl e, b1)
          | Inr (_, b2) \<Rightarrow> publish_events key bridge ce (Suc i) events b2)))"

text \<open>The guarded part of a cycle.\<close>

definition execute_and_publish :: "cycle_env \<Rightarrow> sim_worker \<Rightarrow> pydict \<Rightarrow> broker \<Rightarrow> sim_result result \<times> broker" where
  "execute_and_publish ce wk envelope b =
     (case assert_mock_intent (py_str (pget envelope ''mode'' (PStr ''unknown''))) (sw_consume_queue wk) of
        Inl e \<Rightarrow> (Inl e, b)
      | Inr _ \<Rightarrow> (case execute_intent (ce_event_now ce) (sw_engine wk) (PDict envelope) of
          Inl e \<Rightarrow> (Inl e, b)
        | Inr r \<Rightarrow> (case publish_events (sw_publish_routing_key wk) (sw_bridge wk) ce 0 (sr_events r) b of
              (Inl e, b') \<Rightarrow> (Inl e, b')
            | (Inr _, b') \<Rightarrow> (Inr r, b'))))"

datatype cycle = Idle | Blocked | Executed sim_result

definition run_once ::
    "cycle_env \<Rightarrow> pyfloat option \<Rightarrow> sim_worker \<times> broker \<Rightarrow> cycle result \<times> sim_worker \<times> broker" where
  "run_once ce timeout_seconds st = (case st of (wk, b) \<Rightarrow>
     case broker_consume (sw_consume_queue wk) timeout_seconds b of
       Inl e \<Rightarrow> (Inl e, wk, b)
     | Inr (Nothing, b') \<Rightarrow> (Inr Idle, wk, b')
     | Inr (Waits, b') \<Rightarrow> (Inr Blocked, wk, b')
     | Inr (Received envelope, b') \<Rightarrow>
        (let trace_id = py_str (pget envelope ''trace_id'' (PStr ''unknown''));
             decision_id = py_str (pget envelope ''decision_id'' (PStr ''unknown''));
             mode = py_str (pget envelope ''mode'' (PStr ''unknown''));
             stage = ''simulation_execution_worker.run_once'' in
         case execute_and_publish ce wk envelope b' of
           (Inr r, b'') \<Rightarrow> (Inr (Executed r),
             wk\<lparr>sw_metrics := sim_record_success trace_id decision_id mode stage (ce_latency_ms ce)
               (int (length (sr_events r))) (ce_started_at ce) (ce_completed_at ce) (sw_metrics wk)\<rparr>, b'')
         | (Inl e, b'') \<Rightarrow> (Inl e,
             wk\<lparr>sw_metrics := sim_record_failure trace_id decision_id mode stage (ce_latency_ms ce)
               (exc_class e) (ce_started_at ce) (ce_completed_at ce) (sw_metrics wk)\<rparr>, b'')))"

section \<open>What a cycle does to the queues\<close>

lemma publish_events_delivers:
  assumes "broker_ok b" "list_all is_mapping events"
  shows "\<exists>b'. publish_events key None ce i events b = (Inr (), b') \<and> broker_ok b' \<and> (\<forall>k q. routed b' k q = routed b k q)
    \<and> (\<forall>q. queue_contents q b' = queue_contents q b @ (if routed b key q then map as_dict events else []))"
  using assms
proof (induction events arbitrary: i b)
  case (Cons e events)
  obtain d where d: "e = PDict d" using Cons.prems(2) by (cases e) auto
  obtain ps b1 where b1: "broker_publish key (PDict d) b = Inr (ps, b1)" "broker_ok b1" "\<And>k q. routed b1 k q = routed b k q"
    "\<And>q. queue_contents q b1 = queue_contents q b @ (if routed b key q then [d] else [])"
    using broker_publish_returns[OF Cons.prems(1), of key d] by (auto simp: returns_iff)
  obtain b2 where "publish_events key None ce (Suc i) events b1 = (Inr (), b2)" "broker_ok b2"
    "\<And>k q. routed b2 k q = routed b1 k q"
    "\<And>q. queue_contents q b2 = queue_contents q b1 @ (if routed b1 key q then map as_dict events else [])"
    using Cons.IH[OF b1(2), of "Suc i"] Cons.prems(2) by auto
  then show ?case using b1 by (simp add: d)
qed simp

lemma answers_mapping: "answers envelope e \<Longrightarrow> is_mapping e"
  by (cases e) (auto simp: answers_def envelope_ok_def)

lemma execute_and_publish_effect:
  assumes b: "broker_ok b" and br: "sw_bridge wk = None" and ck: "\<And>k. in_range (ce_event_now ce k)"
    and x: "execute_and_publish ce wk env b = (v, b')"
  shows "broker_ok b' \<and> (case v of
      Inl e \<Rightarrow> b' = b
    | Inr r \<Rightarrow> list_all (answers (PDict env)) (sr_events r)
        \<and> (\<forall>q. queue_contents q b' = queue_contents q b
            @ (if routed b (sw_publish_routing_key wk) q then map as_dict (sr_events r) else [])))"
proof (cases "execute_intent (ce_event_now ce) (sw_engine wk) (PDict env)")
  case (Inl e)
  then show ?thesis using x b by (auto simp: execute_and_publish_def split: sum.splits)
next
  case (Inr r)
  from execute_intent_Inr[OF this] have "envelope_ok (PDict env)" by auto
  from ensuresD[OF execute_intent_answers[OF this ck] Inr]
  have a: "list_all (answers (PDict env)) (sr_events r)" by (simp add: all_answer_def)
  then have "list_all is_mapping (sr_events r)" using answers_mapping by (auto simp: list_all_iff)
  from publish_events_delivers[OF b this, of "sw_publish_routing_key wk" ce 0] a show ?thesis
    using x b br Inr by (auto simp: execute_and_publish_def split: sum.splits)
qed

lemma metrics_counts:
  "sm_runs_total (sim_record_success a b c d e f g h m) = sm_runs_total m + 1"
  "sm_success_total (sim_record_success a b c d e f g h m) = sm_success_total m + 1"
  "sm_failure_total (sim_record_success a b c d e f g h m) = sm_failure_total m"
  "sm_runs_total (sim_record_failure a b c d e k g h m) = sm_runs_total m + 1"
  "sm_success_total (sim_record_failure a b c d e k g h m) = sm_success_total m"
  "sm_failure_total (sim_record_failure a b c d e k g h m) = sm_failure_total m + 1"
  by (simp_all add: sim_record_success_def sim_record_failure_def)

text \<open>The queues after a cycle: the consumed message is gone, and the events are appended.\<close>

definition cycle_effect :: "sim_worker \<Rightarrow> broker \<Rightarrow> pydict list \<Rightarrow> broker \<Rightarrow> bool" where
  "cycle_effect wk b events b' \<longleftrightarrow> (\<forall>q. queue_contents q b' =
     (if q = sw_consume_queue wk then tl (queue_contents q b) else queue_contents q b)
     @ (if routed b (sw_publish_routing_key wk) q then events else []))"

lemma consume_nonempty:
  assumes "queue_contents q b \<noteq> []"
  obtains m b' where "broker_consume q t b = Inr (Received m, b')"
proof -
  obtain m ms where "dict_get (bk_queues b) q = Some (m # ms)"
    using assms by (auto simp: queue_contents_def dict_get_default_def neq_Nil_conv split: option.splits)
  then show ?thesis using that by (simp add: broker_consume_def queue_get_def dict_get_default_def)
qed

section \<open>Properties\<close>

text \<open>C9: A cycle of the simulation worker is all or nothing: an intent that cannot be executed leaves no event
  in any queue and is counted as a failure, and an executed one appends all its events, each a valid
  MOCK envelope of its trace, in order, to exactly the subscribed queues. Either way just the oldest
  intent leaves the queue.\<close>

theorem worker_cycle_all_or_nothing:
  assumes "broker_ok b" and "sw_bridge wk = None" and "\<And>k. in_range (ce_event_now ce k)"
    and "queue_contents (sw_consume_queue wk) b \<noteq> []"
  shows "case run_once ce timeout (wk, b) of (v, wk', b') \<Rightarrow> broker_ok b' \<and> (case v of
      Inl e \<Rightarrow> cycle_effect wk b [] b' \<and> sm_failure_total (sw_metrics wk') = sm_failure_total (sw_metrics wk) + 1
    | Inr (Executed r) \<Rightarrow> cycle_effect wk b (map as_dict (sr_events r)) b'
        \<and> list_all (\<lambda>e. envelope_ok e \<and> is_mode ''MOCK'' e) (sr_events r)
        \<and> sm_success_total (sw_metrics wk') = sm_success_total (sw_metrics wk) + 1
    | Inr _ \<Rightarrow> False)"
proof -
  obtain m b1 where c: "broker_consume (sw_consume_queue wk) timeout b = Inr (Received m, b1)"
    using consume_nonempty[OF assms(4)] by blast
  note cr = consume_received[OF assms(1) c]
  obtain v b2 where x: "execute_and_publish ce wk m b1 = (v, b2)" by fastforce
  note ef = execute_and_publish_effect[OF conjunct1[OF cr] assms(2,3) x]
  show ?thesis
  proof (cases v)
    case (Inl e)
    then show ?thesis using ef cr by (auto simp: run_once_def c x Let_def cycle_effect_def metrics_counts)
  next
    case (Inr r)
    then have "execute_intent (ce_event_now ce) (sw_engine wk) (PDict m) = Inr r"
      using x by (auto simp: execute_and_publish_def split: sum.splits prod.splits)
    from execute_intent_Inr[OF this] have "is_mode ''MOCK'' (PDict m)" by (auto simp: is_mode_def)
    then have "list_all (\<lambda>e. envelope_ok e \<and> is_mode ''MOCK'' e) (sr_events r)"
      using ef Inr by (auto simp: list_all_iff answers_def is_mode_def)
    then show ?thesis using ef cr Inr by (auto simp: run_once_def c x Let_def cycle_effect_def metrics_counts)
  qed
qed

definition sample_broker :: broker where
  "sample_broker = \<lparr>bk_queues = [(MOCK_ROUTING_KEY, [as_dict (sample_intent ''BUY'')]), (''oms.order.mock'', [])],
     bk_bindings = []\<rparr>"

definition sample_cycle :: cycle_env where
  "sample_cycle = \<lparr>ce_event_now = \<lambda>_. 0, ce_bridge_now = \<lambda>_. 0, ce_bridge_uuid = \<lambda>_. [], ce_latency_ms = Fin 1,
     ce_started_at = [], ce_completed_at = []\<rparr>"

theorem worker_cycle_all_or_nothing_witness:
  "case run_once sample_cycle None (sim_worker_init None, sample_broker) of (v, wk', b') \<Rightarrow>
     queue_contents MOCK_ROUTING_KEY b' = [] \<and> (case v of
         Inl e \<Rightarrow> sm_failure_total (sw_metrics wk') = 1
       | Inr (Executed r) \<Rightarrow> queue_contents ''oms.order.mock'' b' = map as_dict (sr_events r)
           \<and> sm_success_total (sw_metrics wk') = 1
       | Inr _ \<Rightarrow> False)"
proof -
  have f: "sw_consume_queue (sim_worker_init None) = MOCK_ROUTING_KEY" "sw_bridge (sim_worker_init None) = None"
    "sw_publish_routing_key (sim_worker_init None) = ''oms.order.mock''"
    "sm_failure_total (sw_metrics (sim_worker_init None)) = 0" "sm_success_total (sw_metrics (sim_worker_init None)) = 0"
    "ce_event_now sample_cycle k = 0" for k
    by (simp_all add: sim_worker_init_def new_metrics_def sample_cycle_def)
  have r: "in_range 0" by code_simp
  have q: "queue_contents MOCK_ROUTING_KEY sample_broker = [as_dict (sample_intent ''BUY'')]"
    "queue_contents ''oms.order.mock'' sample_broker = []" "MOCK_ROUTING_KEY \<noteq> ''oms.order.mock''"
    "broker_ok sample_broker" "routed sample_broker ''oms.order.mock'' ''oms.order.mock''"
    "\<not> routed sample_broker ''oms.order.mock'' MOCK_ROUTING_KEY"
    by (simp_all add: queue_contents_def sample_broker_def dict_get_default_def MOCK_ROUTING_KEY_def broker_ok_def
        dict_wf_def routed_def)
  show ?thesis
    using worker_cycle_all_or_nothing[of sample_broker "sim_worker_init None" sample_cycle None] r q f
    by (auto simp: cycle_effect_def split: prod.splits sum.splits cycle.splits)
qed

end
