(* ===== verification/Py_Window.thy ===== *)
theory Py_Window
  imports Py_Values
begin

text \<open>
  Sliding-window limiters. Two components admit events under a budget per key and time window: the
  notification router and the rate limiter of the API. The interface \<open>sliding_window\<close> states what
  one admission does to the recorded times; from it follows, once for both, that no window ever
  holds more admitted events of a key than the budget. A log of admitted events is kept newest
  first.
\<close>

definition clock_time :: "pyfloat \<Rightarrow> bool" where
  "clock_time t \<longleftrightarrow> finite_float t \<and> wf_float t"

definition times_of :: "('k \<times> pyfloat) list \<Rightarrow> 'k \<Rightarrow> pyfloat list" where
  "times_of hist k = map snd (filter (\<lambda>(k', t). k' = k) hist)"

text \<open>Every admitted event, counted with its predecessors in its window, was within the budget.\<close>

fun window_ok :: "(pyfloat \<Rightarrow> pyfloat) \<Rightarrow> int \<Rightarrow> ('k \<times> pyfloat) list \<Rightarrow> bool" where
  "window_ok cutoff quota [] = True"
| "window_ok cutoff quota ((k, t) # hist) =
     (int (length (filter (fle (cutoff t)) (times_of ((k, t) # hist) k))) \<le> quota \<and> window_ok cutoff quota hist)"

lemma times_of_Cons: "times_of ((k', t) # hist) k = (if k' = k then t # times_of hist k else times_of hist k)"
  by (simp add: times_of_def)

lemma times_of_Nil [simp]: "times_of [] k = []"
  by (simp add: times_of_def)

lemma clock_time_Fin: "clock_time t \<longleftrightarrow> (\<exists>x. t = Fin x \<and> wf_float (Fin x))"
  by (cases t) (auto simp: clock_time_def finite_float_def)

lemma clock_fle_refl: "clock_time t \<Longrightarrow> fle t t"
  by (auto simp: clock_time_Fin)

lemma fle_self: "fle x y \<Longrightarrow> fle x x"
  by (cases x; cases y) auto

lemma flt_fle_trans: "flt x y \<Longrightarrow> fle y z \<Longrightarrow> flt x z"
  by (cases x; cases y; cases z) auto

lemma fle_flt_trans: "fle x y \<Longrightarrow> flt y z \<Longrightarrow> flt x z"
  by (cases x; cases y; cases z) auto

lemma filter_fle_both: "fle a c \<Longrightarrow> filter (\<lambda>x. fle a x \<and> fle c x) xs = filter (fle c) xs"
  using fle_trans by (induction xs) auto

locale sliding_window =
  fixes inv :: "pyfloat \<Rightarrow> 's \<Rightarrow> bool" and entries :: "'s \<Rightarrow> 'k \<Rightarrow> pyfloat list"
    and admit :: "'k \<Rightarrow> pyfloat \<Rightarrow> 's \<Rightarrow> bool \<times> 's" and cutoff :: "pyfloat \<Rightarrow> pyfloat" and quota :: int
  assumes cut_mono: "clock_time t \<Longrightarrow> clock_time t' \<Longrightarrow> fle t t' \<Longrightarrow> fle (cutoff t) (cutoff t')"
    and cut_below: "clock_time t \<Longrightarrow> fle (cutoff t) t"
    and admit_inv: "inv t s \<Longrightarrow> clock_time t \<Longrightarrow> clock_time t' \<Longrightarrow> fle t t' \<Longrightarrow> admit k t' s = (b, s') \<Longrightarrow> inv t' s'"
    and admit_quota: "inv t s \<Longrightarrow> clock_time t \<Longrightarrow> clock_time t' \<Longrightarrow> fle t t' \<Longrightarrow> admit k t' s = (True, s')
      \<Longrightarrow> int (length (filter (fle (cutoff t')) (entries s k))) < quota"
    and admit_entries: "inv t s \<Longrightarrow> clock_time t \<Longrightarrow> clock_time t' \<Longrightarrow> fle t t' \<Longrightarrow> admit k t' s = (b, s') \<Longrightarrow> fle (cutoff t') c
      \<Longrightarrow> filter (fle c) (entries s' k') =
        filter (fle c) (entries s k') @ (if b \<and> k' = k \<and> fle c t' then [t'] else [])"
begin

definition tracks :: "pyfloat \<Rightarrow> 's \<Rightarrow> ('k \<times> pyfloat) list \<Rightarrow> bool" where
  "tracks t s hist \<longleftrightarrow> clock_time t \<and> inv t s \<and> window_ok cutoff quota hist
     \<and> (\<forall>k c. fle (cutoff t) c \<longrightarrow> filter (fle c) (rev (times_of hist k)) = filter (fle c) (entries s k))"

lemma tracks_init: "clock_time t \<Longrightarrow> inv t s \<Longrightarrow> (\<And>k. entries s k = []) \<Longrightarrow> tracks t s []"
  by (simp add: tracks_def)

lemma tracks_later:
  assumes tr: "tracks t s hist" and t': "clock_time t'" "fle t t'" and inv: "inv t' s"
  shows "tracks t' s hist"
  using assms cut_mono[of t t'] fle_trans[of "cutoff t" "cutoff t'"] by (auto simp: tracks_def)

lemma tracks_step:
  assumes tr: "tracks t s hist" and t': "clock_time t'" "fle t t'" and a: "admit k t' s = (b, s')"
  shows "tracks t' s' (if b then (k, t') # hist else hist)"
proof -
  have t: "clock_time t" "inv t s" "window_ok cutoff quota hist" using tr by (simp_all add: tracks_def)
  have old: "filter (fle c) (rev (times_of hist k')) = filter (fle c) (entries s k')" if "fle (cutoff t') c" for k' c
    using tr fle_trans[OF cut_mono[OF t(1) t'] that] by (simp add: tracks_def)
  have new: "filter (fle c) (rev (times_of (if b then (k, t') # hist else hist) k')) = filter (fle c) (entries s' k')"
    if "fle (cutoff t') c" for k' c
    using old[OF that, of k'] admit_entries[OF t(2,1) t' a that, of k'] by (simp add: times_of_Cons)
  have "window_ok cutoff quota (if b then (k, t') # hist else hist)"
  proof (cases b)
    case True
    have "length (filter (fle (cutoff t')) (times_of hist k)) = length (filter (fle (cutoff t')) (entries s k))"
      using old[OF fle_self[OF cut_below[OF t'(1)]], of k] by (metis length_rev rev_filter)
    then show ?thesis
      using True t(3) admit_quota[OF t(2,1) t', of k s'] a cut_below[OF t'(1)] by (simp add: times_of_Cons)
  qed (use t in simp)
  then show ?thesis using new t' admit_inv[OF t(2,1) t' a] by (simp add: tracks_def)
qed

lemma tracks_window: "tracks t s hist \<Longrightarrow> window_ok cutoff quota hist"
  by (simp add: tracks_def)

end

section \<open>Cut-off of a window\<close>

lemma cutoff_mono: "clock_time t \<Longrightarrow> clock_time t' \<Longrightarrow> fle t t' \<Longrightarrow> fle (fsub t (Fin w)) (fsub t' (Fin w))"
  by (auto simp: clock_time_Fin fsub_def intro!: fl_mono)

lemma cutoff_below: "clock_time t \<Longrightarrow> 0 \<le> w \<Longrightarrow> fle (fsub t (Fin w)) t"
  by (auto simp: clock_time_Fin fsub_def intro!: fl_upper)

end
