(* ===== verification/Notify_Router.thy ===== *)
theory Notify_Router
  imports Notify_Events Py_Window
begin

text \<open>
  The policy router of the notification service
  (\<open>services/notification_service/policy_router.py\<close>): preferences, duplicate suppression and the
  budget per user and gateway. The lemmas show that over any sequence of routed events a user
  never gets more messages through a gateway than the budget allows in a minute, nor the same
  notification twice within the suppression window.
\<close>

section \<open>State\<close>

type_synonym dedupe_key = "string \<times> string \<times> string"

record policy_router =
  nr_preferences :: "notification_preference list"
  nr_dedupe_window :: pyfloat
  nr_rate_limit :: int
  nr_dedupe_seen_at :: "(dedupe_key, pyfloat) dict"
  nr_rate_events :: "(string \<times> string, pyfloat list) dict"
  nr_suppressed :: "(string, int) dict"

definition router_init :: "notification_preference list \<Rightarrow> pyfloat \<Rightarrow> int \<Rightarrow> policy_router result" where
  "router_init preferences dedupe_window rate_limit =
     (if fle dedupe_window (Fin 0) then Inl (Exc ValueError ''dedupe_window_seconds must be positive'')
      else if rate_limit \<le> 0 then Inl (Exc ValueError ''rate_limit_per_minute must be positive'')
      else Inr \<lparr>nr_preferences = preferences, nr_dedupe_window = dedupe_window, nr_rate_limit = rate_limit,
        nr_dedupe_seen_at = [], nr_rate_events = [], nr_suppressed = [(''dedupe'', 0), (''rate_limit'', 0)]\<rparr>)"

definition suppression_counts :: "policy_router \<Rightarrow> (string, int) dict" where
  "suppression_counts r = nr_suppressed r"

section \<open>Operations\<close>

definition MINUTE_SECONDS :: pyfloat where
  "MINUTE_SECONDS = Fin 60"

definition consume_rate_budget :: "string \<times> string \<Rightarrow> pyfloat \<Rightarrow> policy_router \<Rightarrow> bool \<times> policy_router" where
  "consume_rate_budget key now_seconds r =
     (let cutoff = fsub now_seconds MINUTE_SECONDS;
          kept = filter (\<lambda>timestamp. fle cutoff timestamp) (dict_get_default (nr_rate_events r) key []) in
      if nr_rate_limit r \<le> int (length kept)
      then (False, r\<lparr>nr_rate_events := dict_set key kept (nr_rate_events r)\<rparr>)
      else (True, r\<lparr>nr_rate_events := dict_set key (kept @ [now_seconds]) (nr_rate_events r)\<rparr>))"

definition matches_preference :: "notification_preference \<Rightarrow> notification_event \<Rightarrow> bool" where
  "matches_preference pref event =
     (if severity_rank (ne_severity event) < severity_rank (np_min_severity pref) then False
      else if np_event_types pref \<noteq> [] \<and> ne_event_type event \<notin> set (np_event_types pref) then False
      else if np_strategy_ids pref \<noteq> []
        \<and> py_str (pget (ne_payload event) ''strategy_id'' (PStr [])) \<notin> set (np_strategy_ids pref) then False
      else True)"

definition message_id :: "string \<Rightarrow> string \<Rightarrow> string \<Rightarrow> string" where
  "message_id user_id gateway event_id =
     ''msg-'' @ take 16 (sha256_hex (user_id @ ''|'' @ gateway @ ''|'' @ event_id))"

definition render_body :: "notification_event \<Rightarrow> string" where
  "render_body event =
     (let strategy = py_str (pget (ne_payload event) ''strategy_id'' (PStr ''n/a''));
          symb = py_str (pget (ne_payload event) ''symbol'' (PStr ''n/a''));
          reason = py_str (pget (ne_payload event) ''reason'' (PStr []));
          suffix = (if reason = [] then [] else '' reason='' @ reason)
      in ''event='' @ ne_event_type event @ '' severity='' @ severity_value (ne_severity event)
         @ '' strategy='' @ strategy @ '' symbol='' @ symb @ '' mode='' @ ne_mode event @ suffix)"

definition routed_message :: "notification_event \<Rightarrow> string \<Rightarrow> string \<Rightarrow> notification_message" where
  "routed_message event user_id gateway =
     \<lparr>nm_message_id = message_id user_id gateway (ne_id event), nm_user_id = user_id, nm_gateway = gateway,
      nm_severity = ne_severity event,
      nm_title = ''['' @ severity_value (ne_severity event) @ ''] '' @ ne_event_type event,
      nm_body = render_body event,
      nm_metadata = [(''trace_id'', PStr (ne_trace_id event)), (''decision_id'', PStr (ne_decision_id event)),
        (''event_type'', PStr (ne_event_type event)), (''service'', PStr (ne_service event)),
        (''mode'', PStr (ne_mode event))]\<rparr>"

text \<open>One gateway of one matching preference.\<close>

definition route_gateway ::
    "notification_event \<Rightarrow> pyfloat \<Rightarrow> string \<Rightarrow> string \<Rightarrow> notification_message list \<times> policy_router
      \<Rightarrow> notification_message list \<times> policy_router" where
  "route_gateway event now_seconds user_id gateway st = (case st of (messages, r) \<Rightarrow>
     let dedupe_key = (user_id, gateway, ne_idempotency_key event);
         duplicate = (case dict_get (nr_dedupe_seen_at r) dedupe_key of
             None \<Rightarrow> False
           | Some previous \<Rightarrow> flt (fsub now_seconds previous) (nr_dedupe_window r)) in
     if duplicate then (messages, r\<lparr>nr_suppressed := dict_incr ''dedupe'' (nr_suppressed r)\<rparr>)
     else (case consume_rate_budget (user_id, gateway) now_seconds r of (allowed, r') \<Rightarrow>
       if \<not> allowed then (messages, r'\<lparr>nr_suppressed := dict_incr ''rate_limit'' (nr_suppressed r')\<rparr>)
       else (messages @ [routed_message event user_id gateway],
             r'\<lparr>nr_dedupe_seen_at := dict_set dedupe_key now_seconds (nr_dedupe_seen_at r')\<rparr>)))"

definition route_preference ::
    "notification_event \<Rightarrow> pyfloat \<Rightarrow> notification_preference \<Rightarrow> notification_message list \<times> policy_router
      \<Rightarrow> notification_message list \<times> policy_router" where
  "route_preference event now_seconds pref st =
     (if \<not> matches_preference pref event then st
      else fold (route_gateway event now_seconds (np_user_id pref)) (np_gateways pref) st)"

definition default_preference :: notification_preference where
  "default_preference = \<lparr>np_user_id = ''ops-default'', np_min_severity = INFO, np_gateways = [''telegram''],
     np_strategy_ids = [], np_event_types = []\<rparr>"

definition route ::
    "notification_event \<Rightarrow> pyfloat \<Rightarrow> policy_router \<Rightarrow> notification_message list \<times> policy_router" where
  "route event now_seconds r =
     (let active_prefs = (if nr_preferences r = [] then [default_preference] else nr_preferences r)
      in fold (route_preference event now_seconds) active_prefs ([], r))"

section \<open>The budget is a sliding window\<close>

definition rate_entries :: "policy_router \<Rightarrow> string \<times> string \<Rightarrow> pyfloat list" where
  "rate_entries r key = dict_get_default (nr_rate_events r) key []"

definition minute_before :: "pyfloat \<Rightarrow> pyfloat" where
  "minute_before t = fsub t MINUTE_SECONDS"

lemma consume_fields:
  "consume_rate_budget k t r = (b, r') \<Longrightarrow> nr_rate_limit r' = nr_rate_limit r \<and> nr_dedupe_window r' = nr_dedupe_window r
     \<and> nr_dedupe_seen_at r' = nr_dedupe_seen_at r \<and> nr_preferences r' = nr_preferences r \<and> nr_suppressed r' = nr_suppressed r"
  by (auto simp: consume_rate_budget_def Let_def split: if_splits)

lemma rate_entries_consume:
  "consume_rate_budget k t r = (b, r') \<Longrightarrow> rate_entries r' k' =
     (if k' = k then filter (fle (minute_before t)) (rate_entries r k) @ (if b then [t] else []) else rate_entries r k')"
  by (auto simp: consume_rate_budget_def rate_entries_def minute_before_def Let_def dict_get_default_def split: if_splits)

interpretation router_window: sliding_window "\<lambda>t r. nr_rate_limit r = L" rate_entries consume_rate_budget minute_before L for L
proof unfold_locales
  fix t t' :: pyfloat
  show "clock_time t \<Longrightarrow> clock_time t' \<Longrightarrow> fle t t' \<Longrightarrow> fle (minute_before t) (minute_before t')"
    by (simp add: minute_before_def MINUTE_SECONDS_def cutoff_mono)
  show "clock_time t \<Longrightarrow> fle (minute_before t) t"
    by (simp add: minute_before_def MINUTE_SECONDS_def cutoff_below)
next
  fix t t' :: pyfloat and s s' k
  assume "nr_rate_limit s = L" "consume_rate_budget k t' s = (True, s')"
  then show "int (length (filter (fle (minute_before t')) (rate_entries s k))) < L"
    by (auto simp: consume_rate_budget_def rate_entries_def minute_before_def Let_def split: if_splits)
qed (simp_all add: consume_fields rate_entries_consume filter_fle_both)

section \<open>Sequences of events\<close>

text \<open>Messages sent so far, newest first, as user, gateway and notification key with their time.\<close>

type_synonym sent_log = "(dedupe_key \<times> pyfloat) list"

definition sent_messages :: "notification_event \<Rightarrow> pyfloat \<Rightarrow> notification_message list \<Rightarrow> sent_log" where
  "sent_messages event t ms = rev (map (\<lambda>m. ((nm_user_id m, nm_gateway m, ne_idempotency_key event), t)) ms)"

fun route_log :: "(notification_event \<times> pyfloat) list \<Rightarrow> policy_router \<Rightarrow> sent_log \<Rightarrow> sent_log" where
  "route_log [] r hist = hist"
| "route_log ((event, t) # es) r hist =
     (case route event t r of (ms, r') \<Rightarrow> route_log es r' (sent_messages event t ms @ hist))"

definition per_gateway :: "sent_log \<Rightarrow> ((string \<times> string) \<times> pyfloat) list" where
  "per_gateway hist = map (\<lambda>((u, g, i), t). ((u, g), t)) hist"

text \<open>Between two messages for the same notification lies at least the suppression window.\<close>

fun spaced :: "pyfloat \<Rightarrow> sent_log \<Rightarrow> bool" where
  "spaced w [] = True"
| "spaced w ((k, t) # hist) =
     ((case times_of hist k of [] \<Rightarrow> True | t' # _ \<Rightarrow> \<not> flt (fsub t t') w) \<and> spaced w hist)"

fun nondecreasing :: "pyfloat list \<Rightarrow> bool" where
  "nondecreasing (t # t' # ts) = (fle t t' \<and> nondecreasing (t' # ts))"
| "nondecreasing _ = True"

definition router_inv :: "pyfloat \<Rightarrow> int \<Rightarrow> pyfloat \<Rightarrow> policy_router \<Rightarrow> sent_log \<Rightarrow> bool" where
  "router_inv w limit t r hist \<longleftrightarrow> nr_dedupe_window r = w \<and> router_window.tracks limit t r (per_gateway hist)
     \<and> spaced w hist \<and> (\<forall>k. dict_get (nr_dedupe_seen_at r) k = (case times_of hist k of [] \<Rightarrow> None | t # _ \<Rightarrow> Some t))"

lemma router_inv_suppressed: "router_inv w l t (r\<lparr>nr_suppressed := x\<rparr>) hist = router_inv w l t r hist"
  by (simp add: router_inv_def router_window.tracks_def rate_entries_def)

lemma router_window_seen: "router_window.tracks l t (r\<lparr>nr_dedupe_seen_at := x\<rparr>) h = router_window.tracks l t r h"
  by (simp add: router_window.tracks_def rate_entries_def)

lemma router_inv_gateway:
  assumes inv: "router_inv w l t r (sent_messages e t ms @ hist)" and t: "clock_time t"
    and g: "route_gateway e t u g (ms, r) = (ms', r')"
  shows "router_inv w l t r' (sent_messages e t ms' @ hist)"
proof -
  let ?k = "(u, g, ne_idempotency_key e)" and ?h = "sent_messages e t ms @ hist"
  have tr: "router_window.tracks l t r (per_gateway ?h)" using inv by (simp add: router_inv_def)
  define dup where "dup = (case dict_get (nr_dedupe_seen_at r) ?k of None \<Rightarrow> False
     | Some previous \<Rightarrow> flt (fsub t previous) (nr_dedupe_window r))"
  obtain b r1 where c: "consume_rate_budget (u, g) t r = (b, r1)" by fastforce
  note f = consume_fields[OF c]
  note tr1 = router_window.tracks_step[OF tr t clock_fle_refl[OF t] c]
  show ?thesis
  proof (cases "dup \<or> \<not> b")
    case True
    then consider "dup" | "\<not> dup" "\<not> b" by blast
    then show ?thesis
    proof cases
      case 1
      then show ?thesis using g inv by (auto simp: route_gateway_def Let_def dup_def router_inv_suppressed)
    next
      case 2
      then have "ms' = ms" "r' = r1\<lparr>nr_suppressed := dict_incr ''rate_limit'' (nr_suppressed r1)\<rparr>"
        using g c by (simp_all add: route_gateway_def Let_def flip: dup_def)
      then show ?thesis using inv f tr1 2 by (simp add: router_inv_suppressed) (simp add: router_inv_def)
    qed
  next
    case False
    then have r': "ms' = ms @ [routed_message e u g]" "r' = r1\<lparr>nr_dedupe_seen_at := dict_set ?k t (nr_dedupe_seen_at r1)\<rparr>"
      using g c by (simp_all add: route_gateway_def Let_def flip: dup_def)
    have h: "sent_messages e t ms' @ hist = (?k, t) # ?h"
      by (simp add: r' sent_messages_def routed_message_def)
    have "case times_of ?h ?k of [] \<Rightarrow> True | t' # _ \<Rightarrow> \<not> flt (fsub t t') w"
      using False inv by (auto simp: dup_def router_inv_def split: list.splits)
    then show ?thesis
      using inv f tr1 False unfolding h r'(2) router_inv_def router_window_seen
      by (auto simp: per_gateway_def times_of_Cons)
  qed
qed

lemma router_inv_preference:
  assumes "router_inv w l t r (sent_messages e t ms @ hist)" "clock_time t" "route_preference e t pref (ms, r) = (ms', r')"
  shows "router_inv w l t r' (sent_messages e t ms' @ hist)"
proof -
  have "router_inv w l t r' (sent_messages e t ms' @ hist)"
    if "fold (route_gateway e t u) gs (ms, r) = (ms', r')" "router_inv w l t r (sent_messages e t ms @ hist)" for u gs ms r
    using that
  proof (induction gs arbitrary: ms r)
    case (Cons g gs)
    obtain ms1 r1 where "route_gateway e t u g (ms, r) = (ms1, r1)" by fastforce
    then show ?case using Cons router_inv_gateway[OF Cons.prems(2) assms(2)] by simp
  qed simp
  then show ?thesis using assms by (auto simp: route_preference_def split: if_splits)
qed

lemma router_inv_route:
  assumes "router_inv w l t r hist" "clock_time t" "route e t r = (ms', r')"
  shows "router_inv w l t r' (sent_messages e t ms' @ hist)"
proof -
  have "router_inv w l t r' (sent_messages e t ms' @ hist)"
    if "fold (route_preference e t) ps (ms, r) = (ms', r')" "router_inv w l t r (sent_messages e t ms @ hist)" for ps ms r
    using that
  proof (induction ps arbitrary: ms r)
    case (Cons q ps)
    obtain ms1 r1 where "route_preference e t q (ms, r) = (ms1, r1)" by fastforce
    then show ?case using Cons router_inv_preference[OF Cons.prems(2) assms(2)] by simp
  qed simp
  from this[of _ "[]" r] show ?thesis using assms by (simp add: route_def Let_def sent_messages_def)
qed

lemma router_inv_run:
  assumes "router_inv w l t r hist" "list_all clock_time (map snd es)" "nondecreasing (t # map snd es)"
  shows "spaced w (route_log es r hist) \<and> window_ok minute_before l (per_gateway (route_log es r hist))"
  using assms
proof (induction es arbitrary: t r hist)
  case Nil
  then show ?case by (auto simp: router_inv_def dest: router_window.tracks_window)
next
  case (Cons et es)
  obtain e t' where et: "et = (e, t')" by fastforce
  obtain ms r' where r': "route e t' r = (ms, r')" by fastforce
  have t': "clock_time t'" "fle t t'" using Cons.prems by (simp_all add: et)
  have "nr_rate_limit r = l" using Cons.prems(1) by (simp add: router_inv_def router_window.tracks_def)
  then have "router_inv w l t' r hist"
    using Cons.prems(1) router_window.tracks_later[OF _ t'] by (simp add: router_inv_def)
  from Cons.IH[OF router_inv_route[OF this t'(1) r']] show ?case using Cons.prems by (simp add: et r')
qed

lemma router_inv_init:
  assumes "router_init ps w l = Inr r" "clock_time t"
  shows "router_inv w l t r []"
  using assms
  by (auto simp: router_init_def router_inv_def per_gateway_def rate_entries_def dict_get_default_def
      intro!: router_window.tracks_init split: if_splits)

section \<open>Properties\<close>

text \<open>C20: However many events arrive, at non-decreasing times, a user receives through one gateway at most the
  configured number of messages within any minute, and never the same notification twice within
  the suppression window.\<close>

theorem router_respects_limits:
  assumes "router_init preferences w limit = Inr r"
    and "list_all clock_time (map snd es)" and "nondecreasing (map snd es)"
  shows "spaced w (route_log es r []) \<and> window_ok minute_before limit (per_gateway (route_log es r []))"
proof (cases es)
  case Nil
  then show ?thesis by (simp add: per_gateway_def)
next
  case (Cons et es')
  have t: "clock_time (snd et)" using assms(2) by (simp add: Cons)
  then have "nondecreasing (snd et # map snd es)" using assms(3) clock_fle_refl by (simp add: Cons)
  then show ?thesis using router_inv_run[OF router_inv_init[OF assms(1) t] assms(2)] by blast
qed

definition sample_notification :: "string \<Rightarrow> notification_event" where
  "sample_notification key = \<lparr>ne_id = key, ne_trace_id = ''t'', ne_decision_id = ''d'', ne_mode = ''MOCK'',
     ne_event_type = ''oms.order.filled'', ne_severity = INFO, ne_idempotency_key = key, ne_emitted_at = [],
     ne_service = ''oms'', ne_payload = []\<rparr>"

theorem router_respects_limits_witness:
  "returns (\<lambda>r. let es = [(sample_notification ''a'', Fin 0), (sample_notification ''a'', Fin 30), (sample_notification ''b'', Fin 30),
       (sample_notification ''c'', Fin 31), (sample_notification ''a'', Fin 200)] in
      map snd (route_log es r []) = [Fin 200, Fin 30, Fin 0] \<and> spaced (Fin 120) (route_log es r [])
      \<and> window_ok minute_before 2 (per_gateway (route_log es r []))) (router_init [] (Fin 120) 2)"
proof -
  let ?es = "[(sample_notification ''a'', Fin 0), (sample_notification ''a'', Fin 30), (sample_notification ''b'', Fin 30),
       (sample_notification ''c'', Fin 31), (sample_notification ''a'', Fin 200)]"
  define r where "r = \<lparr>nr_preferences = [], nr_dedupe_window = Fin 120, nr_rate_limit = 2,
        nr_dedupe_seen_at = [], nr_rate_events = [], nr_suppressed = [(''dedupe'', 0), (''rate_limit'', 0)]\<rparr>"
  have r: "router_init [] (Fin 120) 2 = Inr r" by (simp add: router_init_def r_def)
  have c: "list_all clock_time (map snd ?es)" "nondecreasing (map snd ?es)" by code_simp+
  have d: "fl (- 60) = Fin (- 60)" "fl (- 30) = Fin (- 30)" "fl (- 29) = Fin (- 29)" "fl 30 = Fin 30" "fl 31 = Fin 31"
     "fl 140 = Fin 140" "fl 200 = Fin 200" using fl_int[of "- 60"] fl_int[of "- 30"] fl_int[of "- 29"]
      fl_int[of 30] fl_int[of 31] fl_int[of 140] fl_int[of 200] by simp_all
  have "map snd (route_log ?es r []) = [Fin 200, Fin 30, Fin 0]"
    by (simp add: r_def route_def route_preference_def default_preference_def matches_preference_def sample_notification_def
        route_gateway_def consume_rate_budget_def fsub_def d MINUTE_SECONDS_def dict_get_default_def
        sent_messages_def routed_message_def)
  then show ?thesis using router_respects_limits[OF r c] by (simp add: r returns_def Let_def)
qed

end
