(* ===== verification/Py_Convert.thy ===== *)
theory Py_Convert
  imports Py_Values
begin

text \<open>
  Further pieces of the language that the ingestion and agent services use: \<open>int(x)\<close>, \<open>x ** n\<close> on
  floats, \<open>statistics.mean\<close>, the name and text of an exception. A power is the correctly rounded
  one, which is exact for the powers of two of the default configuration.
\<close>

section \<open>Integers\<close>

definition bad_int :: "string \<Rightarrow> 'a result" where
  "bad_int s = Inl (Exc ValueError (''invalid literal for int() with base 10: '' @ str_repr s))"

text \<open>A numeral of more than 4300 digits is refused.\<close>

definition int_of_str :: "string \<Rightarrow> int result" where
  "int_of_str s =
     (let t = py_strip s in
      if \<not> underscores_ok is_digit False t then bad_int s else
      case split_sign (drop_underscores t) of (neg, u) \<Rightarrow>
        if length u > 4300 then Inl (Exc ValueError ''Exceeds the limit (4300 digits) for integer string conversion'')
        else (case digits_opt u of
            None \<Rightarrow> bad_int s
          | Some n \<Rightarrow> Inr (if neg then - n else n)))"

definition trunc_rat :: "rat \<Rightarrow> int" where
  "trunc_rat x = (if 0 \<le> x then \<lfloor>x\<rfloor> else - \<lfloor>- x\<rfloor>)"

fun int_of_float :: "pyfloat \<Rightarrow> int result" where
  "int_of_float (Fin x) = Inr (trunc_rat x)"
| "int_of_float NaN = Inl (Exc ValueError ''cannot convert float NaN to integer'')"
| "int_of_float _ = Inl (Exc OverflowError ''cannot convert float infinity to integer'')"

text \<open>\<open>int(x)\<close>\<close>

fun py_int :: "pyval \<Rightarrow> int result" where
  "py_int (PInt n) = Inr n"
| "py_int (PBool b) = Inr (if b then 1 else 0)"
| "py_int (PFloat f) = int_of_float f"
| "py_int (PStr s) = int_of_str s"
| "py_int v = Inl (Exc TypeError
     (''int() argument must be a string, a bytes-like object or a real number, not '' @ str_repr (type_name v)))"

section \<open>Powers and means\<close>

text \<open>\<open>base ** n\<close> for a non-negative integer exponent\<close>

fun fpow :: "pyfloat \<Rightarrow> nat \<Rightarrow> pyfloat result" where
  "fpow base 0 = Inr (Fin 1)"
| "fpow (Fin x) (Suc n) = (case fl (x ^ Suc n) of
      Fin y \<Rightarrow> Inr (Fin y)
    | _ \<Rightarrow> Inl (Exc OverflowError ''(34, 'Numerical result out of range')''))"
| "fpow PInf (Suc n) = Inr PInf"
| "fpow NInf (Suc n) = Inr (if even n then NInf else PInf)"
| "fpow NaN (Suc n) = Inr NaN"

fun fin_val :: "pyfloat \<Rightarrow> rat" where
  "fin_val (Fin x) = x"
| "fin_val _ = 0"

text \<open>\<open>statistics.mean\<close> of a non-empty list of floats: the exact mean, rounded once.\<close>

definition py_mean :: "pyfloat list \<Rightarrow> pyfloat" where
  "py_mean xs = (case filter (\<lambda>x. \<not> finite_float x) xs of
      [] \<Rightarrow> fl (sum_list (map fin_val xs) / of_nat (length xs))
    | y # ys \<Rightarrow> foldl fadd y ys)"

section \<open>Exceptions\<close>

text \<open>\<open>exc.__class__.__name__\<close>\<close>

fun class_name :: "exc_class \<Rightarrow> string" where
  "class_name ValueError = ''ValueError''"
| "class_name TypeError = ''TypeError''"
| "class_name KeyError = ''KeyError''"
| "class_name IndexError = ''IndexError''"
| "class_name ZeroDivisionError = ''ZeroDivisionError''"
| "class_name AttributeError = ''AttributeError''"
| "class_name OverflowError = ''OverflowError''"
| "class_name InvalidOperation = ''InvalidOperation''"
| "class_name DivisionByZero = ''DivisionByZero''"
| "class_name RuntimeError = ''RuntimeError''"
| "class_name OMSStateTransitionError = ''OMSStateTransitionError''"
| "class_name PositionEngineError = ''PositionEngineError''"
| "class_name PortfolioSnapshotEngineError = ''PortfolioSnapshotEngineError''"
| "class_name DrawdownDailyLossGuardError = ''DrawdownDailyLossGuardError''"
| "class_name CoreRiskRuleError = ''CoreRiskRuleError''"
| "class_name EnvelopeValidationError = ''EnvelopeValidationError''"
| "class_name BrokerConfigurationError = ''BrokerConfigurationError''"
| "class_name ModeRoutingError = ''ModeRoutingError''"
| "class_name SimulationSafetyViolation = ''SimulationSafetyViolation''"
| "class_name SimulationExecutionError = ''SimulationExecutionError''"
| "class_name OrderBookSyncError = ''OrderBookSyncError''"
| "class_name OrderBookNotInitializedError = ''OrderBookNotInitializedError''"
| "class_name OrderBookSequenceGapError = ''OrderBookSequenceGapError''"
| "class_name AdapterPayloadError = ''AdapterPayloadError''"
| "class_name AdapterConfigurationError = ''AdapterConfigurationError''"
| "class_name NewsIngestionError = ''NewsIngestionError''"
| "class_name ProviderNotConfiguredError = ''ProviderNotConfiguredError''"
| "class_name LLMRetryExhaustedError = ''LLMRetryExhaustedError''"
| "class_name LLMQuotaExceededError = ''LLMQuotaExceededError''"
| "class_name TimeoutError = ''TimeoutError''"
| "class_name ProviderError = ''ProviderError''"

text \<open>\<open>str(exc)\<close>: a \<open>KeyError\<close> shows its key quoted.\<close>

definition exc_str :: "exc \<Rightarrow> string" where
  "exc_str e = (if exc_class e = KeyError then str_repr (exc_msg e) else exc_msg e)"

section \<open>Lemmas\<close>

lemma fpow_two:
  "fpow (Fin 2) n = (if n < 1024 then Inr (Fin (2 ^ n))
     else Inl (Exc OverflowError ''(34, 'Numerical result out of range')''))"
proof (cases n)
  case (Suc m)
  have "dbl (2 ^ n) = 2 ^ n"
    using dbl_format.rnd_scaled[of 1 "int n"] by (simp add: dbl_def rpow_def)
  then have f: "fl (2 ^ n) = (if too_big (2 ^ n) then PInf else Fin (2 ^ n))"
    by (simp add: fl_def Let_def)
  have "too_big (2 ^ n) \<longleftrightarrow> \<not> n < 1024"
    using power_increasing_iff[of "2 :: rat" 1024 n] by (simp add: too_big_iff not_less del: power_increasing_iff)
  then show ?thesis using f unfolding Suc by (simp del: power_Suc)
qed simp

end
