(* ===== verification/Notify_Dispatch.thy ===== *)
theory Notify_Dispatch
  imports Notify_Router Py_Convert
begin

text \<open>
  Delivery of notifications: the dispatcher with retries, back-off and dead-letter list
  (\<open>services/notification_service/gateway_dispatch.py\<close>), the telemetry collector
  (\<open>observability.py\<close>) and the service that chains intake, router and dispatcher (\<open>service.py\<close>).
  Gateways are code behind a protocol: what one call of \<open>send\<close> does is the argument \<open>send\<close>, a
  function of the state of the outside world. Sleeping is recorded as the list of delays; the
  scheduled persistence call-backs are not part of the state. The lemmas show that every message
  is accounted for exactly once, delivered or in the dead-letter list, whatever the gateways do.
\<close>

section \<open>Gateways\<close>

text \<open>An exception has a text, a class name and a \<open>retryable\<close> attribute, true when absent.\<close>

datatype send_outcome = Sent delivery_result | Raised string string bool

text \<open>\<open>InMemoryGateway.send\<close>: the world is the list of messages sent.\<close>

definition in_memory_send ::
    "string \<Rightarrow> notification_message list \<Rightarrow> notification_message \<Rightarrow> send_outcome \<times> notification_message list" where
  "in_memory_send gateway_name sent message =
     (Sent \<lparr>dr_message_id = nm_message_id message, dr_gateway = gateway_name, dr_status = ''DELIVERED'',
        dr_attempt = 1, dr_detail = None\<rparr>, sent @ [message])"

section \<open>Dispatcher\<close>

text \<open>The mapping of gateways holds the registered key and the name of each gateway.\<close>

record gateway_dispatcher =
  gd_gateways :: "(string, string) dict"
  gd_max_attempts :: int
  gd_backoff_base :: pyfloat
  gd_backoff_multiplier :: pyfloat
  gd_max_backoff :: pyfloat
  gd_dlq :: "(notification_event \<times> notification_message \<times> delivery_result) list"
  gd_slept :: "pyfloat list"

definition dispatcher_init ::
    "(string, string) dict \<Rightarrow> int \<Rightarrow> pyfloat \<Rightarrow> pyfloat \<Rightarrow> pyfloat \<Rightarrow> gateway_dispatcher result" where
  "dispatcher_init gateways max_attempts base multiplier max_backoff =
     (if max_attempts \<le> 0 then Inl (Exc ValueError ''max_attempts must be positive'')
      else if flt base (Fin 0) then Inl (Exc ValueError ''backoff_base_seconds must be non-negative'')
      else if flt multiplier (Fin 1) then Inl (Exc ValueError ''backoff_multiplier must be >= 1.0'')
      else if fle max_backoff (Fin 0) then Inl (Exc ValueError ''max_backoff_seconds must be positive'')
      else Inr \<lparr>gd_gateways = gateways, gd_max_attempts = max_attempts, gd_backoff_base = base,
        gd_backoff_multiplier = multiplier, gd_max_backoff = max_backoff, gd_dlq = [], gd_slept = []\<rparr>)"

definition is_retryable_status :: "string \<Rightarrow> bool" where
  "is_retryable_status status \<longleftrightarrow> norm_upper status \<in> {''RETRYABLE'', ''RETRYABLE_ERROR'', ''FAILED_RETRYABLE''}"

definition append_dlq ::
    "notification_event \<Rightarrow> notification_message \<Rightarrow> delivery_result \<Rightarrow> gateway_dispatcher \<Rightarrow> gateway_dispatcher" where
  "append_dlq event message result d = d\<lparr>gd_dlq := gd_dlq d @ [(event, message, result)]\<rparr>"

definition sleep_after_attempt :: "int \<Rightarrow> gateway_dispatcher \<Rightarrow> gateway_dispatcher result" where
  "sleep_after_attempt attempt d =
     (if gd_max_attempts d \<le> attempt then Inr d
      else rbind (fpow (gd_backoff_multiplier d) (nat (max 0 (attempt - 1)))) (\<lambda>factor.
        let bounded_delay = fmin (fmul (gd_backoff_base d) factor) (gd_max_backoff d) in
        if fle bounded_delay (Fin 0) then Inr d
        else Inr (d\<lparr>gd_slept := gd_slept d @ [bounded_delay]\<rparr>)))"

text \<open>The attempts that remain of \<open>_dispatch_single\<close>, counted down by the first argument of the
  recursion; a delay that cannot be computed raises.\<close>

fun dispatch_attempts ::
    "('w \<Rightarrow> string \<Rightarrow> notification_message \<Rightarrow> send_outcome \<times> 'w) \<Rightarrow> notification_event \<Rightarrow> notification_message
      \<Rightarrow> string \<Rightarrow> nat \<Rightarrow> int \<Rightarrow> string option \<Rightarrow> 'w \<times> gateway_dispatcher
      \<Rightarrow> delivery_result result \<times> 'w \<times> gateway_dispatcher" where
  "dispatch_attempts send event message name 0 attempt last_error (w, d) =
     (let failed = \<lparr>dr_message_id = nm_message_id message, dr_gateway = name, dr_status = ''FAILED'',
        dr_attempt = gd_max_attempts d, dr_detail = Some (opt_or last_error ''delivery_failed'')\<rparr>
      in (Inr failed, w, append_dlq event message failed d))"
| "dispatch_attempts send event message name (Suc n) attempt last_error (w, d) =
     (case send w (nm_gateway message) message of
        (Raised msg cls retryable, w') \<Rightarrow>
          (let err = (if msg = [] then cls else msg) in
           if \<not> retryable then
             (let failed = \<lparr>dr_message_id = nm_message_id message, dr_gateway = name, dr_status = ''FAILED'',
                dr_attempt = attempt, dr_detail = Some err\<rparr>
              in (Inr failed, w', append_dlq event message failed d))
           else (case sleep_after_attempt attempt d of
               Inl e \<Rightarrow> (Inl e, w', d)
             | Inr d' \<Rightarrow> dispatch_attempts send event message name n (attempt + 1) (Some err) (w', d')))
      | (Sent result, w') \<Rightarrow>
          if dr_status result = ''DELIVERED'' then
            (Inr \<lparr>dr_message_id = nm_message_id message, dr_gateway = name, dr_status = ''DELIVERED'',
               dr_attempt = attempt, dr_detail = dr_detail result\<rparr>, w', d)
          else if is_retryable_status (dr_status result) then
            (case sleep_after_attempt attempt d of
               Inl e \<Rightarrow> (Inl e, w', d)
             | Inr d' \<Rightarrow> dispatch_attempts send event message name n (attempt + 1)
                 (Some (opt_or (dr_detail result) ''retryable_delivery_failed'')) (w', d'))
          else
            (let failed = \<lparr>dr_message_id = nm_message_id message, dr_gateway = name, dr_status = ''FAILED'',
               dr_attempt = attempt, dr_detail = Some (opt_or (dr_detail result) ''terminal_delivery_failed'')\<rparr>
             in (Inr failed, w', append_dlq event message failed d)))"

definition dispatch_single ::
    "('w \<Rightarrow> string \<Rightarrow> notification_message \<Rightarrow> send_outcome \<times> 'w) \<Rightarrow> notification_event \<Rightarrow> notification_message
      \<Rightarrow> string \<Rightarrow> 'w \<times> gateway_dispatcher \<Rightarrow> delivery_result result \<times> 'w \<times> gateway_dispatcher" where
  "dispatch_single send event message name st =
     dispatch_attempts send event message name (nat (gd_max_attempts (snd st))) 1 None st"

definition dispatch_message ::
    "('w \<Rightarrow> string \<Rightarrow> notification_message \<Rightarrow> send_outcome \<times> 'w) \<Rightarrow> notification_event \<Rightarrow> notification_message
      \<Rightarrow> 'w \<times> gateway_dispatcher \<Rightarrow> delivery_result result \<times> 'w \<times> gateway_dispatcher" where
  "dispatch_message send event message st = (case dict_get (gd_gateways (snd st)) (nm_gateway message) of
      None \<Rightarrow> (let result = \<lparr>dr_message_id = nm_message_id message, dr_gateway = nm_gateway message,
          dr_status = ''FAILED'', dr_attempt = 0, dr_detail = Some ''gateway_not_registered''\<rparr>
        in (Inr result, fst st, append_dlq event message result (snd st)))
    | Some name \<Rightarrow> dispatch_single send event message name st)"

fun dispatch ::
    "('w \<Rightarrow> string \<Rightarrow> notification_message \<Rightarrow> send_outcome \<times> 'w) \<Rightarrow> notification_event \<Rightarrow> notification_message list
      \<Rightarrow> 'w \<times> gateway_dispatcher \<Rightarrow> delivery_result list result \<times> 'w \<times> gateway_dispatcher" where
  "dispatch send event [] st = (Inr [], st)"
| "dispatch send event (message # messages) st = (case dispatch_message send event message st of
      (Inl e, st') \<Rightarrow> (Inl e, st')
    | (Inr result, st') \<Rightarrow> (case dispatch send event messages st' of
          (Inl e, st'') \<Rightarrow> (Inl e, st'')
        | (Inr results, st'') \<Rightarrow> (Inr (result # results), st'')))"

definition dlq_items :: "gateway_dispatcher \<Rightarrow> (notification_event \<times> notification_message \<times> delivery_result) list" where
  "dlq_items d = gd_dlq d"

section \<open>Every message is accounted for\<close>

definition same_config :: "gateway_dispatcher \<Rightarrow> gateway_dispatcher \<Rightarrow> bool" where
  "same_config d d' \<longleftrightarrow> gd_gateways d' = gd_gateways d \<and> gd_max_attempts d' = gd_max_attempts d
     \<and> gd_backoff_base d' = gd_backoff_base d \<and> gd_backoff_multiplier d' = gd_backoff_multiplier d
     \<and> gd_max_backoff d' = gd_max_backoff d"

text \<open>The delays of all attempts can be computed.\<close>

definition backoff_fits :: "gateway_dispatcher \<Rightarrow> bool" where
  "backoff_fits d \<longleftrightarrow> list_all (\<lambda>k. returns (\<lambda>_. True) (fpow (gd_backoff_multiplier d) k)) [0..<nat (gd_max_attempts d)]"

text \<open>A result for a message, and what it adds to the dead-letter list.\<close>

definition result_for :: "gateway_dispatcher \<Rightarrow> notification_message \<Rightarrow> delivery_result \<Rightarrow> bool" where
  "result_for d m r \<longleftrightarrow> dr_message_id r = nm_message_id m \<and> dr_status r \<in> {''DELIVERED'', ''FAILED''}
     \<and> 0 \<le> dr_attempt r \<and> dr_attempt r \<le> gd_max_attempts d"

definition dead_letters ::
    "notification_event \<Rightarrow> notification_message list \<Rightarrow> delivery_result list
      \<Rightarrow> (notification_event \<times> notification_message \<times> delivery_result) list" where
  "dead_letters event ms rs = map (Pair event) (filter (\<lambda>(m, r). dr_status r = ''FAILED'') (zip ms rs))"

lemma same_config_trans: "same_config d d' \<Longrightarrow> same_config d' d'' \<Longrightarrow> same_config d d''"
  by (simp add: same_config_def)

lemma same_config_backoff: "same_config d d' \<Longrightarrow> backoff_fits d' = backoff_fits d"
  by (simp add: same_config_def backoff_fits_def)

lemma append_dlq_fields: "same_config d (append_dlq e m r d)" "gd_dlq (append_dlq e m r d) = gd_dlq d @ [(e, m, r)]"
  by (simp_all add: append_dlq_def same_config_def)

lemma sleep_after_attempt_total:
  assumes "backoff_fits d" "1 \<le> attempt"
  obtains d' where "sleep_after_attempt attempt d = Inr d'" "same_config d d'" "gd_dlq d' = gd_dlq d"
proof (cases "gd_max_attempts d \<le> attempt")
  case True
  then show ?thesis using that[of d] by (simp add: sleep_after_attempt_def same_config_def)
next
  case False
  have k: "nat (max 0 (attempt - 1)) \<in> set [0..<nat (gd_max_attempts d)]" using False assms(2) by auto
  obtain x where x: "fpow (gd_backoff_multiplier d) (nat (max 0 (attempt - 1))) = Inr x"
    using assms(1) k unfolding backoff_fits_def list_all_iff returns_iff by blast
  let ?delay = "fmin (fmul (gd_backoff_base d) x) (gd_max_backoff d)"
  have "sleep_after_attempt attempt d = Inr (if fle ?delay (Fin 0) then d else d\<lparr>gd_slept := gd_slept d @ [?delay]\<rparr>)"
    using False x by (simp add: sleep_after_attempt_def Let_def)
  then show ?thesis by (rule that) (simp_all add: same_config_def)
qed

lemma dispatch_attempts_accounts:
  assumes "backoff_fits d" "1 \<le> attempt" "attempt + int n = gd_max_attempts d + 1"
  shows "\<exists>r w' d'. dispatch_attempts send e m name n attempt last_error (w, d) = (Inr r, w', d')
    \<and> same_config d d' \<and> result_for d m r \<and> gd_dlq d' = gd_dlq d @ dead_letters e [m] [r]"
  using assms
proof (induction n arbitrary: attempt last_error w d)
  case 0
  then show ?case
    using append_dlq_fields by (auto simp: Let_def result_for_def dead_letters_def)
next
  case (Suc n)
  obtain oc w1 where s: "send w (nm_gateway m) m = (oc, w1)" by fastforce
  obtain d1 where d1: "sleep_after_attempt attempt d = Inr d1" "same_config d d1" "gd_dlq d1 = gd_dlq d"
    using sleep_after_attempt_total[OF Suc.prems(1,2)] by blast
  have mx: "gd_max_attempts d1 = gd_max_attempts d" using d1(2) by (simp add: same_config_def)
  have "backoff_fits d1" "1 \<le> attempt + 1" "attempt + 1 + int n = gd_max_attempts d1 + 1"
    using Suc.prems same_config_backoff[OF d1(2)] mx by simp_all
  note ih = Suc.IH[OF this]
  have retry: "\<exists>r w' d'. dispatch_attempts send e m name n (attempt + 1) le (w1, d1) = (Inr r, w', d')
      \<and> same_config d d' \<and> result_for d m r \<and> gd_dlq d' = gd_dlq d @ dead_letters e [m] [r]" for le
    using ih[of le w1] same_config_trans[OF d1(2)] unfolding d1(3) result_for_def mx by blast
  have le: "attempt \<le> gd_max_attempts d" using Suc.prems by simp
  show ?case
  proof (cases oc)
    case (Raised msg cls retryable)
    then show ?thesis using s d1 retry append_dlq_fields Suc.prems le
      by (cases retryable) (auto simp: Let_def result_for_def dead_letters_def)
  next
    case (Sent r)
    consider "dr_status r = ''DELIVERED''" | "dr_status r \<noteq> ''DELIVERED''" "is_retryable_status (dr_status r)"
      | "dr_status r \<noteq> ''DELIVERED''" "\<not> is_retryable_status (dr_status r)" by blast
    then show ?thesis
    proof cases
      case 1
      then show ?thesis using Sent s Suc.prems le
        by (simp add: result_for_def dead_letters_def same_config_def)
    next
      case 2
      then show ?thesis using Sent s d1 retry by simp
    next
      case 3
      then show ?thesis using Sent s append_dlq_fields Suc.prems le
        by (auto simp: Let_def result_for_def dead_letters_def)
    qed
  qed
qed

lemma dispatch_message_accounts:
  assumes "backoff_fits d" "0 < gd_max_attempts d"
  shows "\<exists>r w' d'. dispatch_message send e m (w, d) = (Inr r, w', d')
    \<and> same_config d d' \<and> result_for d m r \<and> gd_dlq d' = gd_dlq d @ dead_letters e [m] [r]"
proof (cases "dict_get (gd_gateways d) (nm_gateway m)")
  case None
  then show ?thesis using assms append_dlq_fields
    by (auto simp: dispatch_message_def Let_def result_for_def dead_letters_def)
next
  case (Some name)
  have "1 + int (nat (gd_max_attempts d)) = gd_max_attempts d + 1" using assms(2) by simp
  from dispatch_attempts_accounts[OF assms(1) order_refl this, of send e m name None w]
  show ?thesis by (simp add: dispatch_message_def dispatch_single_def Some)
qed

lemma dispatch_accounts:
  assumes "backoff_fits d" "0 < gd_max_attempts d"
  shows "\<exists>rs w' d'. dispatch send e ms (w, d) = (Inr rs, w', d') \<and> same_config d d'
    \<and> list_all2 (result_for d) ms rs \<and> gd_dlq d' = gd_dlq d @ dead_letters e ms rs"
  using assms
proof (induction ms arbitrary: w d)
  case Nil
  then show ?case by (simp add: same_config_def dead_letters_def)
next
  case (Cons m ms)
  obtain r w1 d1 where d1: "dispatch_message send e m (w, d) = (Inr r, w1, d1)" "same_config d d1"
    "result_for d m r" "gd_dlq d1 = gd_dlq d @ dead_letters e [m] [r]"
    using dispatch_message_accounts[OF Cons.prems, of send e m w] by blast
  have mx: "gd_max_attempts d1 = gd_max_attempts d" using d1(2) by (simp add: same_config_def)
  have rf: "result_for d1 = result_for d" by (simp add: result_for_def mx fun_eq_iff)
  obtain rs w2 d2 where d2: "dispatch send e ms (w1, d1) = (Inr rs, w2, d2)" "same_config d1 d2"
    "list_all2 (result_for d) ms rs" "gd_dlq d2 = gd_dlq d1 @ dead_letters e ms rs"
    using Cons.IH[of d1 w1] Cons.prems same_config_backoff[OF d1(2)] unfolding mx rf by blast
  have "dead_letters e (m # ms) (r # rs) = dead_letters e [m] [r] @ dead_letters e ms rs"
    by (simp add: dead_letters_def)
  then show ?case using d1 d2 same_config_trans[OF d1(2) d2(2)] by simp
qed

section \<open>Telemetry\<close>

record notification_span =
  sp_event_id :: string
  sp_trace_id :: string
  sp_decision_id :: string
  sp_stage :: string
  sp_status :: string
  sp_latency_ms :: pyfloat
  sp_gateway :: "string option"
  sp_attempt :: "int option"
  sp_started_at :: string
  sp_completed_at :: string

record delivery_log =
  dl_event_id :: string
  dl_trace_id :: string
  dl_decision_id :: string
  dl_event_type :: string
  dl_severity :: string
  dl_gateway :: string
  dl_status :: string
  dl_attempt :: int
  dl_detail :: "string option"
  dl_logged_at :: string

record collector =
  no_max_records :: int
  no_totals :: "(string, int) dict"
  no_suppression :: "(string, int) dict"
  no_gateway_status :: "(string, int) dict"
  no_retry_histogram :: "(string, int) dict"
  no_logs :: "delivery_log list"
  no_spans :: "notification_span list"

text \<open>\<open>d[k] += n\<close>\<close>

definition dict_add :: "'k \<Rightarrow> int \<Rightarrow> ('k, int) dict \<Rightarrow> ('k, int) dict" where
  "dict_add k n d = dict_set k (dict_get_default d k 0 + n) d"

definition collector_init :: "int \<Rightarrow> collector result" where
  "collector_init max_records =
     (if max_records \<le> 0 then Inl (Exc ValueError ''max_records must be positive'')
      else Inr \<lparr>no_max_records = max_records,
        no_totals = map (\<lambda>k. (k, 0)) [''received_total'', ''filtered_total'', ''dispatched_total'',
          ''delivered_total'', ''failed_total'', ''retryable_total'', ''dlq_total''],
        no_suppression = [(''dedupe'', 0), (''rate_limit'', 0)], no_gateway_status = [],
        no_retry_histogram = [], no_logs = [], no_spans = []\<rparr>)"

definition record_event_received :: "collector \<Rightarrow> collector" where
  "record_event_received c = c\<lparr>no_totals := dict_add ''received_total'' 1 (no_totals c)\<rparr>"

definition append_log :: "delivery_log \<Rightarrow> collector \<Rightarrow> collector" where
  "append_log l c = c\<lparr>no_logs := last_n (nat (no_max_records c)) (no_logs c @ [l])\<rparr>"

definition append_span :: "notification_span \<Rightarrow> collector \<Rightarrow> collector" where
  "append_span sp c = c\<lparr>no_spans := last_n (nat (no_max_records c)) (no_spans c @ [sp])\<rparr>"

text \<open>Latency and start and end stamps of a stage.\<close>

type_synonym stage_times = "pyfloat \<times> string \<times> string"

definition stage_span :: "notification_event \<Rightarrow> string \<Rightarrow> string \<Rightarrow> stage_times \<Rightarrow> notification_span" where
  "stage_span event stage status ts = (case ts of (latency, started, completed) \<Rightarrow>
     \<lparr>sp_event_id = ne_id event, sp_trace_id = ne_trace_id event, sp_decision_id = ne_decision_id event,
      sp_stage = stage, sp_status = status, sp_latency_ms = latency, sp_gateway = None, sp_attempt = None, sp_started_at = started,
      sp_completed_at = completed\<rparr>)"

definition record_policy_result ::
    "notification_event \<Rightarrow> nat \<Rightarrow> (string, int) dict \<Rightarrow> stage_times \<Rightarrow> collector \<Rightarrow> collector" where
  "record_policy_result event messages_count suppression_delta ts c =
     (let filtered = sum_list (map (\<lambda>(k, v). max 0 v) suppression_delta);
          c1 = c\<lparr>no_totals := dict_add ''filtered_total'' filtered (no_totals c)\<rparr>;
          c2 = fold (\<lambda>key c. c\<lparr>no_suppression := dict_add key (max 0 (dict_get_default suppression_delta key 0))
                 (no_suppression c)\<rparr>) [''dedupe'', ''rate_limit''] c1
      in append_span (stage_span event ''policy_router'' (if messages_count = 0 then ''filtered'' else ''routed'') ts) c2)"

definition record_delivery :: "notification_event \<Rightarrow> string \<Rightarrow> delivery_result \<Rightarrow> collector \<Rightarrow> collector" where
  "record_delivery event completed_at result c =
     (let status = norm_upper (dr_status result);
          outcome = (if status = ''DELIVERED'' then ''delivered_total''
            else if status \<in> {''RETRYABLE'', ''RETRYABLE_ERROR'', ''FAILED_RETRYABLE''} then ''retryable_total''
            else ''failed_total'');
          totals = dict_add outcome 1 (no_totals c);
          c1 = c\<lparr>no_totals := (if dr_attempt result > 1
                   then dict_add ''retryable_total'' (dr_attempt result - 1) totals else totals),
                no_gateway_status := dict_incr (dr_gateway result @ '':'' @ status) (no_gateway_status c),
                no_retry_histogram := dict_incr (int_str (max 1 (dr_attempt result))) (no_retry_histogram c)\<rparr>
      in append_log \<lparr>dl_event_id = ne_id event, dl_trace_id = ne_trace_id event,
           dl_decision_id = ne_decision_id event, dl_event_type = ne_event_type event,
           dl_severity = severity_value (ne_severity event), dl_gateway = dr_gateway result,
           dl_status = status, dl_attempt = dr_attempt result, dl_detail = dr_detail result,
           dl_logged_at = completed_at\<rparr> c1)"

definition dispatch_status :: "delivery_result list \<Rightarrow> string" where
  "dispatch_status results =
     (let delivered = (\<lambda>r. norm_upper (dr_status r) = ''DELIVERED'') in
      if list_ex (\<lambda>r. \<not> delivered r) results
      then (if list_ex delivered results then ''partial_failure'' else ''failed'') else ''succeeded'')"

definition record_dispatch_result ::
    "notification_event \<Rightarrow> delivery_result list \<Rightarrow> int \<Rightarrow> stage_times \<Rightarrow> collector \<Rightarrow> collector" where
  "record_dispatch_result event results dlq_delta ts c =
     (let c1 = c\<lparr>no_totals := dict_add ''dlq_total'' (max 0 dlq_delta)
            (dict_add ''dispatched_total'' (int (length results)) (no_totals c))\<rparr>;
          c2 = fold (record_delivery event (snd (snd ts))) results c1
      in append_span (stage_span event ''gateway_dispatch'' (dispatch_status results) ts) c2)"

record collector_snapshot =
  cs_totals :: "(string, int) dict"
  cs_suppression :: "(string, int) dict"
  cs_gateway_status :: "(string, int) dict"
  cs_retry_histogram :: "(string, int) dict"
  cs_recent_logs :: "delivery_log list"
  cs_recent_spans :: "notification_span list"
  cs_generated_at :: string

definition collector_snapshot_at :: "int \<Rightarrow> collector \<Rightarrow> collector_snapshot" where
  "collector_snapshot_at now c =
     \<lparr>cs_totals = no_totals c, cs_suppression = no_suppression c,
      cs_gateway_status = sort_key fst (no_gateway_status c),
      cs_retry_histogram = sort_key fst (no_retry_histogram c),
      cs_recent_logs = last_n (nat (no_max_records c)) (no_logs c),
      cs_recent_spans = last_n (nat (no_max_records c)) (no_spans c), cs_generated_at = iso_utc now\<rparr>"

section \<open>Service\<close>

record notification_service =
  ns_router :: policy_router
  ns_dispatcher :: gateway_dispatcher
  ns_observability :: "collector option"

definition delta_counts :: "(string, int) dict \<Rightarrow> (string, int) dict \<Rightarrow> (string, int) dict" where
  "delta_counts before after =
     map (\<lambda>key. (key, max 0 (dict_get_default after key 0 - dict_get_default before key 0)))
       (remdups (map fst before @ map fst after))"

definition process_envelope ::
    "('w \<Rightarrow> string \<Rightarrow> notification_message \<Rightarrow> send_outcome \<times> 'w) \<Rightarrow> pyfloat \<Rightarrow> stage_times \<Rightarrow> stage_times \<Rightarrow> pyval
      \<Rightarrow> 'w \<times> notification_service \<Rightarrow> processing_result result \<times> 'w \<times> notification_service" where
  "process_envelope send now_seconds route_times dispatch_times envelope st = (case st of (w, s) \<Rightarrow>
     case normalize_event envelope of
       Inl e \<Rightarrow> (Inl e, w, s)
     | Inr event \<Rightarrow>
        (let s1 = s\<lparr>ns_observability := map_option record_event_received (ns_observability s)\<rparr>;
             before = suppression_counts (ns_router s1) in
         case route event now_seconds (ns_router s1) of (messages, router') \<Rightarrow>
         let delta = delta_counts before (suppression_counts router');
             s2 = s1\<lparr>ns_router := router', ns_observability := map_option
               (record_policy_result event (length messages) delta route_times) (ns_observability s1)\<rparr>;
             dlq_before = int (length (dlq_items (ns_dispatcher s2))) in
         case dispatch send event messages (w, ns_dispatcher s2) of
           (Inl e, w', d') \<Rightarrow> (Inl e, w', s2\<lparr>ns_dispatcher := d'\<rparr>)
         | (Inr results, w', d') \<Rightarrow>
             (Inr \<lparr>pr_event = event, pr_messages = messages, pr_results = results\<rparr>, w',
              s2\<lparr>ns_dispatcher := d', ns_observability := map_option
                (record_dispatch_result event results (max 0 (int (length (dlq_items d')) - dlq_before)) dispatch_times)
                (ns_observability s2)\<rparr>)))"

section \<open>Telemetry adds up\<close>

definition tally :: "collector \<Rightarrow> string \<Rightarrow> int" where
  "tally c k = dict_get_default (no_totals c) k 0"

text \<open>Totals of a collector against the length of the dead-letter list.\<close>

definition collector_ok :: "nat \<Rightarrow> collector \<Rightarrow> bool" where
  "collector_ok dead c \<longleftrightarrow> tally c ''dispatched_total'' = tally c ''delivered_total'' + tally c ''failed_total''
     \<and> tally c ''failed_total'' = tally c ''dlq_total'' \<and> tally c ''dlq_total'' = int dead"

definition service_ok :: "notification_service \<Rightarrow> bool" where
  "service_ok s \<longleftrightarrow> backoff_fits (ns_dispatcher s) \<and> 0 < gd_max_attempts (ns_dispatcher s)
     \<and> (case ns_observability s of None \<Rightarrow> True | Some c \<Rightarrow> collector_ok (length (gd_dlq (ns_dispatcher s))) c)"

lemma get_dict_add: "dict_get_default (dict_add k n d) k' 0 = dict_get_default d k' 0 + (if k' = k then n else 0)"
  by (simp add: dict_add_def dict_get_default_def)

lemma tally_append [simp]: "tally (append_log l c) k = tally c k" "tally (append_span sp c) k = tally c k"
  by (simp_all add: tally_def append_log_def append_span_def)

lemma norm_statuses: "norm_upper ''DELIVERED'' = ''DELIVERED''" "norm_upper ''FAILED'' = ''FAILED''"
  by (simp_all add: norm_upper_def py_upper_def upper_char_def py_strip_def strip_chars_def is_space_def)

lemma tally_record_delivery:
  assumes "dr_status r \<in> {''DELIVERED'', ''FAILED''}" "k \<noteq> ''retryable_total''"
  shows "tally (record_delivery e t r c) k = tally c k
     + (if k = (if dr_status r = ''FAILED'' then ''failed_total'' else ''delivered_total'') then 1 else 0)"
proof -
  from assms(1) consider "dr_status r = ''DELIVERED''" | "dr_status r = ''FAILED''" by auto
  then show ?thesis
    by cases (use assms(2) in \<open>simp_all add: record_delivery_def Let_def norm_statuses tally_def get_dict_add append_log_def\<close>)
qed

lemma tally_deliveries:
  assumes "list_all (\<lambda>r. dr_status r \<in> {''DELIVERED'', ''FAILED''}) rs" "k \<noteq> ''retryable_total''"
  shows "tally (fold (record_delivery e t) rs c) k = tally c k
     + (if k = ''failed_total'' then int (length (filter (\<lambda>r. dr_status r = ''FAILED'') rs)) else 0)
     + (if k = ''delivered_total'' then int (length (filter (\<lambda>r. dr_status r \<noteq> ''FAILED'') rs)) else 0)"
  using assms(1)
proof (induction rs arbitrary: c)
  case (Cons r rs)
  then have "dr_status r \<in> {''DELIVERED'', ''FAILED''}" by simp
  from tally_record_delivery[OF this assms(2), of e t c] Cons show ?case by simp
qed simp

lemma tally_dispatch_result:
  assumes "list_all (\<lambda>r. dr_status r \<in> {''DELIVERED'', ''FAILED''}) rs" "k \<noteq> ''retryable_total''"
  shows "tally (record_dispatch_result e rs n ts c) k = tally c k
     + (if k = ''dispatched_total'' then int (length rs) else 0) + (if k = ''dlq_total'' then max 0 n else 0)
     + (if k = ''failed_total'' then int (length (filter (\<lambda>r. dr_status r = ''FAILED'') rs)) else 0)
     + (if k = ''delivered_total'' then int (length (filter (\<lambda>r. dr_status r \<noteq> ''FAILED'') rs)) else 0)"
  unfolding record_dispatch_result_def Let_def tally_append tally_deliveries[OF assms]
  by (simp add: tally_def get_dict_add)

lemma tally_policy_result: "k \<noteq> ''filtered_total'' \<Longrightarrow> tally (record_policy_result e n sd ts c) k = tally c k"
  by (simp add: record_policy_result_def Let_def tally_def get_dict_add append_span_def)

lemma tally_received: "k \<noteq> ''received_total'' \<Longrightarrow> tally (record_event_received c) k = tally c k"
  by (simp add: record_event_received_def tally_def get_dict_add)

lemma dead_letters_length:
  "length ms = length rs \<Longrightarrow> length (dead_letters e ms rs) = length (filter (\<lambda>r. dr_status r = ''FAILED'') rs)"
  by (induction ms rs rule: list_induct2) (simp_all add: dead_letters_def)

lemma service_ok_step:
  assumes ok: "service_ok s" and p: "process_envelope send now t1 t2 env (w, s) = (v, w', s')"
  shows "service_ok s'"
proof (cases "normalize_event env")
  case (Inl e)
  then show ?thesis using assms by (simp add: process_envelope_def)
next
  case (Inr event)
  obtain ms r' where r: "route event now (ns_router s) = (ms, r')" by fastforce
  have d: "backoff_fits (ns_dispatcher s)" "0 < gd_max_attempts (ns_dispatcher s)" using ok by (simp_all add: service_ok_def)
  obtain rs w2 d' where x: "dispatch send event ms (w, ns_dispatcher s) = (Inr rs, w2, d')" "same_config (ns_dispatcher s) d'"
    "list_all2 (result_for (ns_dispatcher s)) ms rs" "gd_dlq d' = gd_dlq (ns_dispatcher s) @ dead_letters event ms rs"
    using dispatch_accounts[OF d, of send event ms w] by blast
  have st: "list_all (\<lambda>r. dr_status r \<in> {''DELIVERED'', ''FAILED''}) rs"
    using x(3) by (auto simp: list_all2_conv_all_nth list_all_length result_for_def)
  have n: "length (dead_letters event ms rs) = length (filter (\<lambda>r. dr_status r = ''FAILED'') rs)"
    using dead_letters_length list_all2_lengthD[OF x(3)] by blast
  have s': "ns_dispatcher s' = d'" "ns_observability s' = map_option (\<lambda>c. record_dispatch_result event rs
      (int (length (dead_letters event ms rs))) t2 (record_policy_result event (length ms)
        (delta_counts (suppression_counts (ns_router s)) (suppression_counts r')) t1 (record_event_received c)))
      (ns_observability s)"
    using p x(1,4) r by (auto simp: process_envelope_def Inr Let_def dlq_items_def map_option.compositionality comp_def)
  have "collector_ok (length (gd_dlq d')) (record_dispatch_result event rs (int (length (dead_letters event ms rs))) t2
      (record_policy_result event k sd t1 (record_event_received c)))"
    if "collector_ok (length (gd_dlq (ns_dispatcher s))) c" for c k sd
    using that x(4) n sum_length_filter_compl[of "\<lambda>r. dr_status r = ''FAILED''" rs]
    unfolding collector_ok_def by (simp add: tally_dispatch_result[OF st] tally_policy_result tally_received)
  then show ?thesis using ok s' same_config_backoff[OF x(2)] x(2)
    by (auto simp: service_ok_def same_config_def split: option.splits)
qed

text \<open>A sequence of envelopes, each with its time and the readings of the stage clocks.\<close>

primrec process_all ::
    "('w \<Rightarrow> string \<Rightarrow> notification_message \<Rightarrow> send_outcome \<times> 'w) \<Rightarrow> (pyval \<times> pyfloat \<times> stage_times \<times> stage_times) list
      \<Rightarrow> 'w \<times> notification_service \<Rightarrow> 'w \<times> notification_service" where
  "process_all send [] st = st"
| "process_all send (job # jobs) st = (case job of (env, now, t1, t2) \<Rightarrow>
     process_all send jobs (snd (process_envelope send now t1 t2 env st)))"

lemma process_envelope_observability:
  "ns_observability (snd (snd (process_envelope send now t1 t2 env (w, s)))) = None \<longleftrightarrow> ns_observability s = None"
proof (cases "normalize_event env")
  case (Inr event)
  obtain ms r where r: "route event now (ns_router s) = (ms, r)" by fastforce
  obtain v w' d where d: "dispatch send event ms (w, ns_dispatcher s) = (v, w', d)" by (metis prod_cases3)
  show ?thesis by (cases v) (simp_all add: process_envelope_def Inr Let_def r d)
qed (simp add: process_envelope_def)

lemma process_all_ok:
  assumes "service_ok s"
  shows "service_ok (snd (process_all send jobs (w, s)))
    \<and> (ns_observability (snd (process_all send jobs (w, s))) = None \<longleftrightarrow> ns_observability s = None)"
  using assms
proof (induction jobs arbitrary: w s)
  case (Cons j jobs)
  obtain env now t1 t2 where j: "j = (env, now, t1, t2)" by (cases j) auto
  obtain v w' s' where p: "process_envelope send now t1 t2 env (w, s) = (v, w', s')" by (metis prod_cases3)
  show ?case
    using Cons.IH[OF service_ok_step[OF Cons.prems p], of w'] process_envelope_observability[of send now t1 t2 env w s]
    by (simp add: j p)
qed simp

section \<open>Properties\<close>

text \<open>C22: When the powers of the back-off multiplier up to the configured number of attempts fit a float, then
  however the gateways behave, dispatching ends with exactly one result per message, in order, delivered
  or failed and with no more attempts than configured, and the failed messages, and only they, are
  appended to the dead-letter list.\<close>

theorem dispatch_accounts_for_every_message:
  assumes "dispatcher_init gateways max_attempts base multiplier max_backoff = Inr d" and "backoff_fits d"
  shows "case dispatch send event ms (w, d) of (v, w', d') \<Rightarrow>
    returns (\<lambda>rs. list_all2 (result_for d) ms rs \<and> gd_dlq d' = dead_letters event ms rs) v"
proof -
  have "0 < gd_max_attempts d" "gd_dlq d = []" using assms(1) by (auto simp: dispatcher_init_def split: if_splits)
  then show ?thesis using dispatch_accounts[OF assms(2), of send event ms w] by (auto simp: returns_def)
qed

definition flaky_send :: "nat \<Rightarrow> string \<Rightarrow> notification_message \<Rightarrow> send_outcome \<times> nat" where
  "flaky_send n gateway m = (if n = 0 then Raised ''timeout'' ''TimeoutError'' True
     else fst (in_memory_send gateway [] m), Suc n)"

definition sample_message :: "string \<Rightarrow> notification_message" where
  "sample_message gateway = \<lparr>nm_message_id = gateway, nm_user_id = ''ops'', nm_gateway = gateway, nm_severity = INFO,
     nm_title = [], nm_body = [], nm_metadata = []\<rparr>"

definition sample_dispatcher :: gateway_dispatcher where
  "sample_dispatcher = \<lparr>gd_gateways = [(''telegram'', ''telegram'')], gd_max_attempts = 3, gd_backoff_base = Fin 1,
     gd_backoff_multiplier = Fin 2, gd_max_backoff = Fin 2, gd_dlq = [], gd_slept = []\<rparr>"

lemma sample_deliveries:
  "dispatch_message flaky_send e (sample_message ''telegram'') (0, sample_dispatcher) =
     (Inr \<lparr>dr_message_id = ''telegram'', dr_gateway = ''telegram'', dr_status = ''DELIVERED'', dr_attempt = 2, dr_detail = None\<rparr>,
      Suc (Suc 0), sample_dispatcher\<lparr>gd_slept := [Fin 1]\<rparr>)"
  "dispatch_message flaky_send e (sample_message ''email'') (w, sample_dispatcher\<lparr>gd_slept := [Fin 1]\<rparr>) =
     (let r = \<lparr>dr_message_id = ''email'', dr_gateway = ''email'', dr_status = ''FAILED'', dr_attempt = 0,
        dr_detail = Some ''gateway_not_registered''\<rparr>
      in (Inr r, w, append_dlq e (sample_message ''email'') r (sample_dispatcher\<lparr>gd_slept := [Fin 1]\<rparr>)))"
  by (simp_all add: sample_dispatcher_def sample_message_def dispatch_message_def dispatch_single_def eval_nat_numeral
      flaky_send_def in_memory_send_def sleep_after_attempt_def Let_def)

theorem dispatch_accounts_for_every_message_witness:
  "returns (\<lambda>d. case dispatch flaky_send (sample_notification ''a'') [sample_message ''telegram'', sample_message ''email''] (0, d) of
      (v, w', d') \<Rightarrow> returns (\<lambda>rs. map (\<lambda>r. (dr_status r, dr_attempt r)) rs = [(''DELIVERED'', 2), (''FAILED'', 0)]
        \<and> map (nm_gateway \<circ> fst \<circ> snd) (gd_dlq d') = [''email'']) v)
    (dispatcher_init [(''telegram'', ''telegram'')] 3 (Fin 1) (Fin 2) (Fin 2))"
proof -
  have d: "dispatcher_init [(''telegram'', ''telegram'')] 3 (Fin 1) (Fin 2) (Fin 2) = Inr sample_dispatcher"
    by (simp add: dispatcher_init_def sample_dispatcher_def)
  have f: "backoff_fits sample_dispatcher" by code_simp
  let ?ms = "[sample_message ''telegram'', sample_message ''email'']"
  have e: "returns (\<lambda>rs. map (\<lambda>r. (dr_status r, dr_attempt r)) rs = [(''DELIVERED'', 2), (''FAILED'', 0)])
      (fst (dispatch flaky_send (sample_notification ''a'') ?ms (0, sample_dispatcher)))"
    by (simp add: sample_deliveries Let_def returns_def)
  show ?thesis
    using dispatch_accounts_for_every_message[OF d f, where send = flaky_send and event = "sample_notification ''a''"
        and ms = ?ms and w = 0] e
    by (auto simp: d returns_iff dead_letters_def sample_message_def split: prod.splits)
qed

text \<open>Where a power does not fit, the retry raises before the cap on the delay applies, and the message is neither
  delivered nor a dead letter: with multiplier 2, the first such attempt is number 1025.\<close>

lemma backoff_overflow_loses_message:
  assumes "gd_backoff_multiplier d = Fin 2" "1025 \<le> attempt" "attempt < gd_max_attempts d"
    and "send w (nm_gateway m) m = (Raised msg cls True, w')"
  shows "\<exists>e. exc_class e = OverflowError
    \<and> dispatch_attempts send event m name (Suc n) attempt last_error (w, d) = (Inl e, w', d)"
proof -
  have "\<not> nat (max 0 (attempt - 1)) < 1024" using assms(2) by simp
  then show ?thesis using assms by (simp add: sleep_after_attempt_def fpow_two)
qed

text \<open>Over any sequence of envelopes, valid or not, with delays that can be computed and whatever the gateways do, the telemetry adds up:
  every dispatched message was counted either as delivered or as failed, and the failed ones are
  exactly as many as the dead letters.\<close>

theorem notification_telemetry_adds_up:
  assumes "dispatcher_init gateways max_attempts base multiplier max_backoff = Inr d" and "backoff_fits d"
    and "collector_init max_records = Inr c"
  shows "case process_all send jobs (w, \<lparr>ns_router = r, ns_dispatcher = d, ns_observability = Some c\<rparr>) of (w', s') \<Rightarrow>
    (case ns_observability s' of None \<Rightarrow> False | Some c' \<Rightarrow> collector_ok (length (gd_dlq (ns_dispatcher s'))) c')"
proof -
  let ?s = "\<lparr>ns_router = r, ns_dispatcher = d, ns_observability = Some c\<rparr>"
  have "0 < gd_max_attempts d" "gd_dlq d = []" using assms(1) by (auto simp: dispatcher_init_def split: if_splits)
  moreover have "collector_ok 0 c"
    using assms(3) by (auto simp: collector_init_def collector_ok_def tally_def dict_get_default_def split: if_splits)
  ultimately have "service_ok ?s" using assms(2) by (simp add: service_ok_def)
  from process_all_ok[OF this, of send jobs w] show ?thesis
    by (auto simp: service_ok_def split: prod.splits option.splits)
qed

definition sample_router :: policy_router where
  "sample_router = \<lparr>nr_preferences = [], nr_dedupe_window = Fin 120, nr_rate_limit = 30,
     nr_dedupe_seen_at = [], nr_rate_events = [], nr_suppressed = [(''dedupe'', 0), (''rate_limit'', 0)]\<rparr>"

theorem notification_telemetry_adds_up_witness:
  "returns (\<lambda>c. case process_all flaky_send [(PNone, Fin 0, (Fin 1, [], []), (Fin 1, [], []))]
      (0, \<lparr>ns_router = sample_router, ns_dispatcher = sample_dispatcher, ns_observability = Some c\<rparr>) of (w', s') \<Rightarrow>
    (case ns_observability s' of None \<Rightarrow> False | Some c' \<Rightarrow> collector_ok (length (gd_dlq (ns_dispatcher s'))) c'))
    (collector_init 10)"
proof -
  have d: "dispatcher_init [(''telegram'', ''telegram'')] 3 (Fin 1) (Fin 2) (Fin 2) = Inr sample_dispatcher"
    by (simp add: dispatcher_init_def sample_dispatcher_def)
  have f: "backoff_fits sample_dispatcher" by code_simp
  obtain c where c: "collector_init 10 = Inr c" by (simp add: collector_init_def)
  show ?thesis
    using notification_telemetry_adds_up[OF d f c, where send = flaky_send and w = 0 and r = sample_router
        and jobs = "[(PNone, Fin 0, (Fin 1, [], []), (Fin 1, [], []))]"]
    by (simp add: c returns_def)
qed

end
