(* ===== verification/Api_Rate_Limiter.thy ===== *)
theory Api_Rate_Limiter
  imports Py_Window Py_Convert
begin

text \<open>
  The rate limiters of the API (\<open>services/api/rate_limiter.py\<close>): the in-process sliding window with
  its bucket limit and periodic clean-up, and the Redis-backed variant with its fall-back. The time
  of a request is an argument. The lemmas show that no client is ever admitted more often than
  configured within a window, clean-up included, and that the Redis variant always answers from
  its fall-back.
\<close>

section \<open>State\<close>

record rate_limiter =
  rl_window_seconds :: int
  rl_max_requests :: int
  rl_max_buckets :: int
  rl_cleanup_interval :: int
  rl_windows :: "(string, pyfloat list) dict"
  rl_request_count :: int

type_synonym verdict = "bool \<times> pydict"

section \<open>Arithmetic of the language\<close>

text \<open>\<open>x - n\<close> and \<open>x + n\<close> for an \<open>int\<close> \<open>n\<close> in the range of floats\<close>

definition fsub_int :: "pyfloat \<Rightarrow> int \<Rightarrow> pyfloat" where
  "fsub_int x n = fsub x (fl (of_int n))"

definition fadd_int :: "pyfloat \<Rightarrow> int \<Rightarrow> pyfloat" where
  "fadd_int x n = fadd x (fl (of_int n))"

section \<open>In-memory limiter\<close>

definition cleanup :: "pyfloat \<Rightarrow> rate_limiter \<Rightarrow> rate_limiter" where
  "cleanup now rl =
     (let stale_cutoff = fsub_int now (rl_window_seconds rl * 2);
          stale_keys = map fst (filter (\<lambda>(k, v). v = [] \<or> flt (last v) stale_cutoff) (rl_windows rl))
      in rl\<lparr>rl_windows := fold dict_del stale_keys (rl_windows rl)\<rparr>)"

definition check_bucket :: "string \<Rightarrow> pyfloat \<Rightarrow> rate_limiter \<Rightarrow> verdict result \<times> rate_limiter" where
  "check_bucket key now rl =
     (if dict_get (rl_windows rl) key = None \<and> rl_max_buckets rl \<le> int (length (rl_windows rl))
      then (Inr (False, [(''reason'', PStr ''bucket_limit''), (''retry_after'', PInt (rl_window_seconds rl))]), rl)
      else
       (let cutoff = fsub_int now (rl_window_seconds rl);
            bucket = dropWhile (\<lambda>t. flt t cutoff) (dict_get_default (rl_windows rl) key []) in
        if rl_max_requests rl \<le> int (length bucket) then
          ((case bucket of
              [] \<Rightarrow> Inl (Exc IndexError ''deque index out of range'')
            | oldest # _ \<Rightarrow>
                rbind (int_of_float (fsub (fadd_int oldest (rl_window_seconds rl)) now)) (\<lambda>wait.
                  Inr (False, [(''reason'', PStr ''rate_limit''), (''retry_after'', PInt (max 0 wait))]))),
           rl\<lparr>rl_windows := dict_set key bucket (rl_windows rl)\<rparr>)
        else
          (Inr (True, [(''remaining'', PInt (rl_max_requests rl - int (length (bucket @ [now]))))]),
           rl\<lparr>rl_windows := dict_set key (bucket @ [now]) (rl_windows rl)\<rparr>)))"

definition is_allowed :: "string \<Rightarrow> pyfloat \<Rightarrow> rate_limiter \<Rightarrow> verdict result \<times> rate_limiter" where
  "is_allowed key now rl0 =
     (let rl = rl0\<lparr>rl_request_count := rl_request_count rl0 + 1\<rparr> in
      if rl_cleanup_interval rl = 0
      then (Inl (Exc ZeroDivisionError ''integer modulo by zero''), rl)
      else check_bucket key now
        (if rl_request_count rl mod rl_cleanup_interval rl = 0 then cleanup now rl else rl))"

definition new_limiter :: "int \<Rightarrow> int \<Rightarrow> int \<Rightarrow> int \<Rightarrow> rate_limiter" where
  "new_limiter window_seconds max_requests max_buckets cleanup_interval =
     \<lparr>rl_window_seconds = window_seconds, rl_max_requests = max_requests, rl_max_buckets = max_buckets,
      rl_cleanup_interval = cleanup_interval, rl_windows = [], rl_request_count = 0\<rparr>"

section \<open>Redis limiter\<close>

record redis_limiter =
  rd_redis_url :: string
  rd_window_seconds :: int
  rd_max_requests :: int
  rd_fallback :: "rate_limiter option"
  rd_redis_available :: bool

text \<open>\<open>_check_redis\<close> computes its window start from \<open>self._window_seconds\<close>, an attribute the class does
  not have.\<close>

definition check_redis :: "string \<Rightarrow> redis_limiter \<Rightarrow> verdict result" where
  "check_redis key rd = Inl (Exc AttributeError
     (str_repr ''RedisRateLimiter'' @ '' object has no attribute '' @ str_repr ''_window_seconds''))"

definition get_fallback :: "redis_limiter \<Rightarrow> rate_limiter \<times> redis_limiter" where
  "get_fallback rd = (case rd_fallback rd of
      Some rl \<Rightarrow> (rl, rd)
    | None \<Rightarrow> (let rl = new_limiter (rd_window_seconds rd) (rd_max_requests rd) 10000 1000
        in (rl, rd\<lparr>rd_fallback := Some rl\<rparr>)))"

definition fallback_allowed :: "string \<Rightarrow> pyfloat \<Rightarrow> redis_limiter \<Rightarrow> verdict result \<times> redis_limiter" where
  "fallback_allowed key now rd = (case get_fallback rd of (rl, rd') \<Rightarrow>
     case is_allowed key now rl of (v, rl') \<Rightarrow> (v, rd'\<lparr>rd_fallback := Some rl'\<rparr>))"

definition redis_is_allowed :: "string \<Rightarrow> pyfloat \<Rightarrow> redis_limiter \<Rightarrow> verdict result \<times> redis_limiter" where
  "redis_is_allowed key now rd =
     (if \<not> rd_redis_available rd then fallback_allowed key now rd
      else (case check_redis key rd of
          Inr v \<Rightarrow> (Inr v, rd)
        | Inl e \<Rightarrow> fallback_allowed key now (rd\<lparr>rd_redis_available := False\<rparr>)))"

definition new_redis_limiter :: "string \<Rightarrow> int \<Rightarrow> int \<Rightarrow> redis_limiter" where
  "new_redis_limiter redis_url window_seconds max_requests =
     \<lparr>rd_redis_url = redis_url, rd_window_seconds = window_seconds, rd_max_requests = max_requests,
      rd_fallback = None, rd_redis_available = True\<rparr>"

section \<open>The buckets are a sliding window\<close>

definition bucket_of :: "rate_limiter \<Rightarrow> string \<Rightarrow> pyfloat list" where
  "bucket_of rl key = dict_get_default (rl_windows rl) key []"

definition admit_request :: "string \<Rightarrow> pyfloat \<Rightarrow> rate_limiter \<Rightarrow> bool \<times> rate_limiter" where
  "admit_request key now rl = (case is_allowed key now rl of
      (Inr (allowed, _), rl') \<Rightarrow> (allowed, rl')
    | (Inl _, rl') \<Rightarrow> (False, rl'))"

definition window_start :: "nat \<Rightarrow> pyfloat \<Rightarrow> pyfloat" where
  "window_start w t = fsub t (Fin (of_nat w))"

definition times_wf :: "pyfloat \<Rightarrow> pyfloat list \<Rightarrow> bool" where
  "times_wf t ts \<longleftrightarrow> sorted_wrt fle ts \<and> list_all (\<lambda>x. clock_time x \<and> fle x t) ts"

definition limiter_inv :: "nat \<Rightarrow> int \<Rightarrow> pyfloat \<Rightarrow> rate_limiter \<Rightarrow> bool" where
  "limiter_inv w q t rl \<longleftrightarrow> rl_window_seconds rl = int w \<and> w < 2 ^ 52 \<and> rl_max_requests rl = q
     \<and> dict_wf (rl_windows rl) \<and> (\<forall>k. times_wf t (bucket_of rl k))"

lemma window_small: "w < 2 ^ 52 \<Longrightarrow> fl (of_nat w) = Fin (of_nat w)"
  "w < 2 ^ 52 \<Longrightarrow> fl (of_nat w * 2) = Fin (of_nat w * 2)"
  using fl_int[of "int w"] fl_int[of "int w * 2"] by simp_all

lemma dropWhile_fle: "sorted_wrt fle ts \<Longrightarrow> list_all clock_time ts \<Longrightarrow> c \<noteq> NaN \<Longrightarrow>
    dropWhile (\<lambda>t. flt t c) ts = filter (fle c) ts"
proof (induction ts)
  case (Cons x ts)
  have x: "x \<noteq> NaN" using Cons.prems by (auto simp: clock_time_Fin)
  show ?case
  proof (cases "flt x c")
    case True
    then show ?thesis using Cons not_fle[OF Cons.prems(3) x] by simp
  next
    case False
    then have "fle c x" using not_flt[OF x Cons.prems(3)] by simp
    moreover have "filter (fle c) ts = ts"
      using Cons.prems(1) calculation fle_trans by (intro filter_True) auto
    ultimately show ?thesis using False by simp
  qed
qed simp

lemma times_wf_filter: "times_wf t ts \<Longrightarrow> times_wf t (filter p ts)"
  by (auto simp: times_wf_def list_all_iff sorted_wrt_filter)

lemma times_wf_later: "times_wf t ts \<Longrightarrow> fle t t' \<Longrightarrow> times_wf t' ts"
  using fle_trans by (auto simp: times_wf_def list_all_iff)

lemma times_wf_snoc: "times_wf t ts \<Longrightarrow> clock_time t \<Longrightarrow> times_wf t (ts @ [t])"
  by (auto simp: times_wf_def list_all_iff sorted_wrt_append clock_fle_refl)

lemma dict_get_dels: "dict_get (fold dict_del ks d) = (\<lambda>k. if k \<in> set ks then None else dict_get d k)"
  by (induction ks arbitrary: d) (auto simp: fun_eq_iff)

lemma dict_wf_dels: "dict_wf d \<Longrightarrow> dict_wf (fold dict_del ks d)"
  by (induction ks arbitrary: d) simp_all

text \<open>Clean-up forgets a bucket only when everything in it lies before the window.\<close>

lemma cleanup_bucket:
  assumes inv: "limiter_inv w q t rl" and t: "clock_time t'" and c: "fle (window_start w t') c"
  shows "bucket_of (cleanup t' rl) k = bucket_of rl k
     \<or> bucket_of (cleanup t' rl) k = [] \<and> filter (fle c) (bucket_of rl k) = []"
proof (cases "bucket_of (cleanup t' rl) k = bucket_of rl k")
  case False
  let ?stale = "fsub_int t' (rl_window_seconds rl * 2)"
  have w: "rl_window_seconds rl = int w" "w < 2 ^ 52" and dw: "dict_wf (rl_windows rl)"
    using inv by (simp_all add: limiter_inv_def)
  from False have k: "k \<in> set (map fst (filter (\<lambda>(k, v). v = [] \<or> flt (last v) ?stale) (rl_windows rl)))"
    by (auto simp: cleanup_def bucket_of_def dict_get_default_def dict_get_dels Let_def split: if_splits)
  then obtain v where v: "(k, v) \<in> set (rl_windows rl)" "v = [] \<or> flt (last v) ?stale" by auto
  then have b: "bucket_of rl k = v"
    using dw by (simp add: bucket_of_def dict_get_default_def dict_wf_def)
  have e: "bucket_of (cleanup t' rl) k = []"
    using k by (simp add: cleanup_def bucket_of_def dict_get_default_def dict_get_dels Let_def)
  have "\<not> fle c x" if "x \<in> set v" for x
  proof
    assume cx: "fle c x"
    have "times_wf t v" using inv b by (auto simp: limiter_inv_def)
    then have xl: "fle x (last v)" "clock_time x"
      using that by (auto simp: times_wf_def list_all_iff sorted_wrt_append clock_fle_refl
          dest!: split_list)
    have ls: "flt (last v) ?stale" using v(2) that by auto
    have "fle ?stale (window_start w t')"
      using t w by (auto simp: clock_time_Fin fsub_int_def window_small window_start_def fsub_def intro!: fl_mono)
    then have "flt x c" using flt_fle_trans[OF flt_fle_trans[OF fle_flt_trans[OF xl(1) ls]] c] by blast
    then have "flt x x" using flt_fle_trans cx by blast
    then show False by (cases x) auto
  qed
  then show ?thesis using e b by (simp add: filter_empty_conv)
qed simp

definition bucket_kept :: "nat \<Rightarrow> string \<Rightarrow> pyfloat \<Rightarrow> rate_limiter \<Rightarrow> pyfloat list" where
  "bucket_kept w key now rl = filter (fle (window_start w now)) (bucket_of rl key)"

lemma check_bucket_effect:
  assumes inv: "limiter_inv w q t rl" and t': "clock_time t'" and r: "check_bucket k t' rl = (v, rl')"
  shows "\<exists>b. b = (case v of Inr (allowed, _) \<Rightarrow> allowed | Inl _ \<Rightarrow> False)
     \<and> (b \<longrightarrow> int (length (bucket_kept w k t' rl)) < q)
     \<and> rl_window_seconds rl' = rl_window_seconds rl \<and> rl_max_requests rl' = rl_max_requests rl \<and> dict_wf (rl_windows rl')
     \<and> (\<forall>k'. bucket_of rl' k' = bucket_of rl k' \<and> \<not> b
          \<or> bucket_of rl' k' = (if k' = k then bucket_kept w k t' rl @ (if b then [t'] else []) else bucket_of rl k'))"
proof -
  have w: "rl_window_seconds rl = int w" "w < 2 ^ 52" "rl_max_requests rl = q" "dict_wf (rl_windows rl)"
    and ts: "times_wf t (bucket_of rl k)" using inv by (simp_all add: limiter_inv_def)
  have c: "fsub_int t' (rl_window_seconds rl) = window_start w t'"
    using w by (simp add: fsub_int_def window_start_def window_small)
  have "window_start w t' \<noteq> NaN" using t' by (auto simp: window_start_def clock_time_Fin fsub_def)
  then have d: "dropWhile (\<lambda>t. flt t (window_start w t')) (dict_get_default (rl_windows rl) k []) = bucket_kept w k t' rl"
    using ts dropWhile_fle unfolding bucket_kept_def bucket_of_def times_wf_def list_all_iff by blast
  show ?thesis
    using r w unfolding check_bucket_def c Let_def d
    by (auto simp: bucket_of_def dict_get_default_def result_simps rbind_def split: if_splits list.splits sum.splits)
qed

lemma limiter_inv_cleanup:
  assumes "limiter_inv w q t rl" "clock_time t'"
  shows "limiter_inv w q t (cleanup t' rl)"
proof -
  have "times_wf t (bucket_of (cleanup t' rl) k)" for k
    using cleanup_bucket[OF assms fle_self[OF cutoff_below[OF assms(2), of "of_nat w"], folded window_start_def], of k] assms(1)
    by (auto simp: limiter_inv_def times_wf_def)
  then show ?thesis using assms(1) by (simp add: limiter_inv_def cleanup_def Let_def dict_wf_dels)
qed

text \<open>One request against the recorded times: clean-up, if due, changes nothing inside the window.\<close>

lemma admit_request_bucket:
  assumes inv: "limiter_inv w q t rl" and t': "clock_time t'" and r: "admit_request k t' rl = (b, rl')"
  obtains rl1 v where "limiter_inv w q t rl1" "b \<Longrightarrow> check_bucket k t' rl1 = (v, rl')"
    "\<And>k c. fle (window_start w t') c \<Longrightarrow> filter (fle c) (bucket_of rl1 k) = filter (fle c) (bucket_of rl k)"
    "check_bucket k t' rl1 = (v, rl') \<and> b = (case v of Inr (allowed, _) \<Rightarrow> allowed | Inl _ \<Rightarrow> False) \<or> rl' = rl1 \<and> \<not> b"
proof -
  define rl0 where "rl0 = rl\<lparr>rl_request_count := rl_request_count rl + 1\<rparr>"
  define rl1 where "rl1 = (if rl_cleanup_interval rl0 = 0 then rl0
     else if rl_request_count rl0 mod rl_cleanup_interval rl0 = 0 then cleanup t' rl0 else rl0)"
  have i0: "limiter_inv w q t rl0" using inv by (simp add: limiter_inv_def rl0_def bucket_of_def)
  have b0: "bucket_of rl0 = bucket_of rl" by (simp add: rl0_def bucket_of_def fun_eq_iff)
  have i1: "limiter_inv w q t rl1" using i0 limiter_inv_cleanup[OF i0 t'] by (simp add: rl1_def)
  have f1: "filter (fle c) (bucket_of rl1 k) = filter (fle c) (bucket_of rl k)" if "fle (window_start w t') c" for k c
    using cleanup_bucket[OF i0 t' that, of k] by (auto simp: rl1_def b0)
  obtain v rl2 where v: "check_bucket k t' rl1 = (v, rl2)" by fastforce
  have a: "is_allowed k t' rl = (if rl_cleanup_interval rl0 = 0
      then (Inl (Exc ZeroDivisionError ''integer modulo by zero''), rl0) else check_bucket k t' rl1)"
    by (simp add: is_allowed_def Let_def rl1_def flip: rl0_def)
  show ?thesis
  proof (cases "rl_cleanup_interval rl0 = 0")
    case True
    then show ?thesis using r that[OF i1 _ f1] by (simp add: admit_request_def a rl1_def)
  next
    case False
    then show ?thesis using r v that[OF i1 _ f1, of v]
      by (auto simp: admit_request_def a split: sum.splits prod.splits)
  qed
qed

lemma admit_request_effect:
  assumes inv: "limiter_inv w q t rl" and t: "clock_time t" "clock_time t'" "fle t t'"
    and r: "admit_request k t' rl = (b, rl')"
  shows "limiter_inv w q t' rl' \<and> (b \<longrightarrow> int (length (filter (fle (window_start w t')) (bucket_of rl k))) < q)
    \<and> (\<forall>c k'. fle (window_start w t') c \<longrightarrow> filter (fle c) (bucket_of rl' k') =
        filter (fle c) (bucket_of rl k') @ (if b \<and> k' = k \<and> fle c t' then [t'] else []))"
  using inv t(2) r
proof (rule admit_request_bucket)
  fix rl1 v
  assume i1: "limiter_inv w q t rl1"
    and f1: "\<And>k c. fle (window_start w t') c \<Longrightarrow> filter (fle c) (bucket_of rl1 k) = filter (fle c) (bucket_of rl k)"
    and o: "check_bucket k t' rl1 = (v, rl') \<and> b = (case v of Inr (allowed, _) \<Rightarrow> allowed | Inl _ \<Rightarrow> False) \<or> rl' = rl1 \<and> \<not> b"
  have later: "times_wf t' (bucket_of rl1 k)" for k using i1 times_wf_later[OF _ t(3)] by (simp add: limiter_inv_def)
  have self: "fle (window_start w t') (window_start w t')"
    using fle_self[OF cutoff_below[OF t(2), of "of_nat w"]] by (simp add: window_start_def)
  from o show ?thesis
  proof
    assume "rl' = rl1 \<and> \<not> b"
    then show ?thesis using i1 later f1 by (simp add: limiter_inv_def)
  next
    assume a: "check_bucket k t' rl1 = (v, rl') \<and> b = (case v of Inr (allowed, _) \<Rightarrow> allowed | Inl _ \<Rightarrow> False)"
    from check_bucket_effect[OF i1 t(2)] a have
      e: "b \<longrightarrow> int (length (bucket_kept w k t' rl1)) < q"
        "rl_window_seconds rl' = rl_window_seconds rl1 \<and> rl_max_requests rl' = rl_max_requests rl1 \<and> dict_wf (rl_windows rl')"
        "\<And>k'. bucket_of rl' k' = bucket_of rl1 k' \<and> \<not> b
          \<or> bucket_of rl' k' = (if k' = k then bucket_kept w k t' rl1 @ (if b then [t'] else []) else bucket_of rl1 k')"
      by blast+
    have "times_wf t' (bucket_of rl' k')" for k'
      using e(3)[of k'] later times_wf_filter[OF later] times_wf_snoc[OF times_wf_filter[OF later] t(2)]
      by (auto simp: bucket_kept_def split: if_splits)
    moreover have "filter (fle c) (bucket_of rl' k') =
        filter (fle c) (bucket_of rl k') @ (if b \<and> k' = k \<and> fle c t' then [t'] else [])" if c: "fle (window_start w t') c" for c k'
      using e(3)[of k'] f1[OF c, of k'] filter_fle_both[OF c, of "bucket_of rl1 k"]
      by (auto simp: bucket_kept_def split: if_splits)
    ultimately show ?thesis using e(1,2) i1 f1[OF self] by (simp add: limiter_inv_def bucket_kept_def)
  qed
qed

interpretation request_window: sliding_window "limiter_inv w q" bucket_of admit_request "window_start w" q for w q
proof unfold_locales
  fix t t' :: pyfloat
  show "clock_time t \<Longrightarrow> clock_time t' \<Longrightarrow> fle t t' \<Longrightarrow> fle (window_start w t) (window_start w t')"
    by (simp add: window_start_def cutoff_mono)
  show "clock_time t \<Longrightarrow> fle (window_start w t) t"
    by (simp add: window_start_def cutoff_below)
qed (use admit_request_effect in blast)+

section \<open>Sequences of requests\<close>

text \<open>Admitted requests of a sequence, newest first, and the verdicts of a sequence.\<close>

fun request_log :: "(string \<times> pyfloat) list \<Rightarrow> rate_limiter \<Rightarrow> (string \<times> pyfloat) list \<Rightarrow> (string \<times> pyfloat) list" where
  "request_log [] rl hist = hist"
| "request_log ((key, t) # rs) rl hist =
     (case admit_request key t rl of (b, rl') \<Rightarrow> request_log rs rl' (if b then (key, t) # hist else hist))"

fun verdicts :: "(string \<Rightarrow> pyfloat \<Rightarrow> 's \<Rightarrow> verdict result \<times> 's) \<Rightarrow> (string \<times> pyfloat) list \<Rightarrow> 's \<Rightarrow> verdict result list" where
  "verdicts allowed [] s = []"
| "verdicts allowed ((key, t) # rs) s = (case allowed key t s of (v, s') \<Rightarrow> v # verdicts allowed rs s')"

lemma request_log_tracks:
  assumes "request_window.tracks w q t rl hist" "list_all clock_time (map snd rs)" "sorted_wrt fle (t # map snd rs)"
  shows "window_ok (window_start w) q (request_log rs rl hist)"
  using assms
proof (induction rs arbitrary: t rl hist)
  case Nil
  then show ?case by (auto dest: request_window.tracks_window)
next
  case (Cons kt rs)
  obtain k t' where kt: "kt = (k, t')" by fastforce
  obtain b rl' where a: "admit_request k t' rl = (b, rl')" by fastforce
  have t': "clock_time t'" "fle t t'" using Cons.prems by (simp_all add: kt)
  from Cons.IH[OF request_window.tracks_step[OF Cons.prems(1) t' a]] show ?case
    using Cons.prems by (simp add: kt a)
qed

lemma fallback_verdicts:
  assumes "\<not> rd_redis_available rd" "rd_fallback rd = Some rl"
  shows "verdicts redis_is_allowed rs rd = verdicts is_allowed rs rl"
  using assms
proof (induction rs arbitrary: rd rl)
  case (Cons kt rs)
  obtain k t where kt: "kt = (k, t)" by fastforce
  obtain v rl' where v: "is_allowed k t rl = (v, rl')" by fastforce
  have "redis_is_allowed k t rd = (v, rd\<lparr>rd_fallback := Some rl'\<rparr>)"
    using Cons.prems v by (simp add: redis_is_allowed_def fallback_allowed_def get_fallback_def)
  then show ?case using Cons v by (simp add: kt)
qed simp

section \<open>Properties\<close>

text \<open>C19: Whatever requests arrive, at non-decreasing times, no client is admitted more often than the configured
  maximum within any window, across bucket clean-ups and refused requests.\<close>

theorem requests_within_budget:
  assumes "w < 2 ^ 52" and "list_all clock_time (map snd rs)" and "sorted_wrt fle (map snd rs)"
  shows "window_ok (window_start w) q (request_log rs (new_limiter (int w) q buckets interval) [])"
proof (cases rs)
  case (Cons kt rs')
  have t: "clock_time (snd kt)" using assms(2) by (simp add: Cons)
  have "limiter_inv w q (snd kt) (new_limiter (int w) q buckets interval)"
    "\<And>k. bucket_of (new_limiter (int w) q buckets interval) k = []"
    using assms(1) by (simp_all add: limiter_inv_def new_limiter_def bucket_of_def dict_get_default_def times_wf_def)
  then have "request_window.tracks w q (snd kt) (new_limiter (int w) q buckets interval) []"
    using t by (intro request_window.tracks_init)
  moreover have "sorted_wrt fle (snd kt # map snd rs)" using assms(3) clock_fle_refl[OF t] by (auto simp: Cons)
  ultimately show ?thesis using request_log_tracks assms(2) by blast
qed simp

theorem requests_within_budget_witness:
  "request_log [(''a'', Fin 0), (''a'', Fin 1), (''a'', Fin 2), (''b'', Fin 2), (''a'', Fin 61)] (new_limiter 60 2 10 2) []
     = [(''a'', Fin 61), (''b'', Fin 2), (''a'', Fin 1), (''a'', Fin 0)]
   \<and> window_ok (window_start 60) 2
     (request_log [(''a'', Fin 0), (''a'', Fin 1), (''a'', Fin 2), (''b'', Fin 2), (''a'', Fin 61)] (new_limiter 60 2 10 2) [])"
proof -
  let ?rs = "[(''a'', Fin 0), (''a'', Fin 1), (''a'', Fin 2), (''b'', Fin 2), (''a'', Fin 61)]"
  have "list_all clock_time (map snd ?rs)" "sorted_wrt fle (map snd ?rs)"
    "request_log ?rs (new_limiter 60 2 10 2) [] = [(''a'', Fin 61), (''b'', Fin 2), (''a'', Fin 1), (''a'', Fin 0)]"
    by code_simp+
  then show ?thesis using requests_within_budget[of 60 ?rs 2 10 2] by simp
qed

text \<open>The Redis-backed limiter never answers from Redis: its verdicts on any sequence of requests are those
  of a single in-memory limiter, so the budget is per process and not shared between instances.\<close>

theorem redis_limiter_never_uses_redis:
  "verdicts redis_is_allowed rs (new_redis_limiter url w q) = verdicts is_allowed rs (new_limiter w q 10000 1000)"
proof (cases rs)
  case (Cons kt rs')
  obtain k t where kt: "kt = (k, t)" by fastforce
  obtain v rl' where v: "is_allowed k t (new_limiter w q 10000 1000) = (v, rl')" by fastforce
  have "redis_is_allowed k t (new_redis_limiter url w q) =
      (v, (new_redis_limiter url w q)\<lparr>rd_redis_available := False, rd_fallback := Some rl'\<rparr>)"
    using v by (simp add: redis_is_allowed_def check_redis_def fallback_allowed_def get_fallback_def new_redis_limiter_def Let_def)
  then show ?thesis using fallback_verdicts by (simp add: Cons kt v)
qed simp

end
