(* ===== verification/Market_Book.thy ===== *)
theory Market_Book
  imports Py_Values
begin

text \<open>
  Order books of the market ingestion service: the data and the level parser of
  \<open>services/market_ingestion/contracts.py\<close>, the engine that keeps a book in step with a stream of
  deltas (\<open>order_book_sync.py\<close>) and the gap detector (\<open>gap_detection.py\<close>). A side of a book is a
  dictionary from price to amount in insertion order; a price that is not a number equals no key.
  Through the interface \<open>level_store\<close> the lemmas show that every price holds what its last update
  said; further lemmas show the invariant of a book, the order of the levels it reports, and that
  the gap detector foresees exactly what the engine does with a delta.
\<close>

section \<open>Data\<close>

record order_book_level =
  ol_price :: pyfloat
  ol_amount :: pyfloat

record order_book_snapshot =
  os_exchange :: string
  os_symbol :: string
  os_sequence :: "int option"
  os_timestamp_ms :: "int option"
  os_bids :: "order_book_level list"
  os_asks :: "order_book_level list"

record order_book_delta =
  od_exchange :: string
  od_symbol :: string
  od_sequence_start :: "int option"
  od_sequence_end :: "int option"
  od_timestamp_ms :: "int option"
  od_bids :: "order_book_level list"
  od_asks :: "order_book_level list"

section \<open>Level lists\<close>

text \<open>\<open>sorted\<close> is stable: an element goes before its equals that follow it in the list.\<close>

fun insert_by :: "('a \<Rightarrow> 'a \<Rightarrow> bool) \<Rightarrow> 'a \<Rightarrow> 'a list \<Rightarrow> 'a list" where
  "insert_by before x [] = [x]"
| "insert_by before x (y # ys) = (if before y x then y # insert_by before x ys else x # y # ys)"

definition sort_by :: "('a \<Rightarrow> 'a \<Rightarrow> bool) \<Rightarrow> 'a list \<Rightarrow> 'a list" where
  "sort_by before xs = foldr (insert_by before) xs []"

text \<open>The order of a \<open>float\<close> key, with \<open>reverse\<close>.\<close>

definition key_before :: "('a \<Rightarrow> pyfloat) \<Rightarrow> bool \<Rightarrow> 'a \<Rightarrow> 'a \<Rightarrow> bool" where
  "key_before key reverse a b = (if reverse then flt (key b) (key a) else flt (key a) (key b))"

definition no_len :: "pyval \<Rightarrow> exc" where
  "no_len v = Exc TypeError (''object of type '' @ str_repr (type_name v) @ '' has no len()'')"

text \<open>The first two items of one level, when it has them.\<close>

definition level_pair :: "pyval \<Rightarrow> (pyval \<times> pyval) option result" where
  "level_pair level = (case level of
      PList xs \<Rightarrow> Inr (if length xs < 2 then None else Some (xs ! 0, xs ! 1))
    | PStr s \<Rightarrow> Inr (if length s < 2 then None else Some (PStr [s ! 0], PStr [s ! 1]))
    | PDict d \<Rightarrow> if length d < 2 then Inr None else Inl (Exc KeyError ''0'')
    | v \<Rightarrow> Inl (no_len v))"

definition parse_level :: "bool \<Rightarrow> pyval \<Rightarrow> order_book_level list result" where
  "parse_level allow_zero level = rbind (level_pair level) (\<lambda>pair. case pair of
      None \<Rightarrow> Inr []
    | Some (p, a) \<Rightarrow>
        rbind (py_float p) (\<lambda>price. rbind (py_float a) (\<lambda>amount.
          if flt amount (Fin 0) then Inr []
          else if feq amount (Fin 0) \<and> \<not> allow_zero then Inr []
          else Inr [\<lparr>ol_price = price, ol_amount = amount\<rparr>])))"

definition parse_levels :: "pyval list \<Rightarrow> string \<Rightarrow> bool \<Rightarrow> order_book_level list result" where
  "parse_levels levels side allow_zero =
     rbind (rmap (parse_level allow_zero) levels) (\<lambda>parsed.
       let reverse = (side = ''bid'')
       in Inr (sort_by (key_before ol_price reverse) (concat parsed)))"

section \<open>One side of a book\<close>

type_synonym book_side = "(pyfloat \<times> pyfloat) list"

fun side_set :: "pyfloat \<Rightarrow> pyfloat \<Rightarrow> book_side \<Rightarrow> book_side" where
  "side_set price amount [] = [(price, amount)]"
| "side_set price amount ((p, a) # book) =
     (if feq p price then (p, amount) # book else (p, a) # side_set price amount book)"

definition side_pop :: "pyfloat \<Rightarrow> book_side \<Rightarrow> book_side" where
  "side_pop price book = filter (\<lambda>(p, a). \<not> feq p price) book"

fun side_get :: "book_side \<Rightarrow> pyfloat \<Rightarrow> pyfloat option" where
  "side_get [] price = None"
| "side_get ((p, a) # book) price = (if feq p price then Some a else side_get book price)"

text \<open>\<open>{level.price: level.amount for level in levels if level.amount > 0}\<close>\<close>

definition snapshot_side :: "order_book_level list \<Rightarrow> book_side" where
  "snapshot_side levels = foldl (\<lambda>book level.
     if flt (Fin 0) (ol_amount level) then side_set (ol_price level) (ol_amount level) book else book) [] levels"

definition apply_side_updates :: "book_side \<Rightarrow> order_book_level list \<Rightarrow> book_side" where
  "apply_side_updates book updates = foldl (\<lambda>book level.
     if fle (ol_amount level) (Fin 0) then side_pop (ol_price level) book
     else side_set (ol_price level) (ol_amount level) book) book updates"

section \<open>The engine\<close>

record sync_engine =
  se_exchange :: string
  se_symbol :: string
  se_sequence :: "int option"
  se_bids :: book_side
  se_asks :: book_side
  se_initialized :: bool

definition sync_engine_init :: "string \<Rightarrow> string \<Rightarrow> sync_engine" where
  "sync_engine_init exchange symbol = \<lparr>se_exchange = exchange, se_symbol = symbol, se_sequence = None,
     se_bids = [], se_asks = [], se_initialized = False\<rparr>"

definition validate_scope :: "string \<Rightarrow> string \<Rightarrow> sync_engine \<Rightarrow> unit result" where
  "validate_scope exchange symbol se =
     (if exchange \<noteq> se_exchange se \<or> symbol \<noteq> se_symbol se
      then Inl (Exc OrderBookSyncError ''Delta/snapshot scope does not match engine scope'') else Inr ())"

definition load_snapshot :: "order_book_snapshot \<Rightarrow> sync_engine \<Rightarrow> sync_engine result" where
  "load_snapshot snapshot se =
     rbind (validate_scope (os_exchange snapshot) (os_symbol snapshot) se) (\<lambda>_.
       Inr (se\<lparr>se_bids := snapshot_side (os_bids snapshot), se_asks := snapshot_side (os_asks snapshot),
               se_sequence := os_sequence snapshot, se_initialized := True\<rparr>))"

text \<open>The last two statements of \<open>apply_delta\<close>\<close>

definition apply_sides :: "order_book_delta \<Rightarrow> sync_engine \<Rightarrow> sync_engine" where
  "apply_sides delta se = se\<lparr>se_bids := apply_side_updates (se_bids se) (od_bids delta),
     se_asks := apply_side_updates (se_asks se) (od_asks delta)\<rparr>"

definition gap_message :: "int \<Rightarrow> int \<Rightarrow> string" where
  "gap_message expected received =
     ''Expected sequence '' @ int_str expected @ '' but received '' @ int_str received"

definition apply_delta :: "order_book_delta \<Rightarrow> sync_engine \<Rightarrow> (bool \<times> sync_engine) result" where
  "apply_delta delta se =
     (if \<not> se_initialized se then
        Inl (Exc OrderBookNotInitializedError ''Call load_snapshot before apply_delta'')
      else rbind (validate_scope (od_exchange delta) (od_symbol delta) se) (\<lambda>_.
        case (se_sequence se, od_sequence_start delta, od_sequence_end delta) of
          (Some current, Some start, Some end_) \<Rightarrow>
            (let expected = current + 1 in
             if end_ < expected then Inr (False, se)
             else if start > expected then Inl (Exc OrderBookSequenceGapError (gap_message expected start))
             else Inr (True, apply_sides delta (se\<lparr>se_sequence := Some end_\<rparr>)))
        | (_, _, Some end_) \<Rightarrow> Inr (True, apply_sides delta (se\<lparr>se_sequence := Some end_\<rparr>))
        | _ \<Rightarrow> Inr (True, apply_sides delta se)))"

text \<open>\<open>xs[:depth]\<close>\<close>

definition slice_to :: "int \<Rightarrow> 'a list \<Rightarrow> 'a list" where
  "slice_to depth xs = (if 0 \<le> depth then take (nat depth) xs else take (length xs - nat (- depth)) xs)"

record book_view =
  bv_exchange :: string
  bv_symbol :: string
  bv_sequence :: "int option"
  bv_bids :: "order_book_level list"
  bv_asks :: "order_book_level list"

definition side_levels :: "book_side \<Rightarrow> order_book_level list" where
  "side_levels book = map (\<lambda>(p, a). \<lparr>ol_price = p, ol_amount = a\<rparr>) book"

definition materialize_snapshot :: "int \<Rightarrow> sync_engine \<Rightarrow> book_view" where
  "materialize_snapshot depth se =
     (let bid_levels = slice_to depth (sort_by (key_before fst True) (se_bids se));
          ask_levels = slice_to depth (sort_by (key_before fst False) (se_asks se))
      in \<lparr>bv_exchange = se_exchange se, bv_symbol = se_symbol se, bv_sequence = se_sequence se,
          bv_bids = side_levels bid_levels, bv_asks = side_levels ask_levels\<rparr>)"

section \<open>Gap detection\<close>

record gap_result =
  gr_has_gap :: bool
  gr_expected_sequence :: "int option"
  gr_received_sequence_start :: "int option"
  gr_received_sequence_end :: "int option"
  gr_gap_size :: int
  gr_action :: string

definition gap_evaluate :: "int option \<Rightarrow> int option \<Rightarrow> int option \<Rightarrow> gap_result" where
  "gap_evaluate current_sequence incoming_start incoming_end =
     (case (current_sequence, incoming_start, incoming_end) of
        (Some current, Some start, Some end_) \<Rightarrow>
          (let expected = current + 1 in
           if end_ < expected then
             \<lparr>gr_has_gap = False, gr_expected_sequence = Some expected,
              gr_received_sequence_start = incoming_start, gr_received_sequence_end = incoming_end,
              gr_gap_size = 0, gr_action = ''ignore_stale''\<rparr>
           else if start > expected then
             \<lparr>gr_has_gap = True, gr_expected_sequence = Some expected,
              gr_received_sequence_start = incoming_start, gr_received_sequence_end = incoming_end,
              gr_gap_size = start - expected, gr_action = ''resync''\<rparr>
           else
             \<lparr>gr_has_gap = False, gr_expected_sequence = Some expected,
              gr_received_sequence_start = incoming_start, gr_received_sequence_end = incoming_end,
              gr_gap_size = 0, gr_action = ''accept''\<rparr>)
      | _ \<Rightarrow>
          \<lparr>gr_has_gap = False, gr_expected_sequence = None,
           gr_received_sequence_start = incoming_start, gr_received_sequence_end = incoming_end,
           gr_gap_size = 0, gr_action = ''accept''\<rparr>)"

definition opt_int :: "int option \<Rightarrow> pyval" where
  "opt_int n = (case n of None \<Rightarrow> PNone | Some i \<Rightarrow> PInt i)"

definition build_resync_request :: "int \<Rightarrow> string \<Rightarrow> string \<Rightarrow> gap_result \<Rightarrow> string \<Rightarrow> pydict" where
  "build_resync_request now exchange symbol result reason =
     [(''exchange'', PStr exchange), (''symbol'', PStr symbol), (''reason'', PStr reason),
      (''expected_sequence'', opt_int (gr_expected_sequence result)),
      (''received_sequence_start'', opt_int (gr_received_sequence_start result)),
      (''received_sequence_end'', opt_int (gr_received_sequence_end result)),
      (''gap_size'', PInt (gr_gap_size result)), (''requested_at'', PStr (iso_utc now))]"

section \<open>Sorting\<close>

lemma set_insert_by: "set (insert_by before x ys) = insert x (set ys)"
  by (induction ys) auto

lemma length_insert_by: "length (insert_by before x ys) = Suc (length ys)"
  by (induction ys) auto

lemma sort_by_set: "set (sort_by before xs) = set xs"
  by (induction xs) (simp_all add: sort_by_def set_insert_by)

lemma length_sort_by: "length (sort_by before xs) = length xs"
  by (induction xs) (simp_all add: sort_by_def length_insert_by)

text \<open>Elements that a transitive order separates come out in that order.\<close>

lemma insert_by_sorted:
  assumes "transp before" "\<And>y. y \<in> set ys \<Longrightarrow> before x y \<or> before y x" "sorted_wrt before ys"
  shows "sorted_wrt before (insert_by before x ys)"
  using assms(2,3)
proof (induction ys)
  case (Cons y ys)
  then show ?case using assms(1) by (auto simp: set_insert_by dest: transpD)
qed simp

lemma sort_by_sorted:
  assumes t: "transp before" and "sorted_wrt (\<lambda>x y. before x y \<or> before y x) xs"
  shows "sorted_wrt before (sort_by before xs)"
  using assms(2)
proof (induction xs)
  case (Cons x xs)
  then show ?case
    using insert_by_sorted[OF t, of "sort_by before xs" x] by (auto simp: sort_by_def sort_by_set[unfolded sort_by_def])
qed (simp add: sort_by_def)

lemma transp_key_before: "transp (key_before key reverse)"
proof -
  have "flt a b \<Longrightarrow> flt b c \<Longrightarrow> flt a c" for a b c by (cases a; cases b; cases c) auto
  then show ?thesis by (auto simp: transp_def key_before_def)
qed

lemma key_before_total:
  "key x \<noteq> NaN \<Longrightarrow> key y \<noteq> NaN \<Longrightarrow> key x \<noteq> key y \<Longrightarrow> key_before key r x y \<or> key_before key r y x"
  by (cases "key x"; cases "key y") (auto simp: key_before_def)

section \<open>A side as a store of levels\<close>

lemma feq_iff: "feq x y \<longleftrightarrow> x = y \<and> x \<noteq> NaN"
  by (cases x) auto

text \<open>The last element of a list that satisfies a test.\<close>

definition last_such :: "('u \<Rightarrow> bool) \<Rightarrow> 'u list \<Rightarrow> 'u option" where
  "last_such P us = (case rev (filter P us) of [] \<Rightarrow> None | u # _ \<Rightarrow> Some u)"

lemma last_such_simps [simp]:
  "last_such P [] = None" "last_such P (us @ [u]) = (if P u then Some u else last_such P us)"
  by (simp_all add: last_such_def)

locale level_store =
  fixes get :: "'b \<Rightarrow> 'k \<Rightarrow> 'v option" and put :: "'k \<Rightarrow> 'v \<Rightarrow> 'b \<Rightarrow> 'b" and del :: "'k \<Rightarrow> 'b \<Rightarrow> 'b"
    and key_ok :: "'k \<Rightarrow> bool"
  assumes get_put: "key_ok k \<Longrightarrow> get (put k' v b) k = (if k' = k then Some v else get b k)"
    and get_del: "key_ok k \<Longrightarrow> get (del k' b) k = (if k' = k then None else get b k)"
begin

text \<open>A loop of updates leaves under a key what the last update of that key says.\<close>

lemma last_update_wins:
  assumes "key_ok k"
  shows "get (foldl (\<lambda>b u. if gone u then del (kf u) b else put (kf u) (vf u) b) b us) k =
    (case last_such (\<lambda>u. kf u = k) us of None \<Rightarrow> get b k | Some u \<Rightarrow> if gone u then None else Some (vf u))"
  by (induction us rule: rev_induct) (simp_all add: get_put[OF assms] get_del[OF assms])

lemma last_insert_wins:
  assumes "key_ok k"
  shows "get (foldl (\<lambda>b u. if keep u then put (kf u) (vf u) b else b) b us) k =
    (case last_such (\<lambda>u. kf u = k \<and> keep u) us of None \<Rightarrow> get b k | Some u \<Rightarrow> Some (vf u))"
  by (induction us rule: rev_induct) (simp_all add: get_put[OF assms])

end

lemma side_get_set: "k \<noteq> NaN \<Longrightarrow> side_get (side_set k' v b) k = (if k' = k then Some v else side_get b k)"
  by (induction b) (auto simp: feq_iff)

lemma side_get_pop: "k \<noteq> NaN \<Longrightarrow> side_get (side_pop k' b) k = (if k' = k then None else side_get b k)"
  by (induction b) (auto simp: feq_iff side_pop_def)

interpretation book: level_store side_get side_set side_pop "\<lambda>k. k \<noteq> NaN"
  by unfold_locales (simp_all add: side_get_set side_get_pop)

text \<open>What a price holds after a snapshot and after a list of updates.\<close>

lemma snapshot_side_get:
  "p \<noteq> NaN \<Longrightarrow> side_get (snapshot_side levels) p =
     map_option ol_amount (last_such (\<lambda>l. ol_price l = p \<and> flt (Fin 0) (ol_amount l)) levels)"
  unfolding snapshot_side_def by (subst book.last_insert_wins) (auto split: option.splits)

lemma apply_side_updates_get:
  "p \<noteq> NaN \<Longrightarrow> side_get (apply_side_updates b us) p =
     (case last_such (\<lambda>l. ol_price l = p) us of
        None \<Rightarrow> side_get b p | Some l \<Rightarrow> if fle (ol_amount l) (Fin 0) then None else Some (ol_amount l))"
  unfolding apply_side_updates_def by (rule book.last_update_wins)

section \<open>Invariant\<close>

text \<open>Prices are numbers, at most one level per price, and no level is empty.\<close>

definition side_ok :: "book_side \<Rightarrow> bool" where
  "side_ok b \<longleftrightarrow> distinct (map fst b) \<and> NaN \<notin> fst ` set b \<and> (\<forall>a \<in> snd ` set b. \<not> fle a (Fin 0))"

definition levels_ok :: "order_book_level list \<Rightarrow> bool" where
  "levels_ok ls \<longleftrightarrow> NaN \<notin> ol_price ` set ls"

definition engine_ok :: "sync_engine \<Rightarrow> bool" where
  "engine_ok se \<longleftrightarrow> side_ok (se_bids se) \<and> side_ok (se_asks se)"

lemma side_set_in: "(q, v) \<in> set (side_set p a b) \<Longrightarrow> q = p \<and> v = a \<or> (q, v) \<in> set b"
  by (induction b) (auto simp: feq_iff split: if_splits)

lemma side_set_parts:
  "fst ` set (side_set p a b) \<subseteq> insert p (fst ` set b)" "snd ` set (side_set p a b) \<subseteq> insert a (snd ` set b)"
  using side_set_in[of _ _ p a b] by (force simp: image_iff)+

lemma side_ok_set: "side_ok b \<Longrightarrow> p \<noteq> NaN \<Longrightarrow> \<not> fle a (Fin 0) \<Longrightarrow> side_ok (side_set p a b)"
proof (induction b)
  case (Cons x b)
  then show ?case
    using side_set_parts[of p a b] by (cases x) (auto simp: side_ok_def feq_iff)
qed (simp add: side_ok_def)

lemma side_ok_pop: "side_ok b \<Longrightarrow> side_ok (side_pop p b)"
  by (auto simp: side_ok_def side_pop_def distinct_map_filter)

lemma side_ok_updates: "side_ok b \<Longrightarrow> levels_ok us \<Longrightarrow> side_ok (apply_side_updates b us)"
  unfolding apply_side_updates_def
  by (induction us arbitrary: b) (auto simp: levels_ok_def side_ok_set side_ok_pop)

lemma side_ok_snapshot: "levels_ok ls \<Longrightarrow> side_ok (snapshot_side ls)"
proof -
  have pos: "flt (Fin 0) a \<Longrightarrow> \<not> fle a (Fin 0)" for a by (cases a) auto
  have "side_ok b \<Longrightarrow> levels_ok ls \<Longrightarrow> side_ok (foldl (\<lambda>book level. if flt (Fin 0) (ol_amount level)
      then side_set (ol_price level) (ol_amount level) book else book) b ls)" for b
    by (induction ls arbitrary: b) (auto simp: levels_ok_def side_ok_set pos)
  from this[of "[]"] show "levels_ok ls \<Longrightarrow> ?thesis" by (simp add: snapshot_side_def side_ok_def)
qed

lemma side_get_in: "side_ok b \<Longrightarrow> side_get b p = Some a \<longleftrightarrow> (p, a) \<in> set b"
proof (induction b)
  case (Cons x b)
  then show ?case by (cases x) (force simp: side_ok_def feq_iff)
qed simp


section \<open>Calls on an engine\<close>

text \<open>A call that raises leaves the engine as it is.\<close>

datatype book_call = LoadSnapshot order_book_snapshot | ApplyDelta order_book_delta

fun book_exec :: "sync_engine \<Rightarrow> book_call \<Rightarrow> sync_engine" where
  "book_exec se (LoadSnapshot s) = (case load_snapshot s se of Inl e \<Rightarrow> se | Inr se' \<Rightarrow> se')"
| "book_exec se (ApplyDelta d) = (case apply_delta d se of Inl e \<Rightarrow> se | Inr (b, se') \<Rightarrow> se')"

definition book_run :: "sync_engine \<Rightarrow> book_call list \<Rightarrow> sync_engine" where
  "book_run se calls = foldl book_exec se calls"

fun call_ok :: "book_call \<Rightarrow> bool" where
  "call_ok (LoadSnapshot s) \<longleftrightarrow> levels_ok (os_bids s) \<and> levels_ok (os_asks s)"
| "call_ok (ApplyDelta d) \<longleftrightarrow> levels_ok (od_bids d) \<and> levels_ok (od_asks d)"

lemma load_snapshot_Inr:
  "load_snapshot s se = Inr se' \<longleftrightarrow> os_exchange s = se_exchange se \<and> os_symbol s = se_symbol se
     \<and> se' = se\<lparr>se_bids := snapshot_side (os_bids s), se_asks := snapshot_side (os_asks s),
               se_sequence := os_sequence s, se_initialized := True\<rparr>"
  by (auto simp: load_snapshot_def validate_scope_def)

lemma apply_delta_accepted:
  "apply_delta d se = Inr (True, se') \<Longrightarrow>
     se' = apply_sides d (se\<lparr>se_sequence := (case od_sequence_end d of None \<Rightarrow> se_sequence se | Some n \<Rightarrow> Some n)\<rparr>)"
  by (auto simp: apply_delta_def validate_scope_def Let_def split: if_splits option.splits)

lemma apply_delta_refused: "apply_delta d se = Inr (False, se') \<Longrightarrow> se' = se"
  by (auto simp: apply_delta_def validate_scope_def Let_def split: if_splits option.splits)

lemma engine_ok_exec: "engine_ok se \<Longrightarrow> call_ok c \<Longrightarrow> engine_ok (book_exec se c)"
proof (cases c)
  case (LoadSnapshot s)
  then show "call_ok c \<Longrightarrow> engine_ok se \<Longrightarrow> ?thesis"
    by (auto simp: engine_ok_def load_snapshot_Inr side_ok_snapshot split: sum.splits)
next
  case (ApplyDelta d)
  assume ok: "engine_ok se" "call_ok c"
  have "engine_ok se'" if "apply_delta d se = Inr (b, se')" for b se'
    using that ok ApplyDelta apply_delta_accepted[of d se se'] apply_delta_refused[of d se se']
    by (cases b) (auto simp: engine_ok_def apply_sides_def side_ok_updates)
  then show ?thesis using ok ApplyDelta by (auto split: sum.splits)
qed

lemma engine_ok_run: "engine_ok se \<Longrightarrow> list_all call_ok cs \<Longrightarrow> engine_ok (book_run se cs)"
  unfolding book_run_def by (induction cs arbitrary: se) (auto simp: engine_ok_exec)

lemma engine_ok_init: "engine_ok (sync_engine_init ex sy)"
  by (simp add: engine_ok_def side_ok_def sync_engine_init_def)

section \<open>The levels a side reports\<close>

lemma sorted_side:
  assumes "side_ok b"
  shows "sorted_wrt (key_before fst r) (sort_by (key_before fst r) b)"
proof (rule sort_by_sorted[OF transp_key_before])
  have "distinct (map fst b)" "NaN \<notin> fst ` set b" using assms by (simp_all add: side_ok_def)
  then show "sorted_wrt (\<lambda>x y. key_before fst r x y \<or> key_before fst r y x) b"
  proof (induction b)
    case (Cons x b)
    have "key_before fst r x y \<or> key_before fst r y x" if "y \<in> set b" for y
      using Cons.prems that by (intro key_before_total) (auto simp: image_iff)
    with Cons show ?case by simp
  qed simp
qed

text \<open>The best \<open>n\<close> levels of a side: everything left out is worse than everything listed.\<close>

lemma best_levels:
  assumes ok: "side_ok b" and xs: "xs = take n (sort_by (key_before fst r) b)"
  shows "sorted_wrt (key_before fst r) xs" "set xs \<subseteq> set b" "length xs = min n (length b)"
    "x \<in> set b \<Longrightarrow> x \<notin> set xs \<Longrightarrow> y \<in> set xs \<Longrightarrow> key_before fst r y x"
proof -
  let ?s = "sort_by (key_before fst r) b"
  have s: "sorted_wrt (key_before fst r) (take n ?s @ drop n ?s)" using sorted_side[OF ok] by simp
  then show "sorted_wrt (key_before fst r) xs" unfolding xs sorted_wrt_append by blast
  show "set xs \<subseteq> set b" using set_take_subset[of n ?s] by (simp add: xs sort_by_set)
  show "length xs = min n (length b)" by (simp add: xs length_sort_by)
  assume "x \<in> set b" "x \<notin> set xs" "y \<in> set xs"
  moreover have "set b = set (take n ?s) \<union> set (drop n ?s)"
    by (metis append_take_drop_id set_append sort_by_set)
  ultimately have "x \<in> set (drop n ?s)" "y \<in> set (take n ?s)" by (auto simp: xs)
  then show "key_before fst r y x" using s unfolding sorted_wrt_append by blast
qed


text \<open>A reported side lists best levels of the book first.\<close>

definition reports_best :: "bool \<Rightarrow> nat \<Rightarrow> book_side \<Rightarrow> order_book_level list \<Rightarrow> bool" where
  "reports_best r n b ls \<longleftrightarrow> length ls = min n (length b)
     \<and> sorted_wrt (key_before ol_price r) ls
     \<and> (\<forall>l \<in> set ls. side_get b (ol_price l) = Some (ol_amount l) \<and> \<not> fle (ol_amount l) (Fin 0))
     \<and> (\<forall>p a. side_get b p = Some a \<longrightarrow>
          \<lparr>ol_price = p, ol_amount = a\<rparr> \<in> set ls \<or> (\<forall>l \<in> set ls. key_before id r (ol_price l) p))"

lemma reports_best_side:
  assumes ok: "side_ok b"
  shows "reports_best r n b (side_levels (take n (sort_by (key_before fst r) b)))"
proof -
  let ?xs = "take n (sort_by (key_before fst r) b)"
  note best = best_levels[OF ok refl, where n = n and r = r]
  have "sorted_wrt (key_before ol_price r) (side_levels ?xs)"
    unfolding side_levels_def sorted_wrt_map
    by (rule sorted_wrt_mono_rel[OF _ best(1)]) (auto simp: key_before_def split: prod.splits)
  moreover have "side_get b p = Some a \<and> \<not> fle a (Fin 0)" if "(p, a) \<in> set ?xs" for p a
    using that best(2) ok side_get_in[OF ok] by (force simp: side_ok_def)
  moreover have "(p, a) \<in> set ?xs \<or> (\<forall>y \<in> set ?xs. key_before fst r y (p, a))" if "side_get b p = Some a" for p a
    using that best(4)[of "(p, a)"] side_get_in[OF ok] by blast
  ultimately show ?thesis
    using best(3) by (fastforce simp: reports_best_def side_levels_def key_before_def)
qed

section \<open>Properties\<close>

text \<open>C24: Whatever snapshots and deltas an engine receives, with prices that are numbers, its reported
  bids are strictly descending and its asks strictly ascending, hold no empty level, agree with the
  book and are its best levels up to the depth.\<close>

theorem order_book_reports_best_levels:
  assumes "list_all call_ok calls" and "0 \<le> depth"
  shows "let se = book_run (sync_engine_init exchange symbol) calls in
    reports_best True (nat depth) (se_bids se) (bv_bids (materialize_snapshot depth se))
    \<and> reports_best False (nat depth) (se_asks se) (bv_asks (materialize_snapshot depth se))"
  using engine_ok_run[OF engine_ok_init assms(1), of exchange symbol] assms(2)
  by (simp add: materialize_snapshot_def slice_to_def engine_ok_def reports_best_side Let_def)

definition book_snapshot0 :: order_book_snapshot where
  "book_snapshot0 = \<lparr>os_exchange = ''x'', os_symbol = ''s'', os_sequence = Some 100, os_timestamp_ms = None,
     os_bids = [\<lparr>ol_price = Fin 10, ol_amount = Fin 1\<rparr>, \<lparr>ol_price = Fin 9, ol_amount = Fin 2\<rparr>],
     os_asks = [\<lparr>ol_price = Fin 11, ol_amount = Fin 1\<rparr>]\<rparr>"

definition book_delta0 :: order_book_delta where
  "book_delta0 = \<lparr>od_exchange = ''x'', od_symbol = ''s'', od_sequence_start = Some 101,
     od_sequence_end = Some 102, od_timestamp_ms = None,
     od_bids = [\<lparr>ol_price = Fin 10, ol_amount = Fin 0\<rparr>, \<lparr>ol_price = Fin 8, ol_amount = Fin 3\<rparr>], od_asks = []\<rparr>"

theorem order_book_reports_best_levels_witness:
  "let se = book_run (sync_engine_init ''x'' ''s'') [LoadSnapshot book_snapshot0, ApplyDelta book_delta0] in
     reports_best True 5 (se_bids se) (bv_bids (materialize_snapshot 5 se))
     \<and> map ol_price (bv_bids (materialize_snapshot 5 se)) = [Fin 9, Fin 8]"
proof -
  let ?cs = "[LoadSnapshot book_snapshot0, ApplyDelta book_delta0]"
  have "list_all call_ok ?cs" by code_simp
  moreover have "map ol_price (bv_bids (materialize_snapshot 5 (book_run (sync_engine_init ''x'' ''s'') ?cs))) = [Fin 9, Fin 8]"
    by code_simp
  ultimately show ?thesis
    using order_book_reports_best_levels[of ?cs 5 "''x''" "''s''"] by (simp add: Let_def)
qed

text \<open>C25: A delta that the engine accepts moves the sequence to its end and leaves at every price what
  its last update of that price says: gone when the amount is not positive, else the new amount;
  other prices keep their level.\<close>

theorem accepted_delta_updates_book:
  assumes "apply_delta d se = Inr (True, se')" and "p \<noteq> NaN"
  shows "se_sequence se' = (case od_sequence_end d of None \<Rightarrow> se_sequence se | Some n \<Rightarrow> Some n)
    \<and> side_get (se_bids se') p = (case last_such (\<lambda>l. ol_price l = p) (od_bids d) of
        None \<Rightarrow> side_get (se_bids se) p
      | Some l \<Rightarrow> if fle (ol_amount l) (Fin 0) then None else Some (ol_amount l))
    \<and> side_get (se_asks se') p = (case last_such (\<lambda>l. ol_price l = p) (od_asks d) of
        None \<Rightarrow> side_get (se_asks se) p
      | Some l \<Rightarrow> if fle (ol_amount l) (Fin 0) then None else Some (ol_amount l))"
  using apply_delta_accepted[OF assms(1)] assms(2) by (simp add: apply_sides_def apply_side_updates_get)

theorem accepted_delta_updates_book_witness:
  "let se = book_run (sync_engine_init ''x'' ''s'') [LoadSnapshot book_snapshot0];
       se' = book_exec se (ApplyDelta book_delta0)
   in se_sequence se' = Some 102 \<and> side_get (se_bids se') (Fin 10) = None
     \<and> side_get (se_asks se') (Fin 11) = Some (Fin 1)"
proof -
  let ?se = "book_run (sync_engine_init ''x'' ''s'') [LoadSnapshot book_snapshot0]"
  let ?se' = "book_exec ?se (ApplyDelta book_delta0)"
  have a: "apply_delta book_delta0 ?se = Inr (True, ?se')" by code_simp
  have "last_such (\<lambda>l. ol_price l = Fin 10) (od_bids book_delta0) = Some \<lparr>ol_price = Fin 10, ol_amount = Fin 0\<rparr>"
    "last_such (\<lambda>l. ol_price l = Fin 11) (od_asks book_delta0) = None"
    "side_get (se_asks ?se) (Fin 11) = Some (Fin 1)" "od_sequence_end book_delta0 = Some 102" by code_simp+
  then show ?thesis
    using accepted_delta_updates_book[OF a, of "Fin 10"] accepted_delta_updates_book[OF a, of "Fin 11"]
    by (simp add: Let_def)
qed

text \<open>C26: For a delta of its market, the gap detector foresees what an initialised engine does: the
  verdict is stale exactly when the engine refuses the delta unchanged, resync exactly when it
  raises the gap error, and accept exactly when it applies the delta.\<close>

theorem gap_detector_agrees_with_engine:
  assumes "se_initialized se" and "od_exchange d = se_exchange se" and "od_symbol d = se_symbol se"
  shows "let g = gap_evaluate (se_sequence se) (od_sequence_start d) (od_sequence_end d) in
    (gr_action g = ''ignore_stale'' \<longleftrightarrow> apply_delta d se = Inr (False, se))
    \<and> (gr_action g = ''resync'' \<longleftrightarrow> (\<exists>m. apply_delta d se = Inl (Exc OrderBookSequenceGapError m)))
    \<and> (gr_action g = ''accept'' \<longleftrightarrow> (\<exists>se'. apply_delta d se = Inr (True, se')))
    \<and> gr_has_gap g = (gr_action g = ''resync'') \<and> (0 < gr_gap_size g) = gr_has_gap g"
  using assms unfolding gap_evaluate_def apply_delta_def validate_scope_def
  by (simp add: Let_def split: option.splits)

theorem gap_detector_agrees_with_engine_witness:
  "let se = book_run (sync_engine_init ''x'' ''s'') [LoadSnapshot book_snapshot0];
       late = book_delta0\<lparr>od_sequence_start := Some 105, od_sequence_end := Some 105\<rparr>
   in (\<exists>m. apply_delta late se = Inl (Exc OrderBookSequenceGapError m))
     \<and> gr_gap_size (gap_evaluate (se_sequence se) (Some 105) (Some 105)) = 4"
proof -
  let ?se = "book_run (sync_engine_init ''x'' ''s'') [LoadSnapshot book_snapshot0]"
  let ?d = "book_delta0\<lparr>od_sequence_start := Some 105, od_sequence_end := Some 105\<rparr>"
  have "se_initialized ?se" "od_exchange ?d = se_exchange ?se" "od_symbol ?d = se_symbol ?se"
    "gr_action (gap_evaluate (se_sequence ?se) (od_sequence_start ?d) (od_sequence_end ?d)) = ''resync''"
    "gr_gap_size (gap_evaluate (se_sequence ?se) (Some 105) (Some 105)) = 4" by code_simp+
  then show ?thesis using gap_detector_agrees_with_engine[of ?se ?d] unfolding Let_def by blast
qed


end
