(* ===== verification/Market_Kline.thy ===== *)
theory Market_Kline
  imports Py_Values "HOL-Library.Multiset"
begin

text \<open>
  The validator of candle series (\<open>services/market_ingestion/kline_validator.py\<close>): order of the open
  times, consistency of each bar, alignment to the interval and the open times that are missing.
  The lemmas show that a series passes exactly when it is a gapless grid of consistent bars, and
  that the missing times are exactly the holes of the grid.
\<close>

section \<open>Data\<close>

record kline_bar =
  kb_open_time_ms :: int
  kb_open :: pyfloat
  kb_high :: pyfloat
  kb_low :: pyfloat
  kb_close :: pyfloat
  kb_volume :: pyfloat

record kline_validation =
  kv_is_valid :: bool
  kv_missing_open_times :: "int list"
  kv_errors :: "string list"

section \<open>Operations\<close>

text \<open>Neighbours of a list: \<open>xs[i - 1], xs[i]\<close> for \<open>i\<close> from 1.\<close>

definition adjacent :: "'a list \<Rightarrow> ('a \<times> 'a) list" where
  "adjacent xs = zip xs (tl xs)"

text \<open>\<open>list(range(start, stop, step))\<close> for a step that is not zero\<close>

definition range_list :: "int \<Rightarrow> int \<Rightarrow> int \<Rightarrow> int list" where
  "range_list start stop step =
     (let n = (if 0 < step then (stop - start + step - 1) div step else (start - stop - step - 1) div (- step))
      in map (\<lambda>i. start + int i * step) [0..<nat n])"

definition order_errors :: "kline_bar list \<Rightarrow> string list" where
  "order_errors bars =
     (if list_ex (\<lambda>(prev, curr). kb_open_time_ms curr \<le> kb_open_time_ms prev) (adjacent bars)
      then [''Kline open times must be strictly monotonic increasing''] else [])"

definition bar_errors :: "kline_bar \<Rightarrow> string list" where
  "bar_errors bar =
     (let max_oc = fmax (kb_open bar) (kb_close bar); min_oc = fmin (kb_open bar) (kb_close bar) in
      (if flt (kb_high bar) max_oc \<or> flt min_oc (kb_low bar) \<or> flt (kb_high bar) (kb_low bar)
       then [''Kline high/low consistency violated at '' @ int_str (kb_open_time_ms bar)] else [])
      @ (if flt (kb_volume bar) (Fin 0)
         then [''Kline volume must be non-negative at '' @ int_str (kb_open_time_ms bar)] else []))"

text \<open>One turn of the loop over the sorted bars: the new errors and the new missing times.\<close>

definition gap_check :: "int \<Rightarrow> int \<times> int \<Rightarrow> (string list \<times> int list) result" where
  "gap_check interval_ms pair = (case pair of (prev_open, curr_open) \<Rightarrow>
     (let gap = curr_open - prev_open in
      if gap \<le> 0 then Inr ([], [])
      else if interval_ms = 0 then Inl (Exc ZeroDivisionError ''integer modulo by zero'')
      else Inr
        (if gap mod interval_ms \<noteq> 0
           then [''Kline interval mismatch between '' @ int_str prev_open @ '' and '' @ int_str curr_open] else [],
         if gap > interval_ms then range_list (prev_open + interval_ms) curr_open interval_ms else [])))"

definition kline_validate :: "int \<Rightarrow> kline_bar list \<Rightarrow> kline_validation result" where
  "kline_validate interval_ms bars =
     (if bars = [] then Inr \<lparr>kv_is_valid = True, kv_missing_open_times = [], kv_errors = []\<rparr>
      else
        (let sorted_bars = sort_key kb_open_time_ms bars in
         rbind (rmap (gap_check interval_ms) (adjacent (map kb_open_time_ms sorted_bars))) (\<lambda>gaps.
           let errors = order_errors bars @ concat (map bar_errors bars) @ concat (map fst gaps);
               missing_open_times = concat (map snd gaps)
           in Inr \<lparr>kv_is_valid = (errors = [] \<and> missing_open_times = []),
                   kv_missing_open_times = missing_open_times, kv_errors = errors\<rparr>)))"

section \<open>Lists of neighbours\<close>

lemma adjacent_simps [simp]:
  "adjacent [] = []" "adjacent [x] = []" "adjacent (x # y # ys) = (x, y) # adjacent (y # ys)"
  by (simp_all add: adjacent_def)

lemma adjacent_map: "adjacent (map f xs) = map (\<lambda>(x, y). (f x, f y)) (adjacent xs)"
  by (simp add: adjacent_def zip_map_map map_tl[symmetric])

lemma adjacent_sorted: "sorted_wrt P xs \<Longrightarrow> \<forall>(x, y) \<in> set (adjacent xs). P x y"
  by (induction xs rule: induct_list012) auto

lemma increasing_adjacent:
  "(\<forall>(x, y) \<in> set (adjacent ts). x < y) \<longleftrightarrow> sorted_wrt (<) (ts :: int list)"
proof (induction ts rule: induct_list012)
  case (3 x y ts)
  then show ?case by (auto intro: less_trans)
qed auto

text \<open>A grid: every time is one interval after its predecessor.\<close>

definition on_grid :: "int \<Rightarrow> int list \<Rightarrow> bool" where
  "on_grid step ts \<longleftrightarrow> (\<forall>(x, y) \<in> set (adjacent ts). y = x + step)"

lemma le_div_iff: "0 < (d :: int) \<Longrightarrow> k \<le> m div d \<longleftrightarrow> k * d \<le> m"
proof
  assume d: "0 < d" and "k \<le> m div d"
  then have "k * d \<le> (m div d) * d" by (simp add: mult_right_mono)
  also have "\<dots> \<le> m" using d pos_mod_sign[OF d, of m] div_mult_mod_eq[of m d] by linarith
  finally show "k * d \<le> m" .
next
  assume d: "0 < d" and "k * d \<le> m"
  then have "k * d div d \<le> m div d" by (intro zdiv_mono1)
  then show "k \<le> m div d" using d by simp
qed

lemma set_range_list:
  assumes "0 < step"
  shows "set (range_list a b step) = {t. a \<le> t \<and> t < b \<and> (t - a) mod step = 0}"
proof -
  have n: "t < b \<longleftrightarrow> nat ((t - a) div step) < nat ((b - a + step - 1) div step)"
    if t: "a \<le> t" "(t - a) mod step = 0" for t
  proof -
    obtain k where k: "t = a + k * step" using t(2) by (metis add_diff_cancel_left' diff_add_cancel mod_0_imp_dvd dvd_def mult.commute)
    then have k0: "0 \<le> k" using t(1) assms by (simp add: zero_le_mult_iff)
    have q: "(t - a) div step = k" using k assms by simp
    have "t < b \<longleftrightarrow> k * step < b - a" using k by linarith
    also have "\<dots> \<longleftrightarrow> (k + 1) * step \<le> b - a + step - 1" by (simp add: algebra_simps) linarith
    also have "\<dots> \<longleftrightarrow> k + 1 \<le> (b - a + step - 1) div step" using le_div_iff[OF assms] by simp
    finally show ?thesis using q k0 by auto
  qed
  show ?thesis
  proof (intro set_eqI iffI)
    fix t assume "t \<in> set (range_list a b step)"
    then obtain i where i: "t = a + int i * step" "i < nat ((b - a + step - 1) div step)"
      using assms by (auto simp: range_list_def)
    then have "a \<le> t" "(t - a) mod step = 0" "nat ((t - a) div step) = i" using assms by simp_all
    then show "t \<in> {t. a \<le> t \<and> t < b \<and> (t - a) mod step = 0}" using n[of t] i(2) by simp
  next
    fix t assume "t \<in> {t. a \<le> t \<and> t < b \<and> (t - a) mod step = 0}"
    then have t: "a \<le> t" "t < b" "(t - a) mod step = 0" by auto
    let ?i = "nat ((t - a) div step)"
    have "0 \<le> (t - a) div step" using t(1) assms by (simp add: pos_imp_zdiv_nonneg_iff)
    then have "t = a + int ?i * step" using t(3) by (simp add: mult.commute) (metis add.commute diff_add_cancel minus_mod_eq_mult_div diff_zero)
    moreover have "?i < nat ((b - a + step - 1) div step)" using n[OF t(1,3)] t(2) by simp
    moreover have "set (range_list a b step) = (\<lambda>i. a + int i * step) ` {0..<nat ((b - a + step - 1) div step)}"
      using assms by (simp add: range_list_def)
    ultimately show "t \<in> set (range_list a b step)" by (metis atLeastLessThan_iff image_eqI le0)
  qed
qed

section \<open>Holes between two neighbours\<close>

definition gap_mismatch :: "int \<Rightarrow> int \<times> int \<Rightarrow> bool" where
  "gap_mismatch step pair = (case pair of (p, c) \<Rightarrow> p < c \<and> (c - p) mod step \<noteq> 0)"

definition gap_missing :: "int \<Rightarrow> int \<times> int \<Rightarrow> int list" where
  "gap_missing step pair = (case pair of (p, c) \<Rightarrow> if c - p > step then range_list (p + step) c step else [])"

lemma gap_check_value:
  "0 < step \<Longrightarrow> returns (\<lambda>(errs, missing). (errs = [] \<longleftrightarrow> \<not> gap_mismatch step pair) \<and> missing = gap_missing step pair)
     (gap_check step pair)"
  by (auto simp: gap_check_def gap_mismatch_def gap_missing_def returns_def Let_def split: prod.splits)

lemma mod_shift: "(t - (p + step)) mod step = 0 \<longleftrightarrow> t mod step = (p :: int) mod step"
proof -
  have e: "(t - (p + step)) mod step = (t - p) mod step" by (metis diff_diff_eq minus_mod_self2)
  have "t mod step = p mod step \<longleftrightarrow> (t - p) mod step = 0" by (simp add: mod_eq_dvd_iff mod_eq_0_iff_dvd)
  then show ?thesis by (simp only: e)
qed

lemma set_gap_missing:
  assumes "0 < step"
  shows "set (gap_missing step (p, c)) = {t. p < t \<and> t < c \<and> t mod step = p mod step}"
proof -
  have le: "p + step \<le> t \<longleftrightarrow> p < t" if "t mod step = p mod step" for t
  proof -
    have "step dvd t - p" using that by (simp add: mod_eq_dvd_iff)
    then show ?thesis using zdvd_imp_le[of step "t - p"] assms by auto
  qed
  have "set (range_list (p + step) c step) = {t. p < t \<and> t < c \<and> t mod step = p mod step}"
    unfolding set_range_list[OF assms] mod_shift using le by blast
  moreover have "{t. p < t \<and> t < c \<and> t mod step = p mod step} = {}" if "\<not> step < c - p"
    using le that by force
  ultimately show ?thesis unfolding gap_missing_def prod.case by (cases "step < c - p") (simp_all only: if_True if_False list.set not_False_eq_True not_True_eq_False simp_thms)
qed

lemma split_holes:
  fixes x y l :: int
  assumes "\<forall>t \<in> T. y \<le> t" "x \<le> y" "y \<le> l"
  shows "{t. x < t \<and> t < y \<and> Q t} \<union> ({t. y < t \<and> t < l \<and> Q t} - insert y T) =
    {t. x < t \<and> t < l \<and> Q t} - insert x (insert y T)"
  using assms by force

lemma gaps_fill_grid:
  assumes "0 < step" "sorted ts" "\<forall>t \<in> set ts. t mod step = r" "ts \<noteq> []"
  shows "(\<Union>pair \<in> set (adjacent ts). set (gap_missing step pair)) =
    {t. hd ts < t \<and> t < last ts \<and> t mod step = r} - set ts"
  using assms(2-4)
proof (induction ts rule: induct_list012)
  case (3 x y ts)
  have "\<forall>t \<in> set (y # ts). y \<le> t" "x \<le> y" using 3(3) by auto
  moreover from this have l: "y \<le> last (y # ts)" by simp
  moreover have "set (gap_missing step (x, y)) = {t. x < t \<and> t < y \<and> t mod step = r}"
    using set_gap_missing[OF assms(1)] 3(4) by simp
  moreover have "(\<Union>pair \<in> set (adjacent (y # ts)). set (gap_missing step pair)) =
      {t. y < t \<and> t < last (y # ts) \<and> t mod step = r} - set (y # ts)"
    using 3(2) 3(3,4) by simp
  moreover have "{t. x < t \<and> t < y \<and> t mod step = r} \<union>
      ({t. y < t \<and> t < last (y # ts) \<and> t mod step = r} - insert y (set ts)) =
      {t. x < t \<and> t < last (y # ts) \<and> t mod step = r} - insert x (insert y (set ts))"
    by (rule split_holes) (use 3(3) l in auto)
  ultimately show ?case by (simp only: adjacent_simps list.set UN_insert list.sel last.simps list.distinct if_False)
qed auto

lemma on_grid_iff:
  assumes "0 < step"
  shows "on_grid step ts \<longleftrightarrow> sorted_wrt (<) ts
    \<and> (\<forall>pair \<in> set (adjacent ts). \<not> gap_mismatch step pair \<and> gap_missing step pair = [])"
proof -
  have pair: "y = x + step \<longleftrightarrow> x < y \<and> \<not> gap_mismatch step (x, y) \<and> gap_missing step (x, y) = []" for x y
  proof
    assume "y = x + step"
    then show "x < y \<and> \<not> gap_mismatch step (x, y) \<and> gap_missing step (x, y) = []"
      using assms by (simp add: gap_mismatch_def gap_missing_def)
  next
    assume a: "x < y \<and> \<not> gap_mismatch step (x, y) \<and> gap_missing step (x, y) = []"
    then have "step dvd y - x" by (auto simp: gap_mismatch_def)
    then have le: "step \<le> y - x" using a by (intro zdvd_imp_le) auto
    have "x + step \<notin> set (gap_missing step (x, y))" using a by simp
    then have "\<not> x + step < y" using assms by (simp add: set_gap_missing)
    then show "y = x + step" using le by simp
  qed
  show ?thesis unfolding on_grid_def increasing_adjacent[symmetric] using pair by fast
qed

section \<open>The verdict\<close>

definition bar_ok :: "kline_bar \<Rightarrow> bool" where
  "bar_ok bar \<longleftrightarrow> \<not> flt (kb_high bar) (kb_open bar) \<and> \<not> flt (kb_high bar) (kb_close bar)
     \<and> \<not> flt (kb_open bar) (kb_low bar) \<and> \<not> flt (kb_close bar) (kb_low bar)
     \<and> \<not> flt (kb_high bar) (kb_low bar) \<and> \<not> flt (kb_volume bar) (Fin 0)"

definition bar_numbers :: "kline_bar \<Rightarrow> bool" where
  "bar_numbers bar \<longleftrightarrow> kb_open bar \<noteq> NaN \<and> kb_close bar \<noteq> NaN"

lemma bar_errors_iff: "bar_numbers bar \<Longrightarrow> bar_errors bar = [] \<longleftrightarrow> bar_ok bar"
proof -
  have mx: "flt h (fmax a b) \<longleftrightarrow> flt h a \<or> flt h b" if "a \<noteq> NaN" "b \<noteq> NaN" for h a b
    using that by (cases a; cases b; cases h) (auto simp: fmax_def)
  have mn: "flt (fmin a b) l \<longleftrightarrow> flt a l \<or> flt b l" if "a \<noteq> NaN" "b \<noteq> NaN" for l a b
    using that by (cases a; cases b; cases l) (auto simp: fmin_def)
  show "bar_numbers bar \<Longrightarrow> ?thesis"
    by (auto simp: bar_errors_def bar_ok_def bar_numbers_def mx mn Let_def)
qed


lemma kline_validate_value:
  assumes step: "0 < step" and bars: "bars \<noteq> []" "\<forall>b \<in> set bars. bar_numbers b"
  shows "returns (\<lambda>v.
      (kv_is_valid v \<longleftrightarrow> on_grid step (map kb_open_time_ms bars) \<and> (\<forall>b \<in> set bars. bar_ok b))
      \<and> set (kv_missing_open_times v) = (\<Union>pair \<in> set (adjacent (sort (map kb_open_time_ms bars))). set (gap_missing step pair)))
    (kline_validate step bars)"
proof -
  let ?ts = "map kb_open_time_ms bars" and ?ss = "map kb_open_time_ms (sort_key kb_open_time_ms bars)"
  have s: "?ss = sort ?ts" by (rule properties_for_sort[symmetric]) simp_all
  let ?Q = "\<lambda>pair g. (fst g = [] \<longleftrightarrow> \<not> gap_mismatch step pair) \<and> snd g = gap_missing step pair"
  have "returns (?Q pair) (gap_check step pair)" for pair
    using gap_check_value[OF step, of pair] by (simp add: case_prod_unfold)
  then obtain gaps where g: "rmap (gap_check step) (adjacent ?ss) = Inr gaps" "list_all2 ?Q (adjacent ?ss) gaps"
    using rmap_returns[of "adjacent ?ss" ?Q "gap_check step"] by (auto simp: returns_iff)
  have missing: "map snd gaps = map (gap_missing step) (adjacent ?ss)"
    using g(2) by (induction rule: list_all2_induct) auto
  have mism: "concat (map fst gaps) = [] \<longleftrightarrow> (\<forall>pair \<in> set (adjacent ?ss). \<not> gap_mismatch step pair)"
    using g(2) by (induction rule: list_all2_induct) auto
  have order: "order_errors bars = [] \<longleftrightarrow> sorted_wrt (<) ?ts"
    unfolding increasing_adjacent[symmetric] adjacent_map
    by (simp add: order_errors_def list_ex_iff case_prod_unfold not_less not_le)
  have same: "sorted_wrt (<) ?ts \<Longrightarrow> ?ss = ?ts"
    unfolding s by (simp add: sorted_sort_id strict_sorted_imp_sorted)
  have "concat (map bar_errors bars) = [] \<longleftrightarrow> (\<forall>b \<in> set bars. bar_ok b)"
    using bars(2) bar_errors_iff by auto
  then have valid: "(order_errors bars = [] \<and> concat (map bar_errors bars) = [] \<and> concat (map fst gaps) = []
      \<and> concat (map (gap_missing step) (adjacent ?ss)) = []) \<longleftrightarrow> on_grid step ?ts \<and> (\<forall>b \<in> set bars. bar_ok b)"
    unfolding on_grid_iff[OF step] order mism using same by (auto simp: concat_eq_Nil_conv)
  show ?thesis
    unfolding kline_validate_def if_not_P[OF bars(1)] Let_def g(1) rbind_simps missing
    using valid by (simp add: returns_def s)
qed

lemma sorted_ends:
  "sorted ts \<Longrightarrow> ts \<noteq> [] \<Longrightarrow> hd ts = Min (set ts)" "sorted ts \<Longrightarrow> ts \<noteq> [] \<Longrightarrow> last ts = Max (set ts)"
  for ts :: "int list"
proof -
  show "sorted ts \<Longrightarrow> ts \<noteq> [] \<Longrightarrow> hd ts = Min (set ts)"
    by (cases ts) (auto intro!: Min_eqI[symmetric])
  show "sorted ts \<Longrightarrow> ts \<noteq> [] \<Longrightarrow> last ts = Max (set ts)"
    by (induction ts rule: rev_induct) (auto simp: sorted_append intro!: Max_eqI[symmetric])
qed

section \<open>Properties\<close>

text \<open>C28: With a positive interval and bars whose open and close are numbers, a series passes validation exactly
  when every bar opens one interval after its predecessor and every bar is consistent; bars off the grid
  of their predecessor are refused. When all bars do lie on one grid, the reported missing times are
  exactly the grid points between first and last bar that no bar has.\<close>

theorem kline_validation_exact:
  assumes "0 < interval_ms" and "bars \<noteq> []" and "\<forall>b \<in> set bars. bar_numbers b"
  shows "returns (\<lambda>v.
      (kv_is_valid v \<longleftrightarrow> on_grid interval_ms (map kb_open_time_ms bars) \<and> (\<forall>b \<in> set bars. bar_ok b))
      \<and> (\<forall>r. (\<forall>b \<in> set bars. kb_open_time_ms b mod interval_ms = r) \<longrightarrow>
          set (kv_missing_open_times v) =
            {t. Min (kb_open_time_ms ` set bars) < t \<and> t < Max (kb_open_time_ms ` set bars) \<and> t mod interval_ms = r}
              - kb_open_time_ms ` set bars))
    (kline_validate interval_ms bars)"
proof -
  let ?ts = "map kb_open_time_ms bars" and ?ss = "sort (map kb_open_time_ms bars)"
  have ne: "?ss \<noteq> []" using assms(2) by (simp flip: set_empty)
  have "hd ?ss = Min (set ?ss)" "last ?ss = Max (set ?ss)"
    by (rule sorted_ends[OF sorted_sort ne])+
  then have ends: "hd ?ss = Min (kb_open_time_ms ` set bars)" "last ?ss = Max (kb_open_time_ms ` set bars)" by simp_all
  have "(\<Union>pair \<in> set (adjacent ?ss). set (gap_missing interval_ms pair)) =
      {t. hd ?ss < t \<and> t < last ?ss \<and> t mod interval_ms = r} - set ?ss"
    if "\<forall>b \<in> set bars. kb_open_time_ms b mod interval_ms = r" for r
    by (rule gaps_fill_grid[OF assms(1) sorted_sort _ ne]) (use that in auto)
  with ends show ?thesis
    by (intro returns_mono[OF kline_validate_value[OF assms]]) simp
qed

definition sample_bar :: "int \<Rightarrow> kline_bar" where
  "sample_bar t = \<lparr>kb_open_time_ms = t, kb_open = Fin 2, kb_high = Fin 4, kb_low = Fin 1, kb_close = Fin 3,
     kb_volume = Fin 5\<rparr>"

theorem kline_validation_exact_witness:
  "returns (\<lambda>v. \<not> kv_is_valid v \<and> set (kv_missing_open_times v) = {60, 120})
      (kline_validate 60 [sample_bar 0, sample_bar 180])
    \<and> returns (\<lambda>v. \<not> kv_is_valid v) (kline_validate 60 [sample_bar 0, sample_bar 30])
    \<and> returns kv_is_valid (kline_validate 60 [sample_bar 0, sample_bar 60])"
proof (intro conjI)
  let ?bars = "[sample_bar 0, sample_bar 180]"
  have h: "bar_numbers (sample_bar t)" "bar_ok (sample_bar t)" "kb_open_time_ms (sample_bar t) = t" for t
    by (simp_all add: bar_numbers_def bar_ok_def sample_bar_def)
  have "{t. Min (kb_open_time_ms ` set ?bars) < t \<and> t < Max (kb_open_time_ms ` set ?bars) \<and> t mod 60 = 0}
      - kb_open_time_ms ` set ?bars = {60, 120}" (is "?holes = _")
    unfolding set_eq_iff by (simp add: h) presburger
  moreover have "\<forall>b \<in> set ?bars. kb_open_time_ms b mod 60 = 0" by (simp add: h)
  ultimately show "returns (\<lambda>v. \<not> kv_is_valid v \<and> set (kv_missing_open_times v) = {60, 120}) (kline_validate 60 ?bars)"
    by (intro returns_mono[OF kline_validation_exact[of 60 ?bars]]) (auto simp: h on_grid_def)
  show "returns (\<lambda>v. \<not> kv_is_valid v) (kline_validate 60 [sample_bar 0, sample_bar 30])"
    by (rule returns_mono[OF kline_validation_exact]) (simp_all add: h on_grid_def)
  show "returns kv_is_valid (kline_validate 60 [sample_bar 0, sample_bar 60])"
    by (rule returns_mono[OF kline_validation_exact]) (simp_all add: h on_grid_def)
qed

end
