(* ===== verification/Market_Feed.thy ===== *)
theory Market_Feed
  imports Market_Book Market_Kline Py_Convert Shared_Envelope Shared_Broker
begin

text \<open>
  The market ingestion service around the order book: the adapter that normalises exchange payloads
  (\<open>services/market_ingestion/exchange_adapter.py\<close>), the pipeline that publishes canonical messages
  (\<open>canonical_pipeline.py\<close>), reconnect back-off (\<open>connection_resilience.py\<close>) and the pipeline
  counters (\<open>pipeline_metrics.py\<close>). The exchange clients are outside the repository: what a call of
  one returns or raises is an argument. Random identifiers, random numbers and clock readings are
  arguments too. The lemmas show that normalised books are sorted with usable amounts, that what the
  pipeline publishes is a valid envelope, and which delays the back-off gives.
\<close>

section \<open>Exchange adapter\<close>

definition parse_optional_int :: "pyval \<Rightarrow> int option result" where
  "parse_optional_int v = (case v of
      PNone \<Rightarrow> Inr None
    | _ \<Rightarrow> (case py_int v of
        Inr n \<Rightarrow> Inr (Some n)
      | Inl e \<Rightarrow> if exc_class e \<in> {TypeError, ValueError} then Inr None else Inl e))"

definition normalize_delta_source :: "string \<Rightarrow> string result" where
  "normalize_delta_source v =
     (let normalized = py_lower (py_strip v) in
      if normalized \<in> {''websocket'', ''ws''} then Inr ''websocket''
      else if normalized \<in> {''rest'', ''restful'', ''http''} then Inr ''rest''
      else Inl (Exc AdapterConfigurationError (''delta_source must be '' @ str_repr ''websocket'' @ '' or '' @ str_repr ''rest'')))"

text \<open>\<open>raw.get(k)\<close> and \<open>raw.get(k) or raw.get(k')\<close>\<close>

definition raw_get :: "pydict \<Rightarrow> string \<Rightarrow> pyval" where
  "raw_get raw k = pget raw k PNone"

definition raw_or :: "pydict \<Rightarrow> string \<Rightarrow> string \<Rightarrow> pyval" where
  "raw_or raw k k' = py_or (raw_get raw k) (raw_get raw k')"

definition side_lists :: "string \<Rightarrow> pydict \<Rightarrow> (pyval list \<times> pyval list) result" where
  "side_lists what raw = (case (raw_get raw ''bids'', raw_get raw ''asks'') of
      (PList bids, PList asks) \<Rightarrow> Inr (bids, asks)
    | _ \<Rightarrow> Inl (Exc AdapterPayloadError (what @ '' payload must contain list bids and asks'')))"

definition normalize_snapshot :: "string \<Rightarrow> string \<Rightarrow> pydict \<Rightarrow> order_book_snapshot result" where
  "normalize_snapshot exchange symbol raw =
     rbind (side_lists ''Snapshot'' raw) (\<lambda>(bids, asks).
     rbind (parse_optional_int (raw_or raw ''nonce'' ''sequence'')) (\<lambda>sequence.
     rbind (parse_optional_int (raw_get raw ''timestamp'')) (\<lambda>timestamp_ms.
     rbind (parse_levels bids ''bid'' False) (\<lambda>bid_levels.
     rbind (parse_levels asks ''ask'' False) (\<lambda>ask_levels.
     Inr \<lparr>os_exchange = exchange, os_symbol = symbol, os_sequence = sequence,
          os_timestamp_ms = timestamp_ms, os_bids = bid_levels, os_asks = ask_levels\<rparr>)))))"

definition delta_sequence :: "pydict \<Rightarrow> (int option \<times> int option) result" where
  "delta_sequence raw =
     rbind (parse_optional_int (raw_or raw ''U'' ''sequence_start'')) (\<lambda>sequence_start.
     rbind (parse_optional_int (raw_or raw ''u'' ''sequence_end'')) (\<lambda>sequence_end.
     if sequence_start = None \<and> sequence_end = None
     then rbind (parse_optional_int (raw_or raw ''nonce'' ''sequence'')) (\<lambda>nonce. Inr (nonce, nonce))
     else Inr (sequence_start, sequence_end)))"

definition normalize_delta :: "string \<Rightarrow> string \<Rightarrow> pydict \<Rightarrow> order_book_delta result" where
  "normalize_delta exchange symbol raw =
     rbind (side_lists ''Delta'' raw) (\<lambda>(bids, asks).
     rbind (delta_sequence raw) (\<lambda>(sequence_start, sequence_end).
     rbind (parse_optional_int (raw_get raw ''timestamp'')) (\<lambda>timestamp_ms.
     rbind (parse_levels bids ''bid'' True) (\<lambda>bid_levels.
     rbind (parse_levels asks ''ask'' True) (\<lambda>ask_levels.
     Inr \<lparr>od_exchange = exchange, od_symbol = symbol, od_sequence_start = sequence_start,
          od_sequence_end = sequence_end, od_timestamp_ms = timestamp_ms,
          od_bids = bid_levels, od_asks = ask_levels\<rparr>)))))"

record ingestion_adapter =
  ia_exchange :: string
  ia_delta_source :: string

definition bootstrap_snapshot ::
    "ingestion_adapter \<Rightarrow> string \<Rightarrow> pydict result \<Rightarrow> order_book_snapshot result" where
  "bootstrap_snapshot adapter symbol rest_reply =
     rbind rest_reply (\<lambda>raw. normalize_snapshot (ia_exchange adapter) symbol raw)"

definition poll_delta ::
    "ingestion_adapter \<Rightarrow> string \<Rightarrow> string option \<Rightarrow> pydict result \<Rightarrow> pydict result \<Rightarrow> order_book_delta result" where
  "poll_delta adapter symbol source_override rest_reply ws_reply =
     (let selected_source = (case source_override of Some s \<Rightarrow> s | None \<Rightarrow> ia_delta_source adapter) in
      rbind (normalize_delta_source selected_source) (\<lambda>source.
      rbind (if source = ''rest'' then rest_reply else ws_reply) (\<lambda>raw.
        normalize_delta (ia_exchange adapter) symbol raw)))"

section \<open>Canonical pipeline\<close>

definition level_dict :: "order_book_level \<Rightarrow> pyval" where
  "level_dict level = PDict [(''price'', PFloat (ol_price level)), (''amount'', PFloat (ol_amount level))]"

definition normalize_order_book_delta :: "order_book_delta \<Rightarrow> pydict" where
  "normalize_order_book_delta delta =
     [(''exchange'', PStr (od_exchange delta)), (''symbol'', PStr (od_symbol delta)),
      (''timestamp_ms'', opt_int (od_timestamp_ms delta)),
      (''sequence_start'', opt_int (od_sequence_start delta)),
      (''sequence_end'', opt_int (od_sequence_end delta)),
      (''bids'', PList (map level_dict (od_bids delta))), (''asks'', PList (map level_dict (od_asks delta)))]"

text \<open>The random identifiers and the clock reading of one envelope\<close>

record envelope_stamp =
  st_trace_id :: string
  st_decision_id :: string
  st_now :: int

definition build_envelope ::
    "string \<Rightarrow> envelope_stamp \<Rightarrow> string \<Rightarrow> string \<Rightarrow> pydict \<Rightarrow> string \<Rightarrow> pydict result" where
  "build_envelope service_name stamp event_type mode payload idempotency_key =
     (let envelope = [
        (''trace_id'', PStr (st_trace_id stamp)), (''decision_id'', PStr (st_decision_id stamp)),
        (''mode'', PStr mode), (''idempotency_key'', PStr idempotency_key), (''event_type'', PStr event_type),
        (''emitted_at'', PStr (iso_utc (st_now stamp))), (''payload'', PDict payload), (''service'', PStr service_name)]
      in rbind (validate_envelope (PDict envelope)) (\<lambda>_. Inr envelope))"

text \<open>An optional integer in a key: its digits, or \<open>na\<close>\<close>

definition marker :: "int option \<Rightarrow> string" where
  "marker n = (case n of None \<Rightarrow> ''na'' | Some i \<Rightarrow> int_str i)"

definition delta_key :: "order_book_delta \<Rightarrow> string" where
  "delta_key delta = ''market.canonical.orderbook_delta:'' @ od_exchange delta @ '':'' @ od_symbol delta @ '':''
     @ marker (od_sequence_end delta)"

definition publish_order_book_delta ::
    "string \<Rightarrow> envelope_stamp \<Rightarrow> order_book_delta \<Rightarrow> string \<Rightarrow> broker \<Rightarrow> (pydict \<times> broker) result" where
  "publish_order_book_delta service_name stamp delta mode b =
     rbind (build_envelope service_name stamp ''market.canonical.orderbook_delta'' mode
        (normalize_order_book_delta delta) (delta_key delta)) (\<lambda>envelope.
     rbind (broker_publish ''market.canonical'' (PDict envelope) b) (\<lambda>(_, b'). Inr (envelope, b')))"

definition kline_payload :: "string \<Rightarrow> string \<Rightarrow> int \<Rightarrow> kline_bar list \<Rightarrow> kline_validation \<Rightarrow> pydict" where
  "kline_payload exchange symbol interval_ms bars validation =
     [(''exchange'', PStr exchange), (''symbol'', PStr symbol), (''interval_ms'', PInt interval_ms),
      (''bar_count'', PInt (int (length bars))),
      (''validation'', PDict [(''is_valid'', PBool (kv_is_valid validation)),
         (''missing_open_times'', PList (map PInt (kv_missing_open_times validation))),
         (''errors'', PList (map PStr (kv_errors validation)))])]"

definition kline_key :: "string \<Rightarrow> string \<Rightarrow> kline_bar list \<Rightarrow> string" where
  "kline_key exchange symbol bars =
     (let first_open = (if bars = [] then None else Some (kb_open_time_ms (hd bars)));
          last_open = (if bars = [] then None else Some (kb_open_time_ms (last bars)))
      in ''market.canonical.kline_validation:'' @ exchange @ '':'' @ symbol @ '':'' @ marker first_open @ '':''
         @ marker last_open)"

definition publish_kline_validation ::
    "string \<Rightarrow> envelope_stamp \<Rightarrow> string \<Rightarrow> string \<Rightarrow> int \<Rightarrow> kline_bar list \<Rightarrow> string \<Rightarrow> broker
      \<Rightarrow> (pydict \<times> broker) result" where
  "publish_kline_validation service_name stamp exchange symbol interval_ms bars mode b =
     rbind (kline_validate interval_ms bars) (\<lambda>validation.
     rbind (build_envelope service_name stamp ''market.canonical.kline_validation'' mode
        (kline_payload exchange symbol interval_ms bars validation) (kline_key exchange symbol bars)) (\<lambda>envelope.
     rbind (broker_publish ''market.canonical'' (PDict envelope) b) (\<lambda>(_, b'). Inr (envelope, b'))))"

section \<open>Reconnect back-off\<close>

record backoff_config =
  bc_base_delay_seconds :: pyfloat
  bc_max_delay_seconds :: pyfloat
  bc_backoff_multiplier :: pyfloat
  bc_jitter_ratio :: pyfloat
  bc_stale_after_seconds :: pyfloat

definition default_backoff :: backoff_config where
  "default_backoff = \<lparr>bc_base_delay_seconds = Fin 1, bc_max_delay_seconds = Fin 30,
     bc_backoff_multiplier = Fin 2, bc_jitter_ratio = fl (2 / 10), bc_stale_after_seconds = Fin 15\<rparr>"

record resilience_manager =
  rm_config :: backoff_config
  rm_last_heartbeat_seconds :: "pyfloat option"
  rm_disconnect_attempts :: int

definition resilience_init :: "backoff_config option \<Rightarrow> resilience_manager" where
  "resilience_init config = \<lparr>rm_config = (case config of None \<Rightarrow> default_backoff | Some c \<Rightarrow> c),
     rm_last_heartbeat_seconds = None, rm_disconnect_attempts = 0\<rparr>"

definition mark_heartbeat :: "pyfloat \<Rightarrow> resilience_manager \<Rightarrow> resilience_manager" where
  "mark_heartbeat now_seconds rm = rm\<lparr>rm_last_heartbeat_seconds := Some now_seconds\<rparr>"

definition is_stale :: "pyfloat \<Rightarrow> resilience_manager \<Rightarrow> bool" where
  "is_stale now_seconds rm = (case rm_last_heartbeat_seconds rm of
      None \<Rightarrow> True
    | Some heartbeat \<Rightarrow> flt (bc_stale_after_seconds (rm_config rm)) (fsub now_seconds heartbeat))"

definition raw_backoff :: "backoff_config \<Rightarrow> int \<Rightarrow> pyfloat result" where
  "raw_backoff config attempt =
     (if attempt \<le> 1 then Inr (bc_base_delay_seconds config)
      else rbind (fpow (bc_backoff_multiplier config) (nat (attempt - 1))) (\<lambda>factor.
        Inr (fmul (bc_base_delay_seconds config) factor)))"

definition next_backoff_seconds :: "pyfloat \<Rightarrow> int \<Rightarrow> backoff_config \<Rightarrow> pyfloat result" where
  "next_backoff_seconds random attempt config =
     rbind (raw_backoff config attempt) (\<lambda>raw.
     let capped = fmin raw (bc_max_delay_seconds config);
         jitter_window = fmul capped (bc_jitter_ratio config);
         jitter_offset = fmul (fsub (fmul random (Fin 2)) (Fin 1)) jitter_window
     in Inr (fmax (Fin 0) (fmin (bc_max_delay_seconds config) (fadd capped jitter_offset))))"

text \<open>The counter is increased before the delay is computed, and stays increased if that raises.\<close>

definition record_disconnect :: "pyfloat \<Rightarrow> resilience_manager \<Rightarrow> pyfloat result \<times> resilience_manager" where
  "record_disconnect random rm =
     (let rm' = rm\<lparr>rm_disconnect_attempts := rm_disconnect_attempts rm + 1\<rparr>
      in (next_backoff_seconds random (rm_disconnect_attempts rm') (rm_config rm'), rm'))"

definition record_reconnect_success :: "pyfloat \<Rightarrow> resilience_manager \<Rightarrow> resilience_manager" where
  "record_reconnect_success now_seconds rm = mark_heartbeat now_seconds (rm\<lparr>rm_disconnect_attempts := 0\<rparr>)"

section \<open>Pipeline counters\<close>

record pipeline_metrics =
  mp_delta_timestamps :: "pyfloat list"
  mp_delta_lags_ms :: "pyfloat list"
  mp_reconnect_timestamps :: "pyfloat list"
  mp_resync_timestamps :: "pyfloat list"

definition new_pipeline_metrics :: pipeline_metrics where
  "new_pipeline_metrics = \<lparr>mp_delta_timestamps = [], mp_delta_lags_ms = [], mp_reconnect_timestamps = [],
     mp_resync_timestamps = []\<rparr>"

definition record_delta_processed :: "pyfloat \<Rightarrow> pyfloat \<Rightarrow> pipeline_metrics \<Rightarrow> pipeline_metrics" where
  "record_delta_processed lag_ms now_seconds mp =
     mp\<lparr>mp_delta_timestamps := mp_delta_timestamps mp @ [now_seconds],
        mp_delta_lags_ms := mp_delta_lags_ms mp @ [lag_ms]\<rparr>"

definition record_reconnect :: "pyfloat \<Rightarrow> pipeline_metrics \<Rightarrow> pipeline_metrics" where
  "record_reconnect now_seconds mp =
     mp\<lparr>mp_reconnect_timestamps := mp_reconnect_timestamps mp @ [now_seconds]\<rparr>"

definition record_resync_request :: "pyfloat \<Rightarrow> pipeline_metrics \<Rightarrow> pipeline_metrics" where
  "record_resync_request now_seconds mp =
     mp\<lparr>mp_resync_timestamps := mp_resync_timestamps mp @ [now_seconds]\<rparr>"

definition events_per_second :: "pyfloat \<Rightarrow> pyfloat \<Rightarrow> pipeline_metrics \<Rightarrow> pyfloat result" where
  "events_per_second window_seconds now_seconds mp =
     (if fle window_seconds (Fin 0) then Inr (Fin 0)
      else
        (let cutoff = fsub now_seconds window_seconds;
             in_window = filter (\<lambda>ts. fle cutoff ts) (mp_delta_timestamps mp)
         in fdiv (fl (of_nat (length in_window))) window_seconds))"

definition opt_float :: "pyfloat option \<Rightarrow> pyval" where
  "opt_float x = (case x of None \<Rightarrow> PNone | Some f \<Rightarrow> PFloat f)"

definition pipeline_snapshot :: "pyfloat \<Rightarrow> pipeline_metrics \<Rightarrow> pydict result" where
  "pipeline_snapshot now_seconds mp =
     (let lags = mp_delta_lags_ms mp;
          latest_lag = (if lags = [] then None else Some (last lags));
          max_lag = (if lags = [] then None else Some (foldl fmax (hd lags) (tl lags)));
          avg_lag = (if lags = [] then None else Some (py_mean lags))
      in rbind (events_per_second (Fin 60) now_seconds mp) (\<lambda>rate. Inr [
        (''counters'', PDict [(''deltas_processed_total'', PInt (int (length (mp_delta_timestamps mp)))),
           (''reconnects_total'', PInt (int (length (mp_reconnect_timestamps mp)))),
           (''resync_requests_total'', PInt (int (length (mp_resync_timestamps mp))))]),
        (''lag_ms'', PDict [(''latest'', opt_float latest_lag), (''avg'', opt_float avg_lag), (''max'', opt_float max_lag)]),
        (''rates'', PDict [(''events_per_second_60s'', PFloat rate)])]))"

section \<open>Normalised levels\<close>

text \<open>Sorting by a number orders the list weakly.\<close>

lemma sort_by_weak:
  assumes "\<forall>x \<in> set xs. key x \<noteq> NaN"
  shows "sorted_wrt (\<lambda>x y. \<not> key_before key r y x) (sort_by (key_before key r) xs)"
  using assms
proof (induction xs)
  case (Cons x xs)
  let ?s = "sort_by (key_before key r) xs"
  have "flt a c \<Longrightarrow> flt a b \<or> flt b c" if "b \<noteq> NaN" for a b c
    using that by (cases a; cases b; cases c) auto
  then have tr: "key_before key r a c \<Longrightarrow> key_before key r a b \<or> key_before key r b c" if "key b \<noteq> NaN" for a b c
    using that unfolding key_before_def by (cases r) auto
  have "flt a b \<Longrightarrow> \<not> flt b a" for a b by (cases a; cases b) auto
  then have asym: "key_before key r a b \<Longrightarrow> \<not> key_before key r b a" for a b
    unfolding key_before_def by (cases r) auto
  have "sorted_wrt (\<lambda>x y. \<not> key_before key r y x) ys \<Longrightarrow> \<forall>y \<in> set ys. key y \<noteq> NaN \<Longrightarrow>
      sorted_wrt (\<lambda>x y. \<not> key_before key r y x) (insert_by (key_before key r) x ys)" for ys
  proof (induction ys)
    case (Cons y ys)
    then show ?case using asym[of y x] tr[of y _ x] by (auto simp: set_insert_by)
  qed simp
  then show ?case using Cons by (simp add: sort_by_def sort_by_set[unfolded sort_by_def])
qed (simp add: sort_by_def)

definition amount_ok :: "bool \<Rightarrow> pyfloat \<Rightarrow> bool" where
  "amount_ok allow_zero a \<longleftrightarrow> \<not> flt a (Fin 0) \<and> (allow_zero \<or> a \<noteq> Fin 0)"

lemma parse_level_amounts: "ensures (\<lambda>ls. \<forall>l \<in> set ls. amount_ok z (ol_amount l)) (parse_level z v)"
  unfolding parse_level_def
  by (auto split: option.splits prod.splits simp: amount_ok_def)

lemma parse_levels_value:
  assumes "parse_levels levels side z = Inr ls"
  shows "\<forall>l \<in> set ls. amount_ok z (ol_amount l)"
    "levels_ok ls \<Longrightarrow> sorted_wrt (\<lambda>x y. \<not> key_before ol_price (side = ''bid'') y x) ls"
proof -
  obtain parsed where p: "rmap (parse_level z) levels = Inr parsed"
    "ls = sort_by (key_before ol_price (side = ''bid'')) (concat parsed)"
    using assms by (auto simp: parse_levels_def result_simps Let_def)
  have "\<forall>ps \<in> set parsed. \<forall>l \<in> set ps. amount_ok z (ol_amount l)"
    using p(1) unfolding rmap_Inr_iff
    by (induction rule: list_all2_induct) (auto dest: ensuresD[OF parse_level_amounts])
  then show "\<forall>l \<in> set ls. amount_ok z (ol_amount l)" by (auto simp: p(2) sort_by_set)
  assume "levels_ok ls"
  then have "\<forall>l \<in> set (concat parsed). ol_price l \<noteq> NaN" by (force simp: levels_ok_def p(2) sort_by_set)
  then show "sorted_wrt (\<lambda>x y. \<not> key_before ol_price (side = ''bid'') y x) ls"
    unfolding p(2) by (rule sort_by_weak)
qed

section \<open>Published messages\<close>

definition stamp_ok :: "envelope_stamp \<Rightarrow> bool" where
  "stamp_ok stamp \<longleftrightarrow> uuid_ok (st_trace_id stamp) \<and> uuid_ok (st_decision_id stamp) \<and> in_range (st_now stamp)"

lemma build_envelope_returns:
  assumes "stamp_ok stamp" "mode \<in> {''MOCK'', ''REAL''}" "py_strip key \<noteq> []" "py_strip event_type \<noteq> []"
  shows "returns (\<lambda>env. envelope_ok (PDict env) \<and> dict_get env ''payload'' = Some (PDict payload)
      \<and> dict_get env ''mode'' = Some (PStr mode) \<and> dict_get env ''event_type'' = Some (PStr event_type)
      \<and> dict_get env ''idempotency_key'' = Some (PStr key))
    (build_envelope service stamp event_type mode payload key)"
proof -
  have "envelope_ok (PDict [(''trace_id'', PStr (st_trace_id stamp)), (''decision_id'', PStr (st_decision_id stamp)),
        (''mode'', PStr mode), (''idempotency_key'', PStr key), (''event_type'', PStr event_type),
        (''emitted_at'', PStr (iso_utc (st_now stamp))), (''payload'', PDict payload), (''service'', PStr service)])"
    using assms by (auto simp: envelope_ok_def field_iffs stamp_ok_def timestamp_ok_iso)
  then show ?thesis by (simp add: build_envelope_def Let_def validate_envelope_iff[THEN iffD2] returns_def)
qed

lemma market_text: "py_strip (''market.canonical.'' @ s) \<noteq> []"
  by (simp add: py_strip_def strip_chars_empty is_space_def)

lemma publish_order_book_delta_returns:
  assumes "broker_ok b" "stamp_ok stamp" "mode \<in> {''MOCK'', ''REAL''}"
  shows "returns (\<lambda>(env, b'). envelope_ok (PDict env) \<and> broker_ok b'
      \<and> dict_get env ''payload'' = Some (PDict (normalize_order_book_delta delta))
      \<and> dict_get env ''mode'' = Some (PStr mode)
      \<and> (\<forall>k q. routed b' k q = routed b k q)
      \<and> (\<forall>q. queue_contents q b' = queue_contents q b @ (if routed b ''market.canonical'' q then [env] else [])))
    (publish_order_book_delta service stamp delta mode b)"
  unfolding publish_order_book_delta_def
proof (rule returns_rbind[OF build_envelope_returns[OF assms(2,3)]])
  show "py_strip (delta_key delta) \<noteq> []" "py_strip ''market.canonical.orderbook_delta'' \<noteq> []"
    using market_text[of "''orderbook_delta''"]
      market_text[of "''orderbook_delta:'' @ od_exchange delta @ '':'' @ od_symbol delta @ '':'' @ marker (od_sequence_end delta)"]
    by (simp_all add: delta_key_def)
qed (rule returns_rbind[OF broker_publish_returns[OF assms(1)]], auto simp: returns_def)

section \<open>Back-off\<close>

lemma clamp_bounds:
  assumes "m \<noteq> NaN" "fle (Fin 0) m"
  shows "fle (Fin 0) (fmax (Fin 0) (fmin m x))" "fle (fmax (Fin 0) (fmin m x)) m"
  using assms by (cases m; cases x; auto simp: fmax_def fmin_def)+


lemma raw_backoff_default:
  "raw_backoff (default_backoff\<lparr>bc_stale_after_seconds := s\<rparr>) attempt =
     (if attempt \<le> 1024 then Inr (Fin (2 ^ nat (attempt - 1)))
      else Inl (Exc OverflowError ''(34, 'Numerical result out of range')''))"
proof (cases "attempt \<le> 1")
  case True
  then have "nat (attempt - 1) = 0" by simp
  with True show ?thesis by (simp add: raw_backoff_def default_backoff_def)
next
  case False
  then have n: "nat (attempt - 1) < 1024 \<longleftrightarrow> attempt \<le> 1024" by linarith
  have "fl (2 ^ nat (attempt - 1)) = Fin (2 ^ nat (attempt - 1))" if "attempt \<le> 1024"
    using fpow_two[of "nat (attempt - 1)"] that n False by (cases "nat (attempt - 1)") (auto split: pyfloat.splits)
  with False show ?thesis by (simp add: raw_backoff_def default_backoff_def fpow_two n)
qed

section \<open>Properties\<close>

text \<open>C35: With the default delays, the first 1024 consecutive disconnects get a delay between 0 and the
  30 second maximum whatever the random number; from the 1025th on, computing the delay raises
  \<open>OverflowError\<close>.\<close>

theorem backoff_bounded_until_overflow:
  "case next_backoff_seconds random attempt (default_backoff\<lparr>bc_stale_after_seconds := s\<rparr>) of
     Inr delay \<Rightarrow> attempt \<le> 1024 \<and> fle (Fin 0) delay \<and> fle delay (Fin 30)
   | Inl e \<Rightarrow> 1024 < attempt \<and> exc_class e = OverflowError"
proof -
  have m: "bc_max_delay_seconds (default_backoff\<lparr>bc_stale_after_seconds := s\<rparr>) = Fin 30"
    by (simp add: default_backoff_def)
  show ?thesis
    unfolding next_backoff_seconds_def raw_backoff_default m
    using clamp_bounds[of "Fin 30"] by (simp add: Let_def)
qed


end
