(* ===== verification/Market_Runtime.thy ===== *)
theory Market_Runtime
  imports Market_Feed Notify_Events
begin

text \<open>
  The market worker of \<open>services/workers/runtime_pipeline.py\<close>, which composes the adapter, the order
  book engine, the gap detector, the back-off, the counters, the canonical pipeline and the
  notification bridge into one cycle. What the exchange clients answer, the random numbers and
  identifiers and the clock readings of one cycle are the record \<open>market_io\<close>; the state store is the
  protocol of the code: functions on a state of its own. A cycle returns its result with the new
  worker and broker, because a raised exception keeps the updates made before it. The lemmas show
  what one cycle publishes, that book and published stream stay in step, and that a failing
  websocket never stops a cycle while the REST side answers.
\<close>

section \<open>State\<close>

record 's market_worker =
  mw_adapter :: ingestion_adapter
  mw_service_name :: string
  mw_symbol :: string
  mw_mode :: string
  mw_bridge :: "notification_bridge option"
  mw_store :: "'s option"
  mw_kline_client :: bool
  mw_kline_intervals :: "string list"
  mw_kline_poll_interval_seconds :: pyfloat
  mw_kline_fetch_limit :: int
  mw_ws_stale_after_seconds :: pyfloat
  mw_ws_probe_interval_seconds :: pyfloat
  mw_bootstrapped :: bool
  mw_last_kline_poll :: "pyfloat option"
  mw_next_ws_probe :: pyfloat
  mw_last_delta_source :: "string option"
  mw_last_fallback_reason :: "string option"
  mw_last_envelope_summary :: pydict
  mw_integrity_enabled :: bool
  mw_engine :: "sync_engine option"
  mw_gap_detector :: bool
  mw_resilience :: "resilience_manager option"
  mw_metrics :: "pipeline_metrics option"

text \<open>Identifiers and clock readings of one health notification\<close>

record health_stamp =
  hs_trace_id :: string
  hs_fresh_uuid :: string
  hs_now :: int
  hs_now' :: int

record market_io =
  io_bootstrap_reply :: "pydict result"
  io_rest_reply :: "pydict result"
  io_ws_reply :: "pydict result"
  io_klines :: "string \<Rightarrow> pyval list result"
  io_random :: pyfloat
  io_mono_bootstrap :: pyfloat
  io_mono_poll :: pyfloat
  io_mono_disconnect :: pyfloat
  io_mono_reconnect :: pyfloat
  io_mono_resync :: pyfloat
  io_mono_kline :: pyfloat
  io_time_disconnect :: pyfloat
  io_time_resync :: pyfloat
  io_time_lag :: pyfloat
  io_time_delta :: pyfloat
  io_stamp :: envelope_stamp
  io_warning :: health_stamp
  io_failure :: health_stamp

record 's store_ops =
  so_persist_envelope :: "pydict \<Rightarrow> 's \<Rightarrow> unit result \<times> 's"
  so_persist_klines :: "(string \<Rightarrow> string \<Rightarrow> string \<Rightarrow> pyval list \<Rightarrow> 's \<Rightarrow> unit result \<times> 's) option"

section \<open>Construction\<close>

definition source_is_websocket :: "string \<Rightarrow> bool" where
  "source_is_websocket v = (py_lower (py_strip v) \<in> {''websocket'', ''ws''})"

definition market_worker_init ::
    "ingestion_adapter \<Rightarrow> string \<Rightarrow> string \<Rightarrow> string \<Rightarrow> notification_bridge option \<Rightarrow> 's option \<Rightarrow> bool
      \<Rightarrow> string list \<Rightarrow> pyfloat \<Rightarrow> int \<Rightarrow> pyfloat \<Rightarrow> pyfloat \<Rightarrow> 's market_worker" where
  "market_worker_init adapter service_name symbol mode bridge store kline_client kline_intervals
       kline_poll_interval_seconds kline_fetch_limit ws_stale_after_seconds ws_probe_interval_seconds =
     (let stale = fmax (Fin 0) ws_stale_after_seconds; enabled = source_is_websocket (ia_delta_source adapter) in
      \<lparr>mw_adapter = adapter, mw_service_name = service_name, mw_symbol = symbol, mw_mode = mode,
       mw_bridge = bridge, mw_store = store, mw_kline_client = kline_client,
       mw_kline_intervals = filter (\<lambda>i. i \<noteq> []) (map py_strip kline_intervals),
       mw_kline_poll_interval_seconds = fmax (Fin 1) kline_poll_interval_seconds,
       mw_kline_fetch_limit = max 1 kline_fetch_limit, mw_ws_stale_after_seconds = stale,
       mw_ws_probe_interval_seconds = fmax (fl (1 / 10)) ws_probe_interval_seconds,
       mw_bootstrapped = False, mw_last_kline_poll = None, mw_next_ws_probe = Fin 0,
       mw_last_delta_source = None, mw_last_fallback_reason = None, mw_last_envelope_summary = [],
       mw_integrity_enabled = enabled,
       mw_engine = (if enabled then Some (sync_engine_init (ia_exchange adapter) symbol) else None),
       mw_gap_detector = enabled,
       mw_resilience = (if enabled then Some (resilience_init
          (Some (default_backoff\<lparr>bc_stale_after_seconds := fmax (fl (1 / 10)) stale\<rparr>))) else None),
       mw_metrics = (if enabled then Some new_pipeline_metrics else None)\<rparr>)"

section \<open>Fallback to REST\<close>

definition snapshot_to_delta :: "order_book_snapshot \<Rightarrow> order_book_delta" where
  "snapshot_to_delta snapshot =
     \<lparr>od_exchange = os_exchange snapshot, od_symbol = os_symbol snapshot,
      od_sequence_start = os_sequence snapshot, od_sequence_end = os_sequence snapshot,
      od_timestamp_ms = os_timestamp_ms snapshot, od_bids = os_bids snapshot, od_asks = os_asks snapshot\<rparr>"

text \<open>\<open>if self._sync_engine is not None: self._sync_engine.load_snapshot(snapshot)\<close>\<close>

definition load_into :: "order_book_snapshot \<Rightarrow> sync_engine option \<Rightarrow> sync_engine option result" where
  "load_into snapshot engine = (case engine of
      None \<Rightarrow> Inr None
    | Some se \<Rightarrow> rbind (load_snapshot snapshot se) (\<lambda>se'. Inr (Some se')))"

definition fetch_rest_snapshot_delta ::
    "market_io \<Rightarrow> string \<Rightarrow> 's market_worker \<Rightarrow> order_book_delta result \<times> 's market_worker" where
  "fetch_rest_snapshot_delta io reason w =
     (case bootstrap_snapshot (mw_adapter w) (mw_symbol w) (io_rest_reply io) of
        Inl e \<Rightarrow> (Inl e, w)
      | Inr snapshot \<Rightarrow>
          (case load_into snapshot (mw_engine w) of
             Inl e \<Rightarrow> (Inl e, w)
           | Inr engine \<Rightarrow>
               (Inr (snapshot_to_delta snapshot),
                w\<lparr>mw_engine := engine,
                  mw_metrics := map_option (record_resync_request (io_time_resync io)) (mw_metrics w),
                  mw_last_delta_source := Some ''rest'', mw_last_fallback_reason := Some reason,
                  mw_next_ws_probe := fadd (io_mono_resync io) (mw_ws_probe_interval_seconds w)\<rparr>)))"

definition apply_integrity ::
    "market_io \<Rightarrow> order_book_delta \<Rightarrow> 's market_worker \<Rightarrow> order_book_delta result \<times> 's market_worker" where
  "apply_integrity io delta w = (case mw_engine w of
      None \<Rightarrow> (Inr delta, w)
    | Some se \<Rightarrow>
        if \<not> mw_gap_detector w then (Inr delta, w) else
        (let gap = gap_evaluate (se_sequence se) (od_sequence_start delta) (od_sequence_end delta) in
         if gr_action gap = ''ignore_stale'' then fetch_rest_snapshot_delta io ''websocket_stale_delta'' w
         else if gr_action gap = ''resync'' then fetch_rest_snapshot_delta io ''sequence_gap_resync'' w
         else (case apply_delta delta se of
             Inl e \<Rightarrow> if exc_class e = OrderBookSequenceGapError
               then fetch_rest_snapshot_delta io ''sequence_gap_exception'' w else (Inl e, w)
           | Inr (accepted, se') \<Rightarrow>
               (let w1 = w\<lparr>mw_engine := Some se'\<rparr> in
                if \<not> accepted then fetch_rest_snapshot_delta io ''delta_rejected_as_stale'' w1
                else (Inr delta, w1\<lparr>mw_resilience :=
                  map_option (record_reconnect_success (io_mono_reconnect io)) (mw_resilience w1)\<rparr>)))))"

definition health_event ::
    "health_stamp \<Rightarrow> string \<Rightarrow> exc \<Rightarrow> pydict \<Rightarrow> 's market_worker \<Rightarrow> broker \<Rightarrow> broker result" where
  "health_event stamp severity e details w b = (case mw_bridge w of
      None \<Rightarrow> Inr b
    | Some bridge \<Rightarrow>
        rbind (publish_system_health_event bridge (hs_fresh_uuid stamp) (hs_now stamp) (hs_now' stamp)
          (hs_trace_id stamp) (mw_mode w) ''system.exchange.connectivity_issue'' severity
          (class_name (exc_class e)) details b) (\<lambda>(_, b'). Inr b'))"

text \<open>The handler of a failed websocket poll, up to the notification.\<close>

definition note_disconnect :: "market_io \<Rightarrow> 's market_worker \<Rightarrow> unit result \<times> 's market_worker" where
  "note_disconnect io w = (case mw_resilience w of
      None \<Rightarrow> (Inr (), w\<lparr>mw_metrics := map_option (record_reconnect (io_time_disconnect io)) (mw_metrics w)\<rparr>)
    | Some rm \<Rightarrow> (case record_disconnect (io_random io) rm of
        (Inl e, rm') \<Rightarrow> (Inl e, w\<lparr>mw_resilience := Some rm'\<rparr>)
      | (Inr backoff, rm') \<Rightarrow>
          (Inr (), w\<lparr>mw_resilience := Some rm',
             mw_next_ws_probe := fadd (io_mono_disconnect io) (fmax (mw_ws_probe_interval_seconds w) backoff),
             mw_metrics := map_option (record_reconnect (io_time_disconnect io)) (mw_metrics w)\<rparr>)))"

definition cutover_to_rest :: "market_io \<Rightarrow> 's market_worker \<Rightarrow> bool" where
  "cutover_to_rest io w = (case mw_resilience w of
      None \<Rightarrow> False
    | Some rm \<Rightarrow> is_stale (io_mono_poll io) rm \<and> flt (io_mono_poll io) (mw_next_ws_probe w))"

definition poll_websocket_delta ::
    "market_io \<Rightarrow> 's market_worker \<Rightarrow> broker \<Rightarrow> order_book_delta result \<times> 's market_worker \<times> broker" where
  "poll_websocket_delta io w b =
     (if cutover_to_rest io w then
        (case fetch_rest_snapshot_delta io ''stream_stale_cutover'' w of (r, w') \<Rightarrow> (r, w', b))
      else (case poll_delta (mw_adapter w) (mw_symbol w) (Some ''websocket'') (io_rest_reply io) (io_ws_reply io) of
          Inl e \<Rightarrow>
            (case note_disconnect io w of
               (Inl e', w1) \<Rightarrow> (Inl e', w1, b)
             | (Inr _, w1) \<Rightarrow>
                 (case health_event (io_warning io) ''WARNING'' e
                     [(''symbol'', PStr (mw_symbol w1)), (''error'', PStr (exc_str e)), (''fallback'', PStr ''rest'')] w1 b of
                    Inl e' \<Rightarrow> (Inl e', w1, b)
                  | Inr b1 \<Rightarrow>
                      (case fetch_rest_snapshot_delta io ''websocket_error_fallback'' w1 of (r, w2) \<Rightarrow> (r, w2, b1))))
        | Inr delta \<Rightarrow>
            (case apply_integrity io delta
                (w\<lparr>mw_last_delta_source := Some ''websocket'', mw_last_fallback_reason := None\<rparr>) of
               (r, w') \<Rightarrow> (r, w', b))))"

section \<open>Counters, summary and candles\<close>

definition delta_lag :: "market_io \<Rightarrow> order_book_delta \<Rightarrow> pyfloat result" where
  "delta_lag io delta = (case od_timestamp_ms delta of
      None \<Rightarrow> Inr (Fin 0)
    | Some timestamp_ms \<Rightarrow>
        rbind (int_of_float (fmul (io_time_lag io) (Fin 1000))) (\<lambda>now_ms.
          float_of_int (max 0 (now_ms - timestamp_ms))))"

definition record_processed_delta ::
    "market_io \<Rightarrow> order_book_delta \<Rightarrow> 's market_worker \<Rightarrow> 's market_worker result" where
  "record_processed_delta io delta w = (case mw_metrics w of
      None \<Rightarrow> Inr w
    | Some mp \<Rightarrow> rbind (delta_lag io delta) (\<lambda>lag_ms.
        Inr (w\<lparr>mw_metrics := Some (record_delta_processed lag_ms (io_time_delta io) mp)\<rparr>)))"

definition best_price :: "pyval \<Rightarrow> pyfloat result" where
  "best_price levels = (case levels of
      PList (PDict level # _) \<Rightarrow> py_float (py_or (pget level ''price'' (PFloat (Fin 0))) (PFloat (Fin 0)))
    | _ \<Rightarrow> Inr (Fin 0))"

definition market_envelope_summary :: "pydict \<Rightarrow> pydict result" where
  "market_envelope_summary envelope = (case pget envelope ''payload'' PNone of
      PDict payload \<Rightarrow>
        rbind (best_price (pget payload ''bids'' PNone)) (\<lambda>best_bid.
        rbind (best_price (pget payload ''asks'' PNone)) (\<lambda>best_ask.
        Inr [(''trace_id'', PStr (py_str (pget envelope ''trace_id'' (PStr [])))),
             (''decision_id'', PStr (py_str (pget envelope ''decision_id'' (PStr [])))),
             (''exchange'', PStr (py_str (pget payload ''exchange'' (PStr [])))),
             (''symbol'', PStr (py_str (pget payload ''symbol'' (PStr [])))),
             (''timestamp_ms'', pget payload ''timestamp_ms'' PNone),
             (''sequence_start'', pget payload ''sequence_start'' PNone),
             (''sequence_end'', pget payload ''sequence_end'' PNone),
             (''best_bid'', PFloat best_bid), (''best_ask'', PFloat best_ask)]))
    | _ \<Rightarrow> Inr [])"

fun store_klines ::
    "(string \<Rightarrow> pyval list result) \<Rightarrow> (string \<Rightarrow> pyval list \<Rightarrow> 's \<Rightarrow> unit result \<times> 's) \<Rightarrow> string list \<Rightarrow> 's
      \<Rightarrow> unit result \<times> 's" where
  "store_klines fetch persist [] s = (Inr (), s)"
| "store_klines fetch persist (interval # intervals) s = (case fetch interval of
      Inl e \<Rightarrow> (Inl e, s)
    | Inr bars \<Rightarrow> (case persist interval bars s of
        (Inl e, s') \<Rightarrow> (Inl e, s')
      | (Inr _, s') \<Rightarrow> store_klines fetch persist intervals s'))"

definition klines_due :: "market_io \<Rightarrow> 's market_worker \<Rightarrow> bool" where
  "klines_due io w = (case mw_last_kline_poll w of
      None \<Rightarrow> True
    | Some last_poll \<Rightarrow> \<not> flt (fsub (io_mono_kline io) last_poll) (mw_kline_poll_interval_seconds w))"

definition poll_klines_if_due ::
    "'s store_ops \<Rightarrow> market_io \<Rightarrow> 's market_worker \<Rightarrow> unit result \<times> 's market_worker" where
  "poll_klines_if_due ops io w =
     (if \<not> mw_kline_client w \<or> mw_kline_intervals w = [] then (Inr (), w)
      else (case (mw_store w, so_persist_klines ops) of
          (Some s, Some persist) \<Rightarrow>
            if \<not> klines_due io w then (Inr (), w)
            else (case store_klines (io_klines io) (persist (ia_exchange (mw_adapter w)) (mw_symbol w))
                      (mw_kline_intervals w) s of
                (Inl e, s') \<Rightarrow> (Inl e, w\<lparr>mw_store := Some s'\<rparr>)
              | (Inr _, s') \<Rightarrow>
                  (Inr (), w\<lparr>mw_store := Some s', mw_last_kline_poll := Some (io_mono_kline io)\<rparr>))
        | _ \<Rightarrow> (Inr (), w)))"

section \<open>One cycle\<close>

definition bootstrap_worker :: "market_io \<Rightarrow> 's market_worker \<Rightarrow> 's market_worker result" where
  "bootstrap_worker io w =
     (if mw_bootstrapped w then Inr w
      else rbind (bootstrap_snapshot (mw_adapter w) (mw_symbol w) (io_bootstrap_reply io)) (\<lambda>snapshot.
        rbind (load_into snapshot (mw_engine w)) (\<lambda>engine.
        Inr (w\<lparr>mw_engine := engine,
               mw_resilience := (if mw_engine w = None then mw_resilience w
                 else map_option (mark_heartbeat (io_mono_bootstrap io)) (mw_resilience w)),
               mw_bootstrapped := True\<rparr>))))"

definition next_delta ::
    "market_io \<Rightarrow> 's market_worker \<Rightarrow> broker \<Rightarrow> order_book_delta result \<times> 's market_worker \<times> broker" where
  "next_delta io w b =
     (if mw_integrity_enabled w then poll_websocket_delta io w b
      else (case poll_delta (mw_adapter w) (mw_symbol w) None (io_rest_reply io) (io_ws_reply io) of
          Inl e \<Rightarrow> (Inl e, w, b)
        | Inr delta \<Rightarrow>
            (Inr delta, w\<lparr>mw_last_delta_source := Some (ia_delta_source (mw_adapter w)),
               mw_last_fallback_reason := None\<rparr>, b)))"

definition store_envelope ::
    "'s store_ops \<Rightarrow> pydict \<Rightarrow> 's market_worker \<Rightarrow> unit result \<times> 's market_worker" where
  "store_envelope ops envelope w = (case mw_store w of
      None \<Rightarrow> (Inr (), w)
    | Some s \<Rightarrow> (case so_persist_envelope ops envelope s of (r, s') \<Rightarrow> (r, w\<lparr>mw_store := Some s'\<rparr>)))"

text \<open>The statements after the delta is known.\<close>

definition publish_delta ::
    "'s store_ops \<Rightarrow> market_io \<Rightarrow> order_book_delta \<Rightarrow> 's market_worker \<Rightarrow> broker
      \<Rightarrow> pydict result \<times> 's market_worker \<times> broker" where
  "publish_delta ops io delta w b = (case record_processed_delta io delta w of
      Inl e \<Rightarrow> (Inl e, w, b)
    | Inr w1 \<Rightarrow>
        (case publish_order_book_delta (mw_service_name w1) (io_stamp io) delta (mw_mode w1) b of
           Inl e \<Rightarrow> (Inl e, w1, b)
         | Inr (envelope, b1) \<Rightarrow>
             (case market_envelope_summary envelope of
                Inl e \<Rightarrow> (Inl e, w1, b1)
              | Inr summary \<Rightarrow>
                  (case store_envelope ops envelope (w1\<lparr>mw_last_envelope_summary := summary\<rparr>) of
                     (Inl e, w2) \<Rightarrow> (Inl e, w2, b1)
                   | (Inr _, w2) \<Rightarrow>
                       (case poll_klines_if_due ops io w2 of
                          (Inl e, w3) \<Rightarrow> (Inl e, w3, b1)
                        | (Inr _, w3) \<Rightarrow> (Inr envelope, w3, b1))))))"

definition market_cycle ::
    "'s store_ops \<Rightarrow> market_io \<Rightarrow> 's market_worker \<Rightarrow> broker \<Rightarrow> pydict result \<times> 's market_worker \<times> broker" where
  "market_cycle ops io w b = (case bootstrap_worker io w of
      Inl e \<Rightarrow> (Inl e, w, b)
    | Inr w1 \<Rightarrow> (case next_delta io w1 b of
        (Inl e, w2, b2) \<Rightarrow> (Inl e, w2, b2)
      | (Inr delta, w2, b2) \<Rightarrow> publish_delta ops io delta w2 b2))"

definition market_run_once ::
    "'s store_ops \<Rightarrow> market_io \<Rightarrow> 's market_worker \<Rightarrow> broker \<Rightarrow> pydict result \<times> 's market_worker \<times> broker" where
  "market_run_once ops io w b = (case market_cycle ops io w b of
      (Inr envelope, w1, b1) \<Rightarrow> (Inr envelope, w1, b1)
    | (Inl e, w1, b1) \<Rightarrow>
        (case health_event (io_failure io) ''CRITICAL'' e
            [(''symbol'', PStr (mw_symbol w1)), (''error'', PStr (exc_str e))] w1 b1 of
           Inl e' \<Rightarrow> (Inl e', w1, b1)
         | Inr b2 \<Rightarrow> (Inl e, w1, b2)))"

section \<open>Reports\<close>

definition opt_str :: "string option \<Rightarrow> pyval" where
  "opt_str s = (case s of None \<Rightarrow> PNone | Some t \<Rightarrow> PStr t)"

definition integrity_snapshot :: "pyfloat \<Rightarrow> 's market_worker \<Rightarrow> pydict result" where
  "integrity_snapshot now_seconds w = (case mw_metrics w of
      None \<Rightarrow> Inr [(''enabled'', PBool False)]
    | Some mp \<Rightarrow> rbind (pipeline_snapshot now_seconds mp) (\<lambda>metrics. Inr [
        (''enabled'', PBool True), (''exchange'', PStr (ia_exchange (mw_adapter w))),
        (''symbol'', PStr (mw_symbol w)), (''pipeline_metrics'', PDict metrics),
        (''current_sequence'', (case mw_engine w of None \<Rightarrow> PNone | Some se \<Rightarrow> opt_int (se_sequence se)))]))"

definition activity_snapshot :: "pyfloat \<Rightarrow> 's market_worker \<Rightarrow> pydict result" where
  "activity_snapshot now_seconds w =
     rbind (integrity_snapshot now_seconds w) (\<lambda>integrity. Inr (
       [(''exchange'', PStr (ia_exchange (mw_adapter w))), (''symbol'', PStr (mw_symbol w)),
        (''mode'', PStr (mw_mode w)), (''delta_source'', opt_str (mw_last_delta_source w)),
        (''fallback_reason'', opt_str (mw_last_fallback_reason w)), (''integrity'', PDict integrity),
        (''kline_intervals'', PList (map PStr (mw_kline_intervals w)))]
       @ (if mw_last_envelope_summary w \<noteq> [] then [(''latest'', PDict (mw_last_envelope_summary w))] else [])))"

section \<open>Several exchanges\<close>

text \<open>Each worker runs with its own readings; the first exception ends the round.\<close>

fun multi_run_once ::
    "'s store_ops \<Rightarrow> (market_io \<times> 's market_worker) list \<Rightarrow> pydict option \<Rightarrow> broker
      \<Rightarrow> pydict result \<times> 's market_worker list \<times> broker" where
  "multi_run_once ops [] last_envelope b =
     ((case last_envelope of
         None \<Rightarrow> Inl (Exc RuntimeError ''multi-exchange market worker executed with no workers'')
       | Some envelope \<Rightarrow> Inr envelope), [], b)"
| "multi_run_once ops ((io, w) # workers) last_envelope b = (case market_run_once ops io w b of
      (Inl e, w', b') \<Rightarrow> (Inl e, w' # map snd workers, b')
    | (Inr envelope, w', b') \<Rightarrow> (case multi_run_once ops workers (Some envelope) b' of
        (r, ws', b'') \<Rightarrow> (r, w' # ws', b'')))"

definition multi_worker_init :: "'s market_worker list \<Rightarrow> 's market_worker list result" where
  "multi_worker_init workers =
     (if workers = [] then Inl (Exc ValueError ''workers must be non-empty'') else Inr workers)"

definition multi_activity_snapshot :: "(pyfloat \<times> 's market_worker) list \<Rightarrow> pydict result" where
  "multi_activity_snapshot workers =
     rbind (rmap (\<lambda>(now_seconds, w). activity_snapshot now_seconds w) workers) (\<lambda>reports. Inr [
       (''workers_total'', PInt (int (length workers))), (''workers'', PList (map PDict reports))])"

section \<open>Invariant\<close>

text \<open>The engine of a worker has its market and is filled once the worker has started; the back-off has
  the default delays.\<close>

definition worker_ok :: "'s market_worker \<Rightarrow> bool" where
  "worker_ok w \<longleftrightarrow> mw_integrity_enabled w = (mw_engine w \<noteq> None) \<and> mw_gap_detector w = (mw_engine w \<noteq> None)
     \<and> (\<forall>se. mw_engine w = Some se \<longrightarrow> se_exchange se = ia_exchange (mw_adapter w) \<and> se_symbol se = mw_symbol w
          \<and> (mw_bootstrapped w \<longrightarrow> se_initialized se))
     \<and> (\<forall>rm. mw_resilience w = Some rm \<longrightarrow> (\<exists>s. rm_config rm = default_backoff\<lparr>bc_stale_after_seconds := s\<rparr>))"

lemma worker_ok_init: "worker_ok (market_worker_init a sn sy m br st kc ki kp kl ws wp)"
  by (simp add: worker_ok_def market_worker_init_def Let_def sync_engine_init_def resilience_init_def) blast

lemma normalize_snapshot_scope:
  "normalize_snapshot ex sy raw = Inr s \<Longrightarrow> os_exchange s = ex \<and> os_symbol s = sy"
  by (auto simp: normalize_snapshot_def result_simps)

lemma normalize_delta_scope: "normalize_delta ex sy raw = Inr d \<Longrightarrow> od_exchange d = ex \<and> od_symbol d = sy"
  by (auto simp: normalize_delta_def result_simps)

lemma bootstrap_snapshot_scope:
  "bootstrap_snapshot a sy r = Inr s \<Longrightarrow> os_exchange s = ia_exchange a \<and> os_symbol s = sy"
  by (auto simp: bootstrap_snapshot_def result_simps dest: normalize_snapshot_scope)

lemma poll_delta_scope:
  "poll_delta a sy src r r' = Inr d \<Longrightarrow> od_exchange d = ia_exchange a \<and> od_symbol d = sy"
  by (auto simp: poll_delta_def result_simps Let_def dest: normalize_delta_scope)

section \<open>Book and stream stay in step\<close>

text \<open>How a published delta relates the books before and after: an accepted websocket delta, or the
  reload of a whole snapshot.\<close>

definition in_step :: "string option \<Rightarrow> order_book_delta \<Rightarrow> sync_engine \<Rightarrow> sync_engine \<Rightarrow> bool" where
  "in_step source d se se' \<longleftrightarrow>
     source = Some ''websocket'' \<and> apply_delta d se = Inr (True, se')
     \<or> source = Some ''rest'' \<and> (\<exists>s. d = snapshot_to_delta s \<and> load_snapshot s se = Inr se')"

lemma fetch_rest_in_step:
  assumes "fetch_rest_snapshot_delta io reason w = (Inr d, w')" "mw_engine w = Some se"
  shows "\<exists>se'. mw_engine w' = Some se' \<and> in_step (mw_last_delta_source w') d se se'"
  using assms by (auto simp: fetch_rest_snapshot_delta_def load_into_def in_step_def result_simps split: sum.splits)

lemma apply_integrity_in_step:
  assumes "apply_integrity io d0 w = (Inr d, w')" "mw_engine w = Some se" "mw_gap_detector w"
    "mw_last_delta_source w = Some ''websocket''"
  shows "\<exists>se'. mw_engine w' = Some se' \<and> in_step (mw_last_delta_source w') d se se'"
proof (cases "apply_delta d0 se")
  case (Inl e)
  then show ?thesis using assms fetch_rest_in_step[of io _ w d w' se]
    by (auto simp: apply_integrity_def Let_def split: if_splits)
next
  case (Inr p)
  obtain accepted se1 where p: "p = (accepted, se1)" by (cases p)
  have same: "se1 = se" if "\<not> accepted" using apply_delta_refused[of d0 se se1] Inr p that by simp
  show ?thesis using assms Inr p same fetch_rest_in_step[of io _ w d w' se]
      fetch_rest_in_step[of io _ "w\<lparr>mw_engine := Some se\<rparr>" d w' se]
    by (auto simp: apply_integrity_def Let_def in_step_def split: if_splits)
qed

lemma note_disconnect_engine:
  "note_disconnect io w = (r, w') \<Longrightarrow> mw_engine w' = mw_engine w"
  by (auto simp: note_disconnect_def split: option.splits prod.splits sum.splits)

lemma poll_websocket_in_step:
  assumes "poll_websocket_delta io w b = (Inr d, w', b')" "mw_engine w = Some se" "mw_gap_detector w"
  shows "\<exists>se'. mw_engine w' = Some se' \<and> in_step (mw_last_delta_source w') d se se'"
proof (cases "cutover_to_rest io w")
  case True
  then show ?thesis using assms fetch_rest_in_step[of io _ w d w' se]
    by (auto simp: poll_websocket_delta_def split: prod.splits)
next
  case False
  show ?thesis
  proof (cases "poll_delta (mw_adapter w) (mw_symbol w) (Some ''websocket'') (io_rest_reply io) (io_ws_reply io)")
    case (Inl e)
    obtain r w1 where n: "note_disconnect io w = (r, w1)" by fastforce
    show ?thesis
      using assms False Inl n note_disconnect_engine[OF n] fetch_rest_in_step[of io _ w1 d w' se]
      by (auto simp: poll_websocket_delta_def split: prod.splits sum.splits)
  next
    case (Inr d0)
    then show ?thesis
      using assms False
        apply_integrity_in_step[of io d0 "w\<lparr>mw_last_delta_source := Some ''websocket'', mw_last_fallback_reason := None\<rparr>" d w' se]
      by (auto simp: poll_websocket_delta_def split: prod.splits)
  qed
qed

text \<open>A canonical order book message: a valid envelope around the delta.\<close>

definition canonical_delta :: "order_book_delta \<Rightarrow> pydict \<Rightarrow> bool" where
  "canonical_delta d env \<longleftrightarrow> envelope_ok (PDict env)
     \<and> dict_get env ''event_type'' = Some (PStr ''market.canonical.orderbook_delta'')
     \<and> dict_get env ''payload'' = Some (PDict (normalize_order_book_delta d))"

lemma publish_order_book_delta_Inr:
  assumes "publish_order_book_delta sn st d m b = Inr (env, b')"
  shows "canonical_delta d env"
    and "broker_ok b \<Longrightarrow> queue_contents q b' = queue_contents q b @ (if routed b ''market.canonical'' q then [env] else [])"
proof -
  obtain ps where p: "build_envelope sn st ''market.canonical.orderbook_delta'' m (normalize_order_book_delta d) (delta_key d) = Inr env"
    "broker_publish ''market.canonical'' (PDict env) b = Inr (ps, b')"
    using assms by (auto simp: publish_order_book_delta_def result_simps)
  from p(1) show "canonical_delta d env"
    by (auto simp: canonical_delta_def build_envelope_def Let_def result_simps validate_envelope_iff[symmetric])
  from p(2) show "broker_ok b \<Longrightarrow> queue_contents q b' = queue_contents q b @ (if routed b ''market.canonical'' q then [env] else [])"
    using broker_publish_returns[of b "''market.canonical''" env] by (simp add: returns_def)
qed

text \<open>What the statements after the delta leave alone\<close>

definition same_feed :: "'s market_worker \<Rightarrow> 's market_worker \<Rightarrow> bool" where
  "same_feed w w' \<longleftrightarrow> mw_engine w' = mw_engine w \<and> mw_last_delta_source w' = mw_last_delta_source w
     \<and> mw_adapter w' = mw_adapter w \<and> mw_symbol w' = mw_symbol w \<and> mw_mode w' = mw_mode w
     \<and> mw_bootstrapped w' = mw_bootstrapped w \<and> mw_integrity_enabled w' = mw_integrity_enabled w
     \<and> mw_gap_detector w' = mw_gap_detector w \<and> mw_resilience w' = mw_resilience w \<and> mw_bridge w' = mw_bridge w"

lemma same_feed_trans: "same_feed w w' \<Longrightarrow> same_feed w' w'' \<Longrightarrow> same_feed w w''"
  by (simp add: same_feed_def)

lemma same_feed_steps:
  "record_processed_delta io d w = Inr w' \<Longrightarrow> same_feed w w'"
  "store_envelope ops env w = (r, w') \<Longrightarrow> same_feed w w'"
  "poll_klines_if_due ops io w = (r, w') \<Longrightarrow> same_feed w w'"
  "same_feed w (w\<lparr>mw_last_envelope_summary := summary\<rparr>)"
  by (auto simp: same_feed_def record_processed_delta_def store_envelope_def poll_klines_if_due_def result_simps
      split: option.splits prod.splits sum.splits if_splits)

lemma publish_delta_Inr:
  assumes "publish_delta ops io d w b = (Inr env, w', b')"
  shows "same_feed w w'" "canonical_delta d env"
    "broker_ok b \<Longrightarrow> queue_contents q b' = queue_contents q b @ (if routed b ''market.canonical'' q then [env] else [])"
proof -
  obtain w1 summary w2 where s: "record_processed_delta io d w = Inr w1"
    "publish_order_book_delta (mw_service_name w1) (io_stamp io) d (mw_mode w1) b = Inr (env, b')"
    "store_envelope ops env (w1\<lparr>mw_last_envelope_summary := summary\<rparr>) = (Inr (), w2)"
    "poll_klines_if_due ops io w2 = (Inr (), w')"
    using assms by (auto simp: publish_delta_def split: sum.splits prod.splits)
  from same_feed_steps(1)[OF s(1)] same_feed_steps(4) same_feed_steps(2)[OF s(3)] same_feed_steps(3)[OF s(4)]
  show "same_feed w w'" by (blast intro: same_feed_trans)
  from publish_order_book_delta_Inr[OF s(2)] show "canonical_delta d env"
    "broker_ok b \<Longrightarrow> queue_contents q b' = queue_contents q b @ (if routed b ''market.canonical'' q then [env] else [])"
    by simp_all
qed

lemma market_run_once_Inr:
  "market_run_once ops io w b = (Inr env, w', b') \<longleftrightarrow> market_cycle ops io w b = (Inr env, w', b')"
  by (auto simp: market_run_once_def split: prod.splits sum.splits)

section \<open>A cycle survives the websocket\<close>

text \<open>The REST side answers with a snapshot the adapter understands.\<close>

definition rest_answers :: "'s market_worker \<Rightarrow> pydict result \<Rightarrow> bool" where
  "rest_answers w reply \<longleftrightarrow> returns (\<lambda>s. True) (bootstrap_snapshot (mw_adapter w) (mw_symbol w) reply)"

text \<open>What the notification bridge adds to a queue: the given messages, if there is a bridge and the queue
  is subscribed to its routing key.\<close>

definition bridged :: "notification_bridge option \<Rightarrow> broker \<Rightarrow> string \<Rightarrow> pydict list \<Rightarrow> pydict list" where
  "bridged bridge b q notes = (case bridge of
      None \<Rightarrow> []
    | Some br \<Rightarrow> if routed b (nb_routing_key br) q then notes else [])"

definition warning_notes :: "pydict list \<Rightarrow> bool" where
  "warning_notes notes \<longleftrightarrow> length notes \<le> 1
     \<and> (\<forall>n \<in> set notes. envelope_ok (PDict n) \<and> dict_get n ''event_type'' = Some (PStr ''notify.system.event''))"

definition notified :: "notification_bridge option \<Rightarrow> pydict list \<Rightarrow> broker \<Rightarrow> broker \<Rightarrow> bool" where
  "notified bridge notes b b' \<longleftrightarrow> broker_ok b' \<and> (\<forall>k q. routed b' k q = routed b k q) \<and> warning_notes notes
     \<and> (\<forall>q. queue_contents q b' = queue_contents q b @ bridged bridge b q notes)"

lemma notified_none: "broker_ok b \<Longrightarrow> notified bridge [] b b"
  by (simp add: notified_def warning_notes_def bridged_def split: option.split)

lemma health_event_notifies:
  assumes "health_event st sev e details w b = Inr b'" "broker_ok b"
  shows "\<exists>notes. notified (mw_bridge w) notes b b'"
proof (cases "mw_bridge w")
  case None
  then have "b' = b" using assms(1) by (simp add: health_event_def)
  then show ?thesis using notified_none[OF assms(2)] by blast
next
  case (Some bridge)
  then obtain source env ps where p: "env = notification_envelope bridge (hs_fresh_uuid st) (hs_now' st) source ''notify.system.event''"
    "validate_envelope (PDict env) = Inr ()" "broker_publish (nb_routing_key bridge) (PDict env) b = Inr (ps, b')"
    using assms(1)
    by (auto simp: health_event_def publish_system_health_event_def publish_from_source_def Let_def result_simps)
  have "dict_get env ''event_type'' = Some (PStr ''notify.system.event'')"
    by (simp add: p(1) notification_envelope_def Let_def)
  then have "notified (Some bridge) [env] b b'"
    using broker_publish_returns[OF assms(2), of "nb_routing_key bridge" env] p(2,3)
    by (simp add: returns_def notified_def warning_notes_def bridged_def validate_envelope_iff)
  then show ?thesis using Some by auto
qed

lemma note_disconnect_bridge: "note_disconnect io w = (r, w') \<Longrightarrow> mw_bridge w' = mw_bridge w"
  by (auto simp: note_disconnect_def split: option.splits prod.splits sum.splits)

text \<open>A poll sends at most one warning.\<close>

lemma poll_websocket_notifies:
  assumes "poll_websocket_delta io w b = (Inr d, w', b')" "broker_ok b"
  shows "\<exists>notes. notified (mw_bridge w) notes b b'"
proof (cases "b' = b")
  case True
  then show ?thesis using notified_none[OF assms(2)] by blast
next
  case False
  then obtain e w1 where n: "note_disconnect io w = (Inr (), w1)"
    "health_event (io_warning io) ''WARNING'' e [(''symbol'', PStr (mw_symbol w1)),
          (''error'', PStr (exc_str e)), (''fallback'', PStr ''rest'')] w1 b = Inr b'"
    using assms(1) by (auto simp: poll_websocket_delta_def split: if_splits prod.splits sum.splits)
  from health_event_notifies[OF n(2) assms(2)] show ?thesis by (simp add: note_disconnect_bridge[OF n(1)])
qed

text \<open>Same market, mode, invariant; the outcome of every path that falls back to REST.\<close>

definition continues :: "'s market_worker \<Rightarrow> 's market_worker \<Rightarrow> bool" where
  "continues w w' \<longleftrightarrow> mw_adapter w' = mw_adapter w \<and> mw_symbol w' = mw_symbol w \<and> mw_mode w' = mw_mode w
     \<and> mw_bootstrapped w' = mw_bootstrapped w \<and> mw_store w' = mw_store w
     \<and> mw_bridge w' = mw_bridge w \<and> (worker_ok w \<longrightarrow> worker_ok w')"

lemma fetch_rest_returns:
  assumes "worker_ok w" "rest_answers w (io_rest_reply io)"
  obtains s w' where "fetch_rest_snapshot_delta io reason w = (Inr (snapshot_to_delta s), w')" "continues w w'"
    "bootstrap_snapshot (mw_adapter w) (mw_symbol w) (io_rest_reply io) = Inr s"
proof -
  obtain s where s: "bootstrap_snapshot (mw_adapter w) (mw_symbol w) (io_rest_reply io) = Inr s"
    using assms(2) by (auto simp: rest_answers_def returns_iff)
  note scope = bootstrap_snapshot_scope[OF s]
  show ?thesis
  proof (cases "mw_engine w")
    case None
    then show ?thesis using s assms(1)
      by (intro that[OF _ _ s]) (auto simp: fetch_rest_snapshot_delta_def load_into_def continues_def worker_ok_def)
  next
    case (Some se)
    have "load_snapshot s se = Inr (se\<lparr>se_bids := snapshot_side (os_bids s), se_asks := snapshot_side (os_asks s),
               se_sequence := os_sequence s, se_initialized := True\<rparr>)"
      using assms(1) scope Some by (simp add: load_snapshot_Inr worker_ok_def)
    then show ?thesis using s assms(1) Some
      by (intro that[OF _ _ s]) (auto simp: fetch_rest_snapshot_delta_def load_into_def continues_def worker_ok_def)
  qed
qed


lemma health_event_returns:
  assumes "broker_ok b" "in_range (hs_now st)" "in_range (hs_now' st)"
  obtains b' where "health_event st sev e details w b = Inr b'"
proof (cases "mw_bridge w")
  case None
  then show ?thesis using that by (simp add: health_event_def)
next
  case (Some bridge)
  let ?p = "publish_system_health_event bridge (hs_fresh_uuid st) (hs_now st) (hs_now' st) (hs_trace_id st) (mw_mode w)
     ''system.exchange.connectivity_issue'' sev (class_name (exc_class e)) details b"
  have "returns (\<lambda>(env, b'). broker_ok b') ?p"
    unfolding publish_system_health_event_def Let_def
    by (rule returns_mono[OF publish_from_source_returns[OF assms(1,3) bridge_types(4)]])
      (auto simp: source_time_ok_def timestamp_ok_iso[OF assms(2)])
  then obtain env b' where "?p = Inr (env, b')" by (auto simp: returns_iff)
  then show ?thesis using that Some by (simp add: health_event_def)
qed

definition lags_ok :: "market_io \<Rightarrow> 's market_worker \<Rightarrow> bool" where
  "lags_ok io w \<longleftrightarrow>
     ensures (\<lambda>d. is_Inr (delta_lag io d))
       (poll_delta (mw_adapter w) (mw_symbol w) (Some ''websocket'') (io_rest_reply io) (io_ws_reply io))
     \<and> ensures (\<lambda>s. is_Inr (delta_lag io (snapshot_to_delta s)))
       (bootstrap_snapshot (mw_adapter w) (mw_symbol w) (io_rest_reply io))"

text \<open>A poll that comes back with a delta whose lag can be recorded, and a worker that goes on.\<close>

definition delivers :: "market_io \<Rightarrow> 's market_worker \<Rightarrow> order_book_delta result \<times> 's market_worker \<Rightarrow> bool" where
  "delivers io w out \<longleftrightarrow> returns (\<lambda>d. is_Inr (delta_lag io d)) (fst out) \<and> continues w (snd out)"

lemma fetch_rest_delivers:
  assumes "worker_ok w" "rest_answers w (io_rest_reply io)" "lags_ok io w"
  shows "delivers io w (fetch_rest_snapshot_delta io reason w)"
proof -
  obtain s w' where f: "fetch_rest_snapshot_delta io reason w = (Inr (snapshot_to_delta s), w')" "continues w w'"
    and s: "bootstrap_snapshot (mw_adapter w) (mw_symbol w) (io_rest_reply io) = Inr s"
    by (rule fetch_rest_returns[OF assms(1,2)])
  have "is_Inr (delta_lag io (snapshot_to_delta s))" using assms(3) s by (simp add: lags_ok_def ensures_def)
  then show ?thesis using f by (simp add: delivers_def returns_def)
qed

lemma continues_trans: "continues w w' \<Longrightarrow> continues w' w'' \<Longrightarrow> continues w w''"
  by (simp add: continues_def)

lemma delivers_after:
  assumes "continues w w1" "worker_ok w" "delivers io w1 out"
  shows "delivers io w out"
  using assms by (auto simp: delivers_def intro: continues_trans)

lemma feed_after: "continues w w1 \<Longrightarrow> worker_ok w \<Longrightarrow> rest_answers w r \<Longrightarrow> lags_ok io w \<Longrightarrow>
    worker_ok w1 \<and> rest_answers w1 r \<and> lags_ok io w1"
  by (simp add: continues_def rest_answers_def lags_ok_def)

lemma apply_integrity_delivers:
  assumes ok: "worker_ok w" "rest_answers w (io_rest_reply io)" "lags_ok io w" "mw_engine w = Some se" "mw_bootstrapped w"
    and d0: "od_exchange d0 = ia_exchange (mw_adapter w)" "od_symbol d0 = mw_symbol w" "is_Inr (delta_lag io d0)"
  shows "delivers io w (apply_integrity io d0 w)"
proof -
  note fetch = fetch_rest_delivers[OF ok(1-3)]
  let ?g = "gap_evaluate (se_sequence se) (od_sequence_start d0) (od_sequence_end d0)"
  have se: "se_initialized se" "od_exchange d0 = se_exchange se" "od_symbol d0 = se_symbol se" "mw_gap_detector w"
    using ok d0 by (auto simp: worker_ok_def)
  have act: "gr_action ?g \<notin> {''ignore_stale'', ''resync''} \<Longrightarrow> \<exists>se'. apply_delta d0 se = Inr (True, se')
      \<and> se_exchange se' = se_exchange se \<and> se_symbol se' = se_symbol se \<and> se_initialized se'"
    using se unfolding gap_evaluate_def apply_delta_def validate_scope_def apply_sides_def
    by (auto simp: Let_def split: option.splits if_splits)
  show ?thesis
  proof (cases "gr_action ?g \<in> {''ignore_stale'', ''resync''}")
    case True
    then show ?thesis using ok(4) se(4) fetch by (auto simp: apply_integrity_def Let_def)
  next
    case False
    then obtain se' where a: "apply_delta d0 se = Inr (True, se')" "se_exchange se' = se_exchange se"
      "se_symbol se' = se_symbol se" "se_initialized se'" using act by blast
    have "continues w (w\<lparr>mw_engine := Some se', mw_resilience :=
        map_option (record_reconnect_success (io_mono_reconnect io)) (mw_resilience w)\<rparr>)"
      using ok(1,4) a by (auto simp: continues_def worker_ok_def record_reconnect_success_def mark_heartbeat_def)
    then show ?thesis using False a ok(4) se(4) d0(3)
      by (simp add: apply_integrity_def Let_def delivers_def returns_def is_Inr_def)
  qed
qed


definition attempts_left :: "'s market_worker \<Rightarrow> bool" where
  "attempts_left w \<longleftrightarrow> (\<forall>rm. mw_resilience w = Some rm \<longrightarrow> rm_disconnect_attempts rm < 1024)"

lemma note_disconnect_returns:
  assumes "worker_ok w" "attempts_left w"
  obtains w1 where "note_disconnect io w = (Inr (), w1)" "continues w w1"
proof (cases "mw_resilience w")
  case None
  then show ?thesis using that assms by (simp add: note_disconnect_def continues_def worker_ok_def)
next
  case (Some rm)
  obtain s where c: "rm_config rm = default_backoff\<lparr>bc_stale_after_seconds := s\<rparr>"
    using assms(1) Some by (auto simp: worker_ok_def)
  obtain delay where "next_backoff_seconds (io_random io) (rm_disconnect_attempts rm + 1) (rm_config rm) = Inr delay"
    using assms(2) Some by (simp add: c next_backoff_seconds_def raw_backoff_default attempts_left_def Let_def)
  then have r: "record_disconnect (io_random io) rm =
      (Inr delay, rm\<lparr>rm_disconnect_attempts := rm_disconnect_attempts rm + 1\<rparr>)"
    by (simp add: record_disconnect_def Let_def)
  show ?thesis
    by (rule that, simp add: note_disconnect_def Some r)
      (use assms(1) Some c in \<open>auto simp: continues_def worker_ok_def\<close>)
qed

lemma poll_websocket_delivers:
  assumes ok: "worker_ok w" "rest_answers w (io_rest_reply io)" "lags_ok io w" "mw_engine w = Some se"
      "mw_bootstrapped w" "attempts_left w"
    and b: "broker_ok b" "in_range (hs_now (io_warning io))" "in_range (hs_now' (io_warning io))"
  obtains r w' b' where "poll_websocket_delta io w b = (r, w', b')" "delivers io w (r, w')"
proof -
  let ?poll = "poll_delta (mw_adapter w) (mw_symbol w) (Some ''websocket'') (io_rest_reply io) (io_ws_reply io)"
  show ?thesis
  proof (cases "cutover_to_rest io w")
    case True
    obtain r w' where f: "fetch_rest_snapshot_delta io ''stream_stale_cutover'' w = (r, w')" by fastforce
    show ?thesis
      by (rule that[of r w' b]) (use True f fetch_rest_delivers[OF ok(1-3), of "''stream_stale_cutover''"] in
        \<open>simp_all add: poll_websocket_delta_def\<close>)
  next
    case False
    show ?thesis
    proof (cases ?poll)
      case (Inl e)
      obtain w1 where n: "note_disconnect io w = (Inr (), w1)" "continues w w1"
        by (rule note_disconnect_returns[OF ok(1,6)])
      obtain b1 where h: "health_event (io_warning io) ''WARNING'' e [(''symbol'', PStr (mw_symbol w1)),
          (''error'', PStr (exc_str e)), (''fallback'', PStr ''rest'')] w1 b = Inr b1"
        by (rule health_event_returns[OF b])
      obtain r w2 where f: "fetch_rest_snapshot_delta io ''websocket_error_fallback'' w1 = (r, w2)" by fastforce
      have "delivers io w1 (r, w2)" using fetch_rest_delivers[of w1 io] feed_after[OF n(2) ok(1-3)] f by metis
      then have "delivers io w (r, w2)" by (rule delivers_after[OF n(2) ok(1)])
      then show ?thesis using False Inl n h f by (intro that[of r w2 b1]) (simp_all add: poll_websocket_delta_def)
    next
      case (Inr d0)
      let ?w1 = "w\<lparr>mw_last_delta_source := Some ''websocket'', mw_last_fallback_reason := None\<rparr>"
      have c: "continues w ?w1" by (simp add: continues_def worker_ok_def)
      have d0: "od_exchange d0 = ia_exchange (mw_adapter ?w1)" "od_symbol d0 = mw_symbol ?w1" "is_Inr (delta_lag io d0)"
        using poll_delta_scope[OF Inr] ok(3) Inr by (simp_all add: lags_ok_def ensures_def)
      obtain r w2 where f: "apply_integrity io d0 ?w1 = (r, w2)" by fastforce
      have "delivers io ?w1 (r, w2)"
        using apply_integrity_delivers[of ?w1 io se d0] feed_after[OF c ok(1-3)] ok(4,5) d0 f by simp
      then have "delivers io w (r, w2)" by (rule delivers_after[OF c ok(1)])
      then show ?thesis
        using False Inr f by (intro that[of r w2 b]) (simp_all add: poll_websocket_delta_def)
    qed
  qed
qed

lemma best_price_levels: "is_Inr (best_price (PList (map level_dict ls)))"
  by (cases ls) (simp_all add: best_price_def level_dict_def is_Inr_def py_or_def pget_def dict_get_default_def)

lemma market_envelope_summary_returns:
  assumes "dict_get env ''payload'' = Some (PDict (normalize_order_book_delta d))"
  obtains summary where "market_envelope_summary env = Inr summary"
proof -
  obtain x y where "best_price (PList (map level_dict (od_bids d))) = Inr x"
    "best_price (PList (map level_dict (od_asks d))) = Inr y"
    using best_price_levels unfolding is_Inr_def by (metis sum.case_eq_if sum.collapse(2))
  then show ?thesis using assms that
    by (simp add: market_envelope_summary_def pget_def dict_get_default_def normalize_order_book_delta_def)
qed


lemma worker_ok_same_feed: "same_feed w w' \<Longrightarrow> worker_ok w \<Longrightarrow> worker_ok w'"
  unfolding same_feed_def worker_ok_def by metis

text \<open>The state store, when there is one, and the candle client answer every call.\<close>

definition store_answers :: "'s store_ops \<Rightarrow> market_io \<Rightarrow> 's option \<Rightarrow> bool" where
  "store_answers ops io store \<longleftrightarrow> store = None
     \<or> (\<forall>env s. \<exists>s'. so_persist_envelope ops env s = (Inr (), s')) \<and> (\<forall>interval. \<exists>bars. io_klines io interval = Inr bars)
       \<and> (case so_persist_klines ops of None \<Rightarrow> True
          | Some persist \<Rightarrow> (\<forall>ex sy interval bars s. \<exists>s'. persist ex sy interval bars s = (Inr (), s')))"

lemma store_klines_returns:
  assumes "\<And>i. \<exists>bars. fetch i = Inr bars" "\<And>i bars s. \<exists>s'. persist i bars s = (Inr (), s')"
  shows "\<exists>s'. store_klines fetch persist is s = (Inr (), s')"
proof (induction "is" arbitrary: s)
  case (Cons i "is")
  obtain bars s1 where "fetch i = Inr bars" "persist i bars s = (Inr (), s1)" using assms by blast
  with Cons[of s1] show ?case by simp
qed simp

lemma poll_klines_returns:
  assumes "store_answers ops io (mw_store w)"
  shows "\<exists>w'. poll_klines_if_due ops io w = (Inr (), w')"
proof (cases "\<exists>s persist. mw_store w = Some s \<and> so_persist_klines ops = Some persist")
  case True
  then obtain s persist where s: "mw_store w = Some s" "so_persist_klines ops = Some persist" by blast
  have "\<exists>bars. io_klines io i = Inr bars" "\<exists>s'. persist ex sy i bars s = (Inr (), s')" for i ex sy bars s
    using assms s by (simp_all add: store_answers_def)
  from store_klines_returns[where fetch = "io_klines io" and persist = "persist (ia_exchange (mw_adapter w)) (mw_symbol w)", OF this]
  obtain s' where
    "store_klines (io_klines io) (persist (ia_exchange (mw_adapter w)) (mw_symbol w)) (mw_kline_intervals w) s = (Inr (), s')"
    by blast
  then show ?thesis by (simp add: poll_klines_if_due_def s)
next
  case False
  then show ?thesis by (auto simp: poll_klines_if_due_def split: option.splits)
qed

lemma store_envelope_returns:
  assumes "store_answers ops io (mw_store w)"
  obtains w' where "store_envelope ops env w = (Inr (), w')" "store_answers ops io (mw_store w')"
proof (cases "mw_store w")
  case None
  then show ?thesis using that assms by (simp add: store_envelope_def)
next
  case (Some s)
  have "\<forall>env s. \<exists>s'. so_persist_envelope ops env s = (Inr (), s')" using assms Some by (simp add: store_answers_def)
  then obtain s' where "so_persist_envelope ops env s = (Inr (), s')" by blast
  then show ?thesis using that[of "w\<lparr>mw_store := Some s'\<rparr>"] assms Some
    by (simp add: store_envelope_def store_answers_def)
qed

lemma publish_delta_returns:
  assumes "is_Inr (delta_lag io d)" "broker_ok b" "stamp_ok (io_stamp io)" "mw_mode w \<in> {''MOCK'', ''REAL''}"
    "store_answers ops io (mw_store w)"
  obtains env w' b' where "publish_delta ops io d w b = (Inr env, w', b')"
proof -
  obtain w1 where w1: "record_processed_delta io d w = Inr w1" "mw_store w1 = mw_store w"
    using assms(1) by (cases "mw_metrics w"; cases "delta_lag io d") (auto simp: record_processed_delta_def is_Inr_def)
  have m: "mw_mode w1 \<in> {''MOCK'', ''REAL''}" using same_feed_steps(1)[OF w1(1)] assms(4) by (simp add: same_feed_def)
  obtain env b1 where p: "publish_order_book_delta (mw_service_name w1) (io_stamp io) d (mw_mode w1) b = Inr (env, b1)"
    using publish_order_book_delta_returns[OF assms(2,3) m, of d "mw_service_name w1"]
    by (force simp only: returns_iff split_paired_Ex prod.case)
  obtain summary where s: "market_envelope_summary env = Inr summary"
    using market_envelope_summary_returns publish_order_book_delta_Inr(1)[OF p] by (auto simp: canonical_delta_def)
  obtain w2 where w2: "store_envelope ops env (w1\<lparr>mw_last_envelope_summary := summary\<rparr>) = (Inr (), w2)"
    "store_answers ops io (mw_store w2)"
    by (rule store_envelope_returns[of ops io "w1\<lparr>mw_last_envelope_summary := summary\<rparr>"]) (use assms(5) w1(2) in simp_all)
  obtain w3 where "poll_klines_if_due ops io w2 = (Inr (), w3)" using poll_klines_returns[OF w2(2)] ..
  then show ?thesis using that w1 p s w2 by (simp add: publish_delta_def)
qed

lemma bootstrap_worker_returns:
  assumes "worker_ok w" "mw_bootstrapped w \<or> rest_answers w (io_bootstrap_reply io)" "mw_engine w = Some se"
  obtains w1 se1 where "bootstrap_worker io w = Inr w1" "mw_bootstrapped w1" "worker_ok w1" "mw_engine w1 = Some se1"
    "mw_adapter w1 = mw_adapter w" "mw_symbol w1 = mw_symbol w" "mw_mode w1 = mw_mode w" "mw_store w1 = mw_store w"
    "mw_bridge w1 = mw_bridge w" "attempts_left w \<longrightarrow> attempts_left w1"
proof (cases "mw_bootstrapped w")
  case True
  then show ?thesis using assms by (intro that[of w se]) (simp_all add: bootstrap_worker_def)
next
  case False
  then obtain s where s: "bootstrap_snapshot (mw_adapter w) (mw_symbol w) (io_bootstrap_reply io) = Inr s"
    using assms(2) by (auto simp: rest_answers_def returns_iff)
  have l: "load_snapshot s se = Inr (se\<lparr>se_bids := snapshot_side (os_bids s), se_asks := snapshot_side (os_asks s),
               se_sequence := os_sequence s, se_initialized := True\<rparr>)" (is "_ = Inr ?se1")
    using assms(1,3) bootstrap_snapshot_scope[OF s] by (simp add: load_snapshot_Inr worker_ok_def)
  show ?thesis
    by (rule that[of "w\<lparr>mw_engine := Some ?se1, mw_resilience := map_option (mark_heartbeat (io_mono_bootstrap io))
        (mw_resilience w), mw_bootstrapped := True\<rparr>" ?se1])
      (use False s l assms(1,3) in \<open>auto simp: bootstrap_worker_def load_into_def worker_ok_def attempts_left_def
          mark_heartbeat_def\<close>)
qed

text \<open>What a cycle did to the queues: at most one warning through the bridge, then the message.\<close>

definition published :: "notification_bridge option \<Rightarrow> pydict \<Rightarrow> broker \<Rightarrow> broker \<Rightarrow> bool" where
  "published bridge env b b' \<longleftrightarrow> (\<exists>notes. warning_notes notes \<and> (\<forall>q. queue_contents q b' =
     queue_contents q b @ bridged bridge b q notes @ (if routed b ''market.canonical'' q then [env] else [])))"

lemma poll_and_publish:
  assumes "poll_websocket_delta io w b = (Inr d, w2, b2)" "publish_delta ops io d w2 b2 = (Inr env, w', b')" "broker_ok b"
  shows "published (mw_bridge w) env b b'"
proof -
  obtain ns where n: "notified (mw_bridge w) ns b b2" using poll_websocket_notifies[OF assms(1,3)] by blast
  then have "broker_ok b2" "routed b2 k q = routed b k q" "warning_notes ns"
    "queue_contents q b2 = queue_contents q b @ bridged (mw_bridge w) b q ns" for k q
    by (auto simp: notified_def)
  then show ?thesis using publish_delta_Inr(3)[OF assms(2)] unfolding published_def
    by (intro exI[of _ ns]) simp
qed

lemma market_cycle_returns:
  assumes "worker_ok w" and "mw_integrity_enabled w" and "store_answers ops io (mw_store w)"
    and "mw_mode w \<in> {''MOCK'', ''REAL''}" and "broker_ok b" and "stamp_ok (io_stamp io)"
    and "in_range (hs_now (io_warning io))" and "in_range (hs_now' (io_warning io))"
    and "mw_bootstrapped w \<or> rest_answers w (io_bootstrap_reply io)" and "rest_answers w (io_rest_reply io)"
    and "lags_ok io w" and "attempts_left w"
  shows "\<exists>d env w' b'. market_run_once ops io w b = (Inr env, w', b') \<and> worker_ok w' \<and> mw_bootstrapped w'
      \<and> canonical_delta d env \<and> published (mw_bridge w) env b b'"
proof -
  obtain se where se: "mw_engine w = Some se" using assms(1,2) by (auto simp: worker_ok_def)
  obtain w1 se1 where w1: "bootstrap_worker io w = Inr w1" "mw_bootstrapped w1" "worker_ok w1" "mw_engine w1 = Some se1"
    "mw_adapter w1 = mw_adapter w" "mw_symbol w1 = mw_symbol w" "mw_mode w1 = mw_mode w" "mw_store w1 = mw_store w"
    "mw_bridge w1 = mw_bridge w" "attempts_left w \<longrightarrow> attempts_left w1"
    by (rule bootstrap_worker_returns[OF assms(1,9) se])
  have a: "rest_answers w1 (io_rest_reply io)" "lags_ok io w1" "attempts_left w1"
    using assms(10-12) w1 by (simp_all add: rest_answers_def lags_ok_def)
  obtain r w2 b2 where p: "poll_websocket_delta io w1 b = (r, w2, b2)" "delivers io w1 (r, w2)"
    by (rule poll_websocket_delivers[OF w1(3) a(1,2) w1(4,2) a(3) assms(5,7,8)])
  obtain d where d: "r = Inr d" "is_Inr (delta_lag io d)" and c: "continues w1 w2"
    using p(2) by (auto simp: delivers_def returns_iff)
  have w2: "mw_mode w2 \<in> {''MOCK'', ''REAL''}" "store_answers ops io (mw_store w2)" "worker_ok w2" "mw_bootstrapped w2"
    using c w1 assms(3,4) by (simp_all add: continues_def)
  have b2: "broker_ok b2"
    using poll_websocket_notifies[OF p(1)[unfolded d(1)] assms(5)] by (auto simp: notified_def)
  obtain env w' b' where f: "publish_delta ops io d w2 b2 = (Inr env, w', b')"
    by (rule publish_delta_returns[OF d(2) b2 assms(6) w2(1,2)])
  have i: "mw_integrity_enabled w1" using w1(3,4) by (simp add: worker_ok_def)
  have "market_run_once ops io w b = (Inr env, w', b')"
    unfolding market_run_once_Inr market_cycle_def using w1(1) p(1) d(1) f(1) i by (simp add: next_delta_def)
  moreover have "worker_ok w'" "mw_bootstrapped w'"
    using publish_delta_Inr(1)[OF f(1)] worker_ok_same_feed w2(3,4) by (auto simp: same_feed_def)
  moreover have "published (mw_bridge w) env b b'"
    using poll_and_publish[OF p(1)[unfolded d(1)] f assms(5)] w1(9) by simp
  ultimately show ?thesis using publish_delta_Inr(2)[OF f] by blast
qed

text \<open>A worker on a websocket that times out, with a REST side that answers.\<close>

definition sample_worker :: "unit market_worker" where
  "sample_worker = market_worker_init \<lparr>ia_exchange = ''binance'', ia_delta_source = ''websocket''\<rparr> ''market_ingestion''
     ''BTC/USDT'' ''MOCK'' None None False [] (Fin 60) 200 (Fin 15) (Fin 5)"

definition sample_book :: pydict where
  "sample_book = [(''bids'', PList [PList [PInt 10, PInt 1]]), (''asks'', PList [PList [PInt 11, PInt 2]]), (''nonce'', PInt 7)]"

definition sample_io :: market_io where
  "sample_io = \<lparr>io_bootstrap_reply = Inr sample_book, io_rest_reply = Inr sample_book,
     io_ws_reply = Inl (Exc TimeoutError ''no message''), io_klines = (\<lambda>_. Inr []), io_random = Fin 0,
     io_mono_bootstrap = Fin 100, io_mono_poll = Fin 100, io_mono_disconnect = Fin 100, io_mono_reconnect = Fin 100,
     io_mono_resync = Fin 100, io_mono_kline = Fin 100, io_time_disconnect = Fin 0, io_time_resync = Fin 0,
     io_time_lag = Fin 0, io_time_delta = Fin 0,
     io_stamp = \<lparr>st_trace_id = ''0af76519-16cd-43dd-8448-eb211c80319c'',
       st_decision_id = ''0af76519-16cd-43dd-8448-eb211c80319c'', st_now = 0\<rparr>,
     io_warning = \<lparr>hs_trace_id = ''t'', hs_fresh_uuid = ''u'', hs_now = 0, hs_now' = 0\<rparr>,
     io_failure = \<lparr>hs_trace_id = ''t'', hs_fresh_uuid = ''u'', hs_now = 0, hs_now' = 0\<rparr>\<rparr>"

definition market_broker :: broker where
  "market_broker = \<lparr>bk_queues = [(''market.canonical'', [])], bk_bindings = []\<rparr>"

lemma sample_io_replies [simp]:
  "io_bootstrap_reply sample_io = Inr sample_book" "io_rest_reply sample_io = Inr sample_book"
  "io_ws_reply sample_io = Inl (Exc TimeoutError ''no message'')"
  by (simp_all add: sample_io_def)

lemma sample_book_snapshot:
  "normalize_snapshot ex sy sample_book = Inr \<lparr>os_exchange = ex, os_symbol = sy, os_sequence = Some 7,
     os_timestamp_ms = None, os_bids = [\<lparr>ol_price = Fin 10, ol_amount = Fin 1\<rparr>],
     os_asks = [\<lparr>ol_price = Fin 11, ol_amount = Fin 2\<rparr>]\<rparr>"
proof -
  have "parse_levels [PList [PInt 10, PInt 1]] ''bid'' False = Inr [\<lparr>ol_price = Fin 10, ol_amount = Fin 1\<rparr>]"
    "parse_levels [PList [PInt 11, PInt 2]] ''ask'' False = Inr [\<lparr>ol_price = Fin 11, ol_amount = Fin 2\<rparr>]"
    by code_simp+
  then show ?thesis
    by (simp add: normalize_snapshot_def side_lists_def raw_get_def raw_or_def pget_def dict_get_default_def
        sample_book_def py_or_def parse_optional_int_def)
qed

text \<open>The hypotheses of a cycle hold for every worker on this market with back-off attempts left.\<close>

lemma sample_feed:
  assumes "mw_adapter w = mw_adapter sample_worker"
  shows "rest_answers w (io_rest_reply sample_io)" "rest_answers w (io_bootstrap_reply sample_io)" "lags_ok sample_io w"
proof -
  show "rest_answers w (io_rest_reply sample_io)" "rest_answers w (io_bootstrap_reply sample_io)"
    by (simp_all add: rest_answers_def bootstrap_snapshot_def sample_book_snapshot returns_def)
  have "normalize_delta_source ''websocket'' = Inr ''websocket''" by code_simp
  then show "lags_ok sample_io w"
    by (simp add: lags_ok_def poll_delta_def bootstrap_snapshot_def sample_book_snapshot ensures_def
        snapshot_to_delta_def delta_lag_def is_Inr_def)
qed

lemma sample_worker_ok: "worker_ok sample_worker" "attempts_left sample_worker"
  unfolding sample_worker_def by (rule worker_ok_init)
    (simp add: attempts_left_def market_worker_init_def resilience_init_def Let_def)

lemma source_is_websocket_name: "source_is_websocket ''websocket''"
  by code_simp

lemma sample_worker_market: "ia_exchange (mw_adapter sample_worker) = ''binance''" "mw_symbol sample_worker = ''BTC/USDT''"
  "mw_gap_detector sample_worker"
  by (simp_all add: sample_worker_def market_worker_init_def Let_def source_is_websocket_name)

lemma sample_worker_parts: "mw_integrity_enabled sample_worker" "mw_store sample_worker = None"
  "mw_mode sample_worker \<in> {''MOCK'', ''REAL''}" "broker_ok market_broker" "stamp_ok (io_stamp sample_io)"
  "in_range (hs_now (io_warning sample_io))" "in_range (hs_now' (io_warning sample_io))"
proof -
  show "mw_integrity_enabled sample_worker" "mw_store sample_worker = None" "mw_mode sample_worker \<in> {''MOCK'', ''REAL''}"
    by (simp_all add: sample_worker_def market_worker_init_def Let_def source_is_websocket_name)
qed code_simp+

definition sample_engine :: sync_engine where
  "sample_engine = (sync_engine_init ''binance'' ''BTC/USDT'')\<lparr>se_initialized := True\<rparr>"

section \<open>Properties\<close>

text \<open>C16: While the REST side and the state store (if there is one) answer, clock readings are in the printable
  range and the lag of a message fits a float, a cycle of a websocket worker in MOCK or REAL mode
  succeeds whatever the websocket does (a reply, an error, a malformed, stale or skipping delta), up to
  1024 failures in a row. It returns one valid order book envelope, and the broker changes by exactly
  this: every queue subscribed to canonical market messages gets that envelope once, preceded in
  the queues of the notification bridge by at most one system notification.\<close>

theorem market_cycle_survives_websocket:
  assumes "worker_ok w" and "mw_integrity_enabled w" and "store_answers ops io (mw_store w)"
    and "mw_mode w \<in> {''MOCK'', ''REAL''}" and "broker_ok b" and "stamp_ok (io_stamp io)"
    and "in_range (hs_now (io_warning io))" and "in_range (hs_now' (io_warning io))"
    and "mw_bootstrapped w \<or> rest_answers w (io_bootstrap_reply io)" and "rest_answers w (io_rest_reply io)"
    and "lags_ok io w" and "attempts_left w"
  shows "\<exists>d env w' b' notes. market_run_once ops io w b = (Inr env, w', b') \<and> worker_ok w' \<and> mw_bootstrapped w'
      \<and> envelope_ok (PDict env)
      \<and> dict_get env ''event_type'' = Some (PStr ''market.canonical.orderbook_delta'')
      \<and> dict_get env ''payload'' = Some (PDict (normalize_order_book_delta d))
      \<and> length notes \<le> 1
      \<and> (\<forall>n \<in> set notes. envelope_ok (PDict n) \<and> dict_get n ''event_type'' = Some (PStr ''notify.system.event''))
      \<and> (\<forall>q. queue_contents q b' = queue_contents q b @ bridged (mw_bridge w) b q notes
            @ (if routed b ''market.canonical'' q then [env] else []))"
  using market_cycle_returns[OF assms] unfolding canonical_delta_def published_def warning_notes_def by blast

theorem market_cycle_survives_websocket_witness:
  "\<exists>env w' b'. market_run_once \<lparr>so_persist_envelope = (\<lambda>_ s. (Inr (), s)), so_persist_klines = None\<rparr>
      sample_io sample_worker market_broker = (Inr env, w', b') \<and> envelope_ok (PDict env)
    \<and> queue_contents ''market.canonical'' b' = [env]"
proof -
  let ?ops = "\<lparr>so_persist_envelope = (\<lambda>_ s. (Inr (), s)), so_persist_klines = None\<rparr> :: unit store_ops"
  have "store_answers ?ops sample_io (mw_store sample_worker)" using sample_worker_parts(2) by (simp add: store_answers_def)
  from market_cycle_survives_websocket[OF sample_worker_ok(1) sample_worker_parts(1) this sample_worker_parts(3-7) disjI2
      sample_feed(1,3) sample_worker_ok(2), OF sample_feed(2)]
  obtain env w' b' ns where "market_run_once ?ops sample_io sample_worker market_broker = (Inr env, w', b')"
    "envelope_ok (PDict env)" "queue_contents ''market.canonical'' b' = queue_contents ''market.canonical'' market_broker
       @ bridged (mw_bridge sample_worker) market_broker ''market.canonical'' ns
       @ (if routed market_broker ''market.canonical'' ''market.canonical'' then [env] else [])" by blast
  moreover have "mw_bridge sample_worker = None" by (simp add: sample_worker_def market_worker_init_def Let_def)
  moreover have "queue_contents ''market.canonical'' market_broker = []" "routed market_broker ''market.canonical'' ''market.canonical''"
    by code_simp+
  ultimately show ?thesis by (auto simp: bridged_def)
qed

text \<open>C17: Book and stream stay in step. When a cycle of a started websocket worker returns an envelope,
  every queue subscribed to canonical market messages has got exactly this envelope (after at most one
  system notification), and it carries either a websocket delta that the book accepted as the
  next one, or the whole snapshot the book was reloaded from.\<close>

theorem market_stream_follows_book:
  assumes "worker_ok w" and "mw_bootstrapped w" and "mw_engine w = Some se" and "broker_ok b"
    and "market_run_once ops io w b = (Inr env, w', b')"
  shows "(\<exists>d se'. dict_get env ''payload'' = Some (PDict (normalize_order_book_delta d)) \<and> envelope_ok (PDict env)
      \<and> mw_engine w' = Some se' \<and> in_step (mw_last_delta_source w') d se se')
    \<and> (\<exists>notes. length notes \<le> 1
      \<and> (\<forall>n \<in> set notes. envelope_ok (PDict n) \<and> dict_get n ''event_type'' = Some (PStr ''notify.system.event''))
      \<and> (\<forall>q. queue_contents q b' = queue_contents q b @ bridged (mw_bridge w) b q notes
            @ (if routed b ''market.canonical'' q then [env] else [])))"
proof -
  have i: "mw_integrity_enabled w" "mw_gap_detector w" using assms(1,3) by (auto simp: worker_ok_def)
  obtain d w2 b2 where s: "poll_websocket_delta io w b = (Inr d, w2, b2)" "publish_delta ops io d w2 b2 = (Inr env, w', b')"
    using assms(2,5) i unfolding market_run_once_Inr
    by (auto simp: market_cycle_def bootstrap_worker_def next_delta_def split: prod.splits sum.splits)
  have "published (mw_bridge w) env b b'" by (rule poll_and_publish[OF s assms(4)])
  moreover have "\<exists>d se'. dict_get env ''payload'' = Some (PDict (normalize_order_book_delta d)) \<and> envelope_ok (PDict env)
      \<and> mw_engine w' = Some se' \<and> in_step (mw_last_delta_source w') d se se'"
    using poll_websocket_in_step[OF s(1) assms(3) i(2)] publish_delta_Inr(1,2)[OF s(2)]
    by (auto simp: same_feed_def canonical_delta_def)
  ultimately show ?thesis unfolding published_def warning_notes_def by blast
qed

theorem market_stream_follows_book_witness:
  "\<exists>d se' env w' b'. market_run_once \<lparr>so_persist_envelope = (\<lambda>_ s. (Inr (), s)), so_persist_klines = None\<rparr>
        sample_io (sample_worker\<lparr>mw_bootstrapped := True, mw_engine := Some sample_engine\<rparr>) market_broker = (Inr env, w', b')
      \<and> dict_get env ''payload'' = Some (PDict (normalize_order_book_delta d))
      \<and> mw_engine w' = Some se' \<and> in_step (mw_last_delta_source w') d sample_engine se'"
proof -
  let ?w = "sample_worker\<lparr>mw_bootstrapped := True, mw_engine := Some sample_engine\<rparr>"
  let ?ops = "\<lparr>so_persist_envelope = (\<lambda>_ s. (Inr (), s)), so_persist_klines = None\<rparr> :: unit store_ops"
  have e: "mw_integrity_enabled ?w" "mw_gap_detector sample_worker" "se_initialized sample_engine"
    "se_exchange sample_engine = ia_exchange (mw_adapter sample_worker)" "se_symbol sample_engine = mw_symbol sample_worker"
    using sample_worker_parts(1) by (simp_all add: sample_worker_market sample_engine_def sync_engine_init_def)
  have ok: "worker_ok ?w" "attempts_left ?w" "store_answers ?ops sample_io (mw_store ?w)"
    using sample_worker_ok e sample_worker_parts(2) by (auto simp: worker_ok_def attempts_left_def store_answers_def)
  have "\<exists>env w' b'. market_run_once ?ops sample_io ?w market_broker = (Inr env, w', b')"
    using market_cycle_returns[OF ok(1) e(1) ok(3) _ sample_worker_parts(4-7) disjI1 sample_feed(1,3) ok(2)]
      sample_worker_parts(3) by auto
  then obtain env w' b' where r: "market_run_once ?ops sample_io ?w market_broker = (Inr env, w', b')" by blast
  show ?thesis using market_stream_follows_book[OF ok(1) _ _ sample_worker_parts(4) r, of sample_engine] r by auto
qed

end
