(* ===== verification/Agent_Decision.thy ===== *)
theory Agent_Decision
  imports Py_Convert Py_Decimal
begin

text \<open>
  The agents of a trading decision: the data of \<open>services/agent_orchestrator/contracts.py\<close>, the market
  context (\<open>market_context_agent.py\<close>), the planner (\<open>planner_agent.py\<close>), the risk agent
  (\<open>risk_agent.py\<close>), the execution decision (\<open>execution_decision_agent.py\<close>) and the guardrails
  (\<open>guardrail_validation.py\<close>). The context dictionary has the keys that the context agent writes: it
  is a record; a key that the agent never writes has its default. The lemmas show that the agents'
  proposals fit their actions, that an order no agent approved is never proposed, and what the
  guardrails let through.
\<close>

section \<open>Data\<close>

record strategy_config =
  sc_strategy_id :: string
  sc_symbol :: string
  sc_mode :: string
  sc_order_size :: pyfloat
  sc_planner_buy_threshold :: pyfloat
  sc_planner_sell_threshold :: pyfloat
  sc_risk_max_notional_usd :: pyfloat
  sc_risk_max_position_size :: pyfloat
  sc_risk_max_drawdown_pct :: pyfloat
  sc_risk_min_confidence :: pyfloat
  sc_max_leverage :: pyfloat
  sc_allowed_actions :: "string list"

record planner_decision =
  pl_action :: string
  pl_confidence :: pyfloat
  pl_target_quantity :: pyfloat
  pl_rationale :: "string list"
  pl_metrics :: "(string \<times> pyfloat) list"

record risk_signal =
  rs_name :: string
  rs_passed :: bool
  rs_value :: pyfloat
  rs_limit :: pyfloat
  rs_message :: string

record risk_assessment =
  ra_approved :: bool
  ra_approved_quantity :: pyfloat
  ra_signals :: "risk_signal list"
  ra_blocked_by :: "string list"
  ra_risk_score :: pyfloat
  ra_rationale :: "string list"

record execution_decision =
  xd_action :: string
  xd_quantity :: pyfloat
  xd_confidence :: pyfloat
  xd_rationale :: "string list"
  xd_constraints :: pydict

text \<open>A detail of a violation: text, a list of texts, a truth value, a float or a \<open>Decimal\<close>\<close>

datatype detail = DText string | DTexts "string list" | DFlag bool | DFloat pyfloat | DDecimal xdec

record guardrail_violation =
  gv_code :: string
  gv_message :: string
  gv_details :: "(string \<times> detail) list"

record guardrail_result =
  gd_allowed :: bool
  gd_blocked_by :: "string list"
  gd_violations :: "guardrail_violation list"
  gd_checks :: "(string \<times> bool) list"

record market_context =
  mc_exchange :: pyval
  mc_symbol :: pyval
  mc_timestamp_ms :: pyval
  mc_best_bid :: "pyfloat option"
  mc_best_ask :: "pyfloat option"
  mc_best_bid_size :: pyfloat
  mc_best_ask_size :: pyfloat
  mc_mid_price :: pyfloat
  mc_spread_bps :: pyfloat
  mc_orderbook_imbalance :: pyfloat
  mc_microstructure_regime :: string
  mc_current_position :: pyfloat
  mc_drawdown_pct :: pyfloat
  mc_news_summary :: string
  mc_news_sentiment :: pyfloat
  mc_news_source_count :: int

record context_output =
  co_context :: market_context
  co_has_orderbook :: bool
  co_has_news :: bool
  co_context_score :: pyfloat
  co_notes :: "string list"

section \<open>Market context\<close>

definition to_float :: "pyval \<Rightarrow> pyfloat \<Rightarrow> pyfloat result" where
  "to_float v dflt = (case py_float v of
      Inr f \<Rightarrow> Inr f
    | Inl e \<Rightarrow> if exc_class e \<in> {TypeError, ValueError} then Inr dflt else Inl e)"

definition to_int :: "pyval \<Rightarrow> int \<Rightarrow> int result" where
  "to_int v dflt = (case py_int v of
      Inr n \<Rightarrow> Inr n
    | Inl e \<Rightarrow> if exc_class e \<in> {TypeError, ValueError} then Inr dflt else Inl e)"

text \<open>One level of a payload: skipped when it is no object or lacks usable numbers.\<close>

definition context_level :: "pyval \<Rightarrow> (pyfloat \<times> pyfloat) list result" where
  "context_level level = (case level of
      PDict d \<Rightarrow>
        (case rbind (rbind (pindex d ''price'') py_float) (\<lambda>price.
               rbind (rbind (pindex d ''amount'') py_float) (\<lambda>amount. Inr (price, amount))) of
           Inr (price, amount) \<Rightarrow> Inr [(price, fmax (Fin 0) amount)]
         | Inl e \<Rightarrow> if exc_class e \<in> {KeyError, TypeError, ValueError} then Inr [] else Inl e)
    | _ \<Rightarrow> Inr [])"

text \<open>\<open>max(parsed, key=...)\<close> and \<open>min(parsed, key=...)\<close>: the first of equally good ones.\<close>

definition best_level :: "bool \<Rightarrow> (pyfloat \<times> pyfloat) list \<Rightarrow> pyfloat \<times> pyfloat" where
  "best_level bid parsed = foldl (\<lambda>best item.
     if (if bid then flt (fst best) (fst item) else flt (fst item) (fst best)) then item else best)
     (hd parsed) (tl parsed)"

definition extract_level :: "pyval \<Rightarrow> string \<Rightarrow> (pyfloat option \<times> pyfloat) result" where
  "extract_level levels side = (case levels of
      PList (l # ls) \<Rightarrow>
        rbind (rmap context_level (l # ls)) (\<lambda>lists.
          let parsed = concat lists in
          if parsed = [] then Inr (None, Fin 0)
          else (case best_level (side = ''bid'') parsed of (price, amount) \<Rightarrow> Inr (Some price, amount)))
    | _ \<Rightarrow> Inr (None, Fin 0))"

definition microstructure_regime :: "bool \<Rightarrow> pyfloat \<Rightarrow> string" where
  "microstructure_regime has_orderbook orderbook_imbalance =
     (if \<not> has_orderbook then ''unknown''
      else if fle (fl (2 / 10)) orderbook_imbalance then ''bid_dominant''
      else if fle orderbook_imbalance (fneg (fl (2 / 10))) then ''ask_dominant''
      else ''balanced'')"

definition extract_news :: "pydict \<Rightarrow> (string \<times> pyfloat \<times> int \<times> bool) result" where
  "extract_news payload = (case pget payload ''news'' PNone of
      PDict news_payload \<Rightarrow>
        (let stripped = py_strip (py_str (pget news_payload ''summary'' (PStr ''news_unavailable'')));
             summary = (if stripped = [] then ''news_unavailable'' else stripped) in
         rbind (to_float (pget news_payload ''sentiment'' PNone) (Fin 0)) (\<lambda>sentiment.
         rbind (to_int (pget news_payload ''source_count'' PNone) 0) (\<lambda>source_count.
         Inr (summary, sentiment, source_count, summary = ''news_unavailable''))))
    | _ \<Rightarrow> Inr (''news_unavailable'', Fin 0, 0, True))"

definition context_score :: "bool \<Rightarrow> bool \<Rightarrow> pyfloat" where
  "context_score has_orderbook has_news =
     (let score = Fin 0;
          score = (if has_orderbook then fadd score (fl (8 / 10)) else score);
          score = (if has_news then fadd score (fl (2 / 10)) else score)
      in fmin (Fin 1) score)"

text \<open>Mid price and spread\<close>

definition mid_and_spread :: "pydict \<Rightarrow> pyfloat option \<Rightarrow> pyfloat option \<Rightarrow> (pyfloat \<times> pyfloat) result" where
  "mid_and_spread payload best_bid best_ask = (case (best_bid, best_ask) of
      (Some bid, Some ask) \<Rightarrow>
        rbind (fdiv (fadd bid ask) (Fin 2)) (\<lambda>mid_price.
        rbind (if flt (Fin 0) mid_price
               then rbind (fdiv (fsub ask bid) mid_price) (\<lambda>ratio. Inr (fmul ratio (Fin 10000)))
               else Inr (Fin 0)) (\<lambda>spread_bps. Inr (mid_price, spread_bps)))
    | _ \<Rightarrow> rbind (to_float (pget payload ''mid_price'' PNone) (Fin 0)) (\<lambda>mid_price. Inr (mid_price, Fin 0)))"

definition size_imbalance :: "pyfloat \<Rightarrow> pyfloat \<Rightarrow> pyfloat result" where
  "size_imbalance bid_size ask_size =
     (let total_size = fadd bid_size ask_size in
      if flt (Fin 0) total_size then fdiv (fsub bid_size ask_size) total_size else Inr (Fin 0))"

definition enrich :: "pydict \<Rightarrow> strategy_config \<Rightarrow> context_output result" where
  "enrich payload strategy =
     rbind (extract_level (pget payload ''bids'' PNone) ''bid'') (\<lambda>(best_bid, best_bid_size).
     rbind (extract_level (pget payload ''asks'' PNone) ''ask'') (\<lambda>(best_ask, best_ask_size).
     rbind (mid_and_spread payload best_bid best_ask) (\<lambda>(mid_price, spread_bps).
     rbind (size_imbalance best_bid_size best_ask_size) (\<lambda>imbalance.
     let has_orderbook = (best_bid \<noteq> None \<and> best_ask \<noteq> None);
         regime = microstructure_regime has_orderbook imbalance in
     rbind (extract_news payload) (\<lambda>(news_summary, news_sentiment, news_source_count, news_fallback).
     let notes = (if \<not> has_orderbook then [''orderbook_unavailable''] else [])
           @ (if news_fallback then [''news_unavailable''] else []) in
     rbind (to_float (pget payload ''current_position'' PNone) (Fin 0)) (\<lambda>current_position.
     rbind (to_float (pget payload ''drawdown_pct'' PNone) (Fin 0)) (\<lambda>drawdown_pct.
     Inr \<lparr>co_context = \<lparr>mc_exchange = pget payload ''exchange'' (PStr ''unknown''),
            mc_symbol = pget payload ''symbol'' (PStr (sc_symbol strategy)),
            mc_timestamp_ms = pget payload ''timestamp_ms'' PNone, mc_best_bid = best_bid, mc_best_ask = best_ask,
            mc_best_bid_size = best_bid_size, mc_best_ask_size = best_ask_size, mc_mid_price = mid_price,
            mc_spread_bps = spread_bps, mc_orderbook_imbalance = imbalance, mc_microstructure_regime = regime,
            mc_current_position = current_position, mc_drawdown_pct = drawdown_pct,
            mc_news_summary = news_summary, mc_news_sentiment = news_sentiment,
            mc_news_source_count = news_source_count\<rparr>,
          co_has_orderbook = has_orderbook, co_has_news = (\<not> news_fallback),
          co_context_score = context_score has_orderbook (\<not> news_fallback), co_notes = notes\<rparr>)))))))"

section \<open>Planner\<close>

definition select_action :: "pyfloat \<Rightarrow> strategy_config \<Rightarrow> string" where
  "select_action imbalance strategy =
     (if fle (sc_planner_buy_threshold strategy) imbalance then ''BUY''
      else if fle imbalance (fneg (sc_planner_sell_threshold strategy)) then ''SELL''
      else ''HOLD'')"

definition build_plan :: "market_context \<Rightarrow> strategy_config \<Rightarrow> planner_decision result" where
  "build_plan mc strategy =
     (let bid_size = fmax (Fin 0) (mc_best_bid_size mc); ask_size = fmax (Fin 0) (mc_best_ask_size mc) in
      rbind (size_imbalance bid_size ask_size) (\<lambda>imbalance.
      let action = select_action imbalance strategy;
          confidence = fmin (Fin 1) (fabs imbalance);
          scaled_quantity = fmul (sc_order_size strategy) (fmax confidence (sc_risk_min_confidence strategy));
          target_quantity = (if action = ''HOLD'' then Fin 0
            else if action = ''BUY'' then scaled_quantity else fneg scaled_quantity)
      in Inr \<lparr>pl_action = action, pl_confidence = confidence, pl_target_quantity = target_quantity,
        pl_rationale = [''orderbook imbalance='' @ float_fixed 4 imbalance,
          ''buy_threshold='' @ float_fixed 4 (sc_planner_buy_threshold strategy),
          ''sell_threshold='' @ float_fixed 4 (sc_planner_sell_threshold strategy)],
        pl_metrics = [(''orderbook_imbalance'', imbalance), (''mid_price'', mc_mid_price mc),
          (''best_bid_size'', bid_size), (''best_ask_size'', ask_size)]\<rparr>))"

section \<open>Risk agent\<close>

definition risk_signals :: "planner_decision \<Rightarrow> market_context \<Rightarrow> strategy_config \<Rightarrow> risk_signal list" where
  "risk_signals plan mc strategy =
     (let current_position = fabs (mc_current_position mc);
          proposed_quantity = fabs (pl_target_quantity plan);
          proposed_notional = fmul proposed_quantity (mc_mid_price mc);
          projected_position = fadd current_position proposed_quantity
      in [\<lparr>rs_name = ''confidence_minimum'', rs_passed = fle (sc_risk_min_confidence strategy) (pl_confidence plan),
           rs_value = pl_confidence plan, rs_limit = sc_risk_min_confidence strategy,
           rs_message = ''Planner confidence must meet minimum threshold''\<rparr>,
          \<lparr>rs_name = ''actionable_plan'',
           rs_passed = (pl_action plan \<in> {''BUY'', ''SELL'', ''CLOSE''} \<and> flt (Fin 0) proposed_quantity),
           rs_value = (if flt (Fin 0) proposed_quantity then Fin 1 else Fin 0), rs_limit = Fin 1,
           rs_message = ''Plan action must produce a non-zero executable quantity''\<rparr>,
          \<lparr>rs_name = ''notional_limit'', rs_passed = fle proposed_notional (sc_risk_max_notional_usd strategy),
           rs_value = proposed_notional, rs_limit = sc_risk_max_notional_usd strategy,
           rs_message = ''Planned notional must remain within max_notional_usd''\<rparr>,
          \<lparr>rs_name = ''position_limit'', rs_passed = fle projected_position (sc_risk_max_position_size strategy),
           rs_value = projected_position, rs_limit = sc_risk_max_position_size strategy,
           rs_message = ''Projected position must remain within max_position_size''\<rparr>,
          \<lparr>rs_name = ''drawdown_limit'', rs_passed = fle (mc_drawdown_pct mc) (sc_risk_max_drawdown_pct strategy),
           rs_value = mc_drawdown_pct mc, rs_limit = sc_risk_max_drawdown_pct strategy,
           rs_message = ''Current drawdown must remain within risk threshold''\<rparr>])"

definition risk_evaluate :: "planner_decision \<Rightarrow> market_context \<Rightarrow> strategy_config \<Rightarrow> risk_assessment" where
  "risk_evaluate plan mc strategy =
     (let signals = risk_signals plan mc strategy;
          blocked_by = map rs_name (filter (\<lambda>s. \<not> rs_passed s) signals);
          approved = (blocked_by = []);
          proposed_quantity = fabs (pl_target_quantity plan)
      in \<lparr>ra_approved = approved,
          ra_approved_quantity = (if approved then pl_target_quantity plan else Fin 0),
          ra_signals = signals, ra_blocked_by = blocked_by,
          ra_risk_score = fl (of_nat (length blocked_by) / of_nat (length signals)),
          ra_rationale = [''proposed_notional='' @ float_fixed 2 (fmul proposed_quantity (mc_mid_price mc)),
            ''projected_position='' @ float_fixed 6 (fadd (fabs (mc_current_position mc)) proposed_quantity),
            ''drawdown_pct='' @ float_fixed 4 (mc_drawdown_pct mc)]\<rparr>)"

section \<open>Execution decision\<close>

definition ALLOWED_ACTIONS :: "string list" where
  "ALLOWED_ACTIONS = [''BUY'', ''SELL'', ''HOLD'', ''CLOSE'']"

definition normalize_action :: "string \<Rightarrow> string" where
  "normalize_action action =
     (let normalized = py_upper action in if normalized \<in> set ALLOWED_ACTIONS then normalized else ''HOLD'')"

definition resolve_quantity ::
    "string \<Rightarrow> planner_decision \<Rightarrow> risk_assessment \<Rightarrow> pyfloat \<Rightarrow> pyfloat \<Rightarrow> pyfloat" where
  "resolve_quantity action plan risk current_position default_size =
     (if action = ''HOLD'' then Fin 0
      else if action = ''CLOSE'' then (if feq current_position (Fin 0) then Fin 0 else fneg current_position)
      else
        (let approved = ra_approved_quantity risk;
             base_quantity = (if feq approved (Fin 0)
               then (if \<not> feq (pl_target_quantity plan) (Fin 0) then pl_target_quantity plan else default_size)
               else approved)
         in if action = ''BUY'' then fabs base_quantity
            else if action = ''SELL'' then fneg (fabs base_quantity)
            else Fin 0))"

definition normalize_action_quantity :: "string \<Rightarrow> pyfloat \<Rightarrow> string \<times> pyfloat" where
  "normalize_action_quantity action quantity =
     (if action = ''BUY'' \<and> fle quantity (Fin 0) then (''HOLD'', Fin 0)
      else if action = ''SELL'' \<and> fle (Fin 0) quantity then (''HOLD'', Fin 0)
      else if action = ''CLOSE'' \<and> feq quantity (Fin 0) then (''HOLD'', Fin 0)
      else if action = ''HOLD'' then (''HOLD'', Fin 0)
      else (action, quantity))"

definition clamp_confidence :: "pyfloat \<Rightarrow> pyfloat" where
  "clamp_confidence confidence = fmax (Fin 0) (fmin (Fin 1) confidence)"

definition schema_valid :: "string \<Rightarrow> pyfloat \<Rightarrow> bool" where
  "schema_valid action quantity =
     (action \<in> set ALLOWED_ACTIONS
      \<and> (if action = ''BUY'' then flt (Fin 0) quantity
         else if action = ''SELL'' then flt quantity (Fin 0)
         else if action = ''CLOSE'' then \<not> feq quantity (Fin 0)
         else if action = ''HOLD'' then feq quantity (Fin 0)
         else True))"

definition decision_constraints :: "string \<Rightarrow> pyfloat \<Rightarrow> risk_assessment \<Rightarrow> strategy_config \<Rightarrow> pydict" where
  "decision_constraints action quantity risk strategy =
     [(''schema_valid'', PBool (schema_valid action quantity)),
      (''allowed_actions'', PList (map PStr ALLOWED_ACTIONS)), (''risk_approved'', PBool (ra_approved risk)),
      (''blocked_by'', PList (map PStr (ra_blocked_by risk))), (''mode'', PStr (sc_mode strategy))]"

definition propose_action ::
    "planner_decision \<Rightarrow> risk_assessment \<Rightarrow> market_context \<Rightarrow> strategy_config \<Rightarrow> execution_decision" where
  "propose_action plan risk mc strategy =
     (if \<not> ra_approved risk then
        \<lparr>xd_action = ''HOLD'', xd_quantity = Fin 0, xd_confidence = clamp_confidence (pl_confidence plan),
         xd_rationale = [''risk_not_approved'', ''blocked_by='' @ join_with '','' (ra_blocked_by risk)],
         xd_constraints = decision_constraints ''HOLD'' (Fin 0) risk strategy\<rparr>
      else
        (let action0 = normalize_action (pl_action plan);
             quantity0 = resolve_quantity action0 plan risk (mc_current_position mc) (sc_order_size strategy);
             (action, quantity) = normalize_action_quantity action0 quantity0
         in \<lparr>xd_action = action, xd_quantity = quantity, xd_confidence = clamp_confidence (pl_confidence plan),
             xd_rationale = [''planner_action='' @ pl_action plan,
               ''risk_approved_quantity='' @ float_fixed 8 (ra_approved_quantity risk),
               ''final_action='' @ action, ''final_quantity='' @ float_fixed 8 quantity],
             xd_constraints = decision_constraints action quantity risk strategy\<rparr>))"

section \<open>Guardrails\<close>

definition quantity_semantics_valid :: "string \<Rightarrow> xdec \<Rightarrow> bool result" where
  "quantity_semantics_valid action quantity =
     (if action = ''BUY'' then xlt (Dec 0) quantity
      else if action = ''SELL'' then xlt quantity (Dec 0)
      else if action = ''CLOSE'' then Inr (quantity \<noteq> Dec 0)
      else if action = ''HOLD'' then Inr (quantity = Dec 0)
      else Inr False)"

text \<open>The context has no key \<open>equity_usd\<close>: the default is the mid price, at least one.\<close>

definition guard_equity :: "xdec \<Rightarrow> xdec result" where
  "guard_equity mid_price = rbind (xlt (Dec 0) mid_price) (\<lambda>pos.
     Inr (xdec_of_float (fmax (if pos then float_of_xdec mid_price else Fin 1) (Fin 1))))"

definition guard_leverage :: "xdec \<Rightarrow> xdec \<Rightarrow> xdec \<Rightarrow> xdec result" where
  "guard_leverage projected_position mid_price equity_usd = rbind (xlt (Dec 0) mid_price) (\<lambda>pos.
     if pos then rbind (xmul projected_position mid_price) (\<lambda>exposure. xdiv (xabs exposure) equity_usd)
     else Inr (Dec 0))"

text \<open>A check with the violation it records when it fails\<close>

definition guard_item :: "string \<Rightarrow> bool \<Rightarrow> string \<Rightarrow> string \<Rightarrow> (string \<times> detail) list
      \<Rightarrow> (string \<times> bool) \<times> guardrail_violation list" where
  "guard_item check passed code message details =
     ((check, passed), if passed then [] else [\<lparr>gv_code = code, gv_message = message, gv_details = details\<rparr>])"

text \<open>\<open>(not executable_action) or ...\<close>: the comparison is made only for an executable action.\<close>

definition unless :: "bool \<Rightarrow> bool result \<Rightarrow> bool result" where
  "unless skip test = (if skip then Inr True else test)"

definition guardrail_validate ::
    "strategy_config \<Rightarrow> market_context \<Rightarrow> risk_assessment \<Rightarrow> execution_decision \<Rightarrow> guardrail_result result" where
  "guardrail_validate strategy mc risk decision =
     (let symbol = py_str (mc_symbol mc); action = py_upper (xd_action decision);
          quantity = xdec_of_float (xd_quantity decision); confidence = xdec_of_float (xd_confidence decision);
          mid_price = xdec_of_float (fmax (mc_mid_price mc) (Fin 0));
          current_position = xdec_of_float (mc_current_position mc) in
      rbind (xadd current_position quantity) (\<lambda>projected_position.
      rbind (xmul (xabs quantity) mid_price) (\<lambda>projected_notional.
      rbind (guard_equity mid_price) (\<lambda>equity_usd.
      rbind (guard_leverage projected_position mid_price equity_usd) (\<lambda>projected_leverage.
      rbind (quantity_semantics_valid action quantity) (\<lambda>semantics.
      let hold = (action \<notin> {''BUY'', ''SELL'', ''CLOSE''}) in
      rbind (unless hold (xle (xdec_of_float (sc_risk_min_confidence strategy)) confidence)) (\<lambda>confident.
      rbind (unless hold (xle projected_notional (xdec_of_float (sc_risk_max_notional_usd strategy)))) (\<lambda>notional_ok.
      rbind (unless hold (xle (xabs projected_position) (xdec_of_float (sc_risk_max_position_size strategy)))) (\<lambda>position_ok.
      rbind (unless hold (xle projected_leverage (xdec_of_float (sc_max_leverage strategy)))) (\<lambda>leverage_ok.
      let items = [
        guard_item ''action_allowed'' (action \<in> set (sc_allowed_actions strategy)) ''action_schema''
          ''action not in allowed action set''
          [(''action'', DText action), (''allowed_actions'', DTexts (sc_allowed_actions strategy))],
        guard_item ''quantity_semantics'' semantics ''quantity_semantics''
          ''quantity sign does not match action semantics'' [(''action'', DText action), (''quantity'', DDecimal quantity)],
        guard_item ''symbol_constraint'' (symbol = sc_symbol strategy) ''symbol_constraint''
          ''market symbol does not match strategy symbol''
          [(''market_symbol'', DText symbol), (''strategy_symbol'', DText (sc_symbol strategy))],
        guard_item ''confidence_threshold'' confident ''confidence_threshold''
          ''decision confidence below required threshold''
          [(''confidence'', DDecimal confidence), (''minimum'', DFloat (sc_risk_min_confidence strategy))],
        guard_item ''risk_alignment'' (hold \<or> ra_approved risk) ''risk_alignment''
          ''executable action requires approved risk assessment''
          [(''risk_approved'', DFlag (ra_approved risk)), (''blocked_by'', DTexts (ra_blocked_by risk))],
        guard_item ''notional_limit'' notional_ok ''notional_limit''
          ''projected notional exceeds strategy notional limit''
          [(''projected_notional'', DDecimal projected_notional), (''max_notional'', DFloat (sc_risk_max_notional_usd strategy))],
        guard_item ''position_limit'' position_ok ''position_limit''
          ''projected position exceeds strategy max position size''
          [(''projected_position'', DDecimal projected_position), (''max_position_size'', DFloat (sc_risk_max_position_size strategy))],
        guard_item ''leverage_limit'' leverage_ok ''leverage_limit''
          ''projected leverage exceeds configured max leverage''
          [(''projected_leverage'', DDecimal projected_leverage), (''max_leverage'', DFloat (sc_max_leverage strategy))]];
        violations = concat (map snd items)
      in Inr \<lparr>gd_allowed = (violations = []), gd_blocked_by = map gv_code violations, gd_violations = violations,
              gd_checks = map fst items\<rparr>))))))))))"


section \<open>Proposals\<close>

lemma clamp_confidence_bounds: "fle (Fin 0) (clamp_confidence c) \<and> fle (clamp_confidence c) (Fin 1)"
  by (cases c) (auto simp: clamp_confidence_def fmax_def fmin_def)

lemma normalize_action_allowed: "normalize_action a \<in> set ALLOWED_ACTIONS"
  by (simp add: normalize_action_def ALLOWED_ACTIONS_def Let_def)

lemma normalized_schema:
  assumes "a \<in> set ALLOWED_ACTIONS" "q \<noteq> NaN" "normalize_action_quantity a q = (a', q')"
  shows "schema_valid a' q'"
proof -
  have sv: "schema_valid ''BUY'' q \<longleftrightarrow> flt (Fin 0) q" "schema_valid ''SELL'' q \<longleftrightarrow> flt q (Fin 0)"
    "schema_valid ''CLOSE'' q \<longleftrightarrow> \<not> feq q (Fin 0)" "schema_valid ''HOLD'' (Fin 0)" for q
    by (simp_all add: schema_valid_def ALLOWED_ACTIONS_def)
  have nq: "normalize_action_quantity ''BUY'' q = (if fle q (Fin 0) then (''HOLD'', Fin 0) else (''BUY'', q))"
    "normalize_action_quantity ''SELL'' q = (if fle (Fin 0) q then (''HOLD'', Fin 0) else (''SELL'', q))"
    "normalize_action_quantity ''CLOSE'' q = (if feq q (Fin 0) then (''HOLD'', Fin 0) else (''CLOSE'', q))"
    "normalize_action_quantity ''HOLD'' q = (''HOLD'', Fin 0)"
    by (simp_all add: normalize_action_quantity_def)
  have lt: "fle q (Fin 0) \<or> flt (Fin 0) q" "fle (Fin 0) q \<or> flt q (Fin 0)" using assms(2) by (cases q; auto)+
  from assms(1) have "a = ''BUY'' \<or> a = ''SELL'' \<or> a = ''HOLD'' \<or> a = ''CLOSE''"
    by (simp add: ALLOWED_ACTIONS_def)
  then show ?thesis using assms(3) lt
    by (elim disjE; hypsubst_thin; unfold nq) (simp_all only: sv split: if_splits, auto simp only: prod.inject sv)
qed

lemma fabs_fneg_NaN [simp]: "fabs x = NaN \<longleftrightarrow> x = NaN" "fneg x = NaN \<longleftrightarrow> x = NaN"
  by (cases x; simp)+

lemma resolve_quantity_number:
  assumes "pl_target_quantity plan \<noteq> NaN" "ra_approved_quantity risk \<noteq> NaN" "pos \<noteq> NaN" "dflt \<noteq> NaN"
  shows "resolve_quantity a plan risk pos dflt \<noteq> NaN"
  using assms by (simp add: resolve_quantity_def Let_def)

section \<open>What the guardrails let through\<close>

lemma guard_item_passed: "snd (guard_item c p code m ds) = [] \<longleftrightarrow> p"
  by (simp add: guard_item_def)

lemma guardrail_checks:
  assumes "guardrail_validate strategy mc risk d = Inr g" "gd_allowed g"
    and "py_upper (xd_action d) \<in> {''BUY'', ''SELL'', ''CLOSE''}"
  obtains pp pn where
    "xadd (xdec_of_float (mc_current_position mc)) (xdec_of_float (xd_quantity d)) = Inr pp"
    "xmul (xabs (xdec_of_float (xd_quantity d))) (xdec_of_float (fmax (mc_mid_price mc) (Fin 0))) = Inr pn"
    "quantity_semantics_valid (py_upper (xd_action d)) (xdec_of_float (xd_quantity d)) = Inr True"
    "xle (xdec_of_float (sc_risk_min_confidence strategy)) (xdec_of_float (xd_confidence d)) = Inr True"
    "xle pn (xdec_of_float (sc_risk_max_notional_usd strategy)) = Inr True"
    "xle (xabs pp) (xdec_of_float (sc_risk_max_position_size strategy)) = Inr True"
    "ra_approved risk" "py_str (mc_symbol mc) = sc_symbol strategy"
    "py_upper (xd_action d) \<in> set (sc_allowed_actions strategy)"
proof -
  have h: "py_upper (xd_action d) \<notin> {''BUY'', ''SELL'', ''CLOSE''} \<longleftrightarrow> False" using assms(3) by simp
  from assms(1) obtain pp pn sem conf no po lo where r:
    "xadd (xdec_of_float (mc_current_position mc)) (xdec_of_float (xd_quantity d)) = Inr pp"
    "xmul (xabs (xdec_of_float (xd_quantity d))) (xdec_of_float (fmax (mc_mid_price mc) (Fin 0))) = Inr pn"
    "quantity_semantics_valid (py_upper (xd_action d)) (xdec_of_float (xd_quantity d)) = Inr sem"
    "xle (xdec_of_float (sc_risk_min_confidence strategy)) (xdec_of_float (xd_confidence d)) = Inr conf"
    "xle pn (xdec_of_float (sc_risk_max_notional_usd strategy)) = Inr no"
    "xle (xabs pp) (xdec_of_float (sc_risk_max_position_size strategy)) = Inr po"
    and g: "gd_allowed g \<longleftrightarrow> py_upper (xd_action d) \<in> set (sc_allowed_actions strategy) \<and> sem
      \<and> py_str (mc_symbol mc) = sc_symbol strategy \<and> conf \<and> ra_approved risk \<and> no \<and> po \<and> lo"
    unfolding guardrail_validate_def Let_def unless_def h if_False rbind_Inr_iff sum.inject(2)
    by (elim exE conjE, hypsubst)
      (simp only: guardrail_result.select_convs list.map concat.simps append_is_Nil_conv guard_item_passed
        HOL.simp_thms)
  show ?thesis using g assms(2) r by (intro that[of pp pn]) simp_all
qed

lemma guarded_order:
  assumes "guardrail_validate strategy mc risk d = Inr g" and "gd_allowed g"
    and "py_upper (xd_action d) \<in> {''BUY'', ''SELL'', ''CLOSE''}" and "wf_float (xd_quantity d)"
    and "sc_risk_max_position_size strategy = Fin max_pos" and "sc_risk_max_notional_usd strategy = Fin max_notional"
    and "mc_current_position mc = Fin pos" and "mc_mid_price mc = Fin price"
  shows "\<exists>q. xd_quantity d = Fin q \<and> q \<noteq> 0
      \<and> (py_upper (xd_action d) = ''BUY'' \<longrightarrow> 0 < q) \<and> (py_upper (xd_action d) = ''SELL'' \<longrightarrow> q < 0)
      \<and> \<bar>dadd (repr_dec pos) (repr_dec q)\<bar> \<le> repr_dec max_pos
      \<and> dmul (dabs (repr_dec q)) (repr_dec (max price 0)) \<le> repr_dec max_notional
      \<and> ra_approved risk \<and> py_str (mc_symbol mc) = sc_symbol strategy
      \<and> py_upper (xd_action d) \<in> set (sc_allowed_actions strategy)"
proof -
  obtain pp pn where c:
    "xadd (xdec_of_float (mc_current_position mc)) (xdec_of_float (xd_quantity d)) = Inr pp"
    "xmul (xabs (xdec_of_float (xd_quantity d))) (xdec_of_float (fmax (mc_mid_price mc) (Fin 0))) = Inr pn"
    "quantity_semantics_valid (py_upper (xd_action d)) (xdec_of_float (xd_quantity d)) = Inr True"
    "xle pn (xdec_of_float (sc_risk_max_notional_usd strategy)) = Inr True"
    "xle (xabs pp) (xdec_of_float (sc_risk_max_position_size strategy)) = Inr True"
    and rest: "ra_approved risk" "py_str (mc_symbol mc) = sc_symbol strategy"
    "py_upper (xd_action d) \<in> set (sc_allowed_actions strategy)"
    by (rule guardrail_checks[OF assms(1-3)])
  obtain q where q: "xd_quantity d = Fin q"
    using c(1,5) assms(5,7) by (cases "xd_quantity d") (auto simp: xdec_of_float_def)
  have dbl: "dbl q = q" using assms(4) q by (simp add: wf_float_def)
  have "\<bar>dadd (repr_dec pos) (repr_dec q)\<bar> \<le> repr_dec max_pos"
    using c(1,5) assms(5,7) q by (auto simp: xdec_of_float_def dadd_def dabs_def dec_abs)
  moreover have "dmul (dabs (repr_dec q)) (repr_dec (max price 0)) \<le> repr_dec max_notional"
    using c(2,4) assms(6,8) q by (auto simp: xdec_of_float_def)
  moreover have "q \<noteq> 0 \<and> (py_upper (xd_action d) = ''BUY'' \<longrightarrow> 0 < q) \<and> (py_upper (xd_action d) = ''SELL'' \<longrightarrow> q < 0)"
    using c(3) assms(3) q repr_dec_pos[OF dbl] repr_dec_nonneg[OF dbl]
    by (auto simp: xdec_of_float_def quantity_semantics_valid_def not_le split: if_splits)
  ultimately show ?thesis using q rest by blast
qed

section \<open>Properties\<close>

text \<open>The execution agent proposes nothing without approval: when the risk assessment does not
  approve, it holds with quantity zero. Otherwise, on numbers, its action is one of the allowed
  ones and the sign of its quantity fits the action; its confidence always lies between 0 and 1.\<close>

theorem proposals_fit_actions:
  assumes "pl_target_quantity plan \<noteq> NaN" and "ra_approved_quantity risk \<noteq> NaN"
    and "mc_current_position mc \<noteq> NaN" and "sc_order_size strategy \<noteq> NaN"
  shows "let d = propose_action plan risk mc strategy in
    schema_valid (xd_action d) (xd_quantity d)
    \<and> (ra_approved risk \<or> xd_action d = ''HOLD'' \<and> xd_quantity d = Fin 0)
    \<and> fle (Fin 0) (xd_confidence d) \<and> fle (xd_confidence d) (Fin 1)
    \<and> dict_get (xd_constraints d) ''schema_valid'' = Some (PBool True)"
proof (cases "ra_approved risk")
  case True
  let ?a = "normalize_action (pl_action plan)"
  let ?q = "resolve_quantity ?a plan risk (mc_current_position mc) (sc_order_size strategy)"
  obtain a q where n: "normalize_action_quantity ?a ?q = (a, q)" by fastforce
  have "schema_valid a q" using normalized_schema[OF normalize_action_allowed resolve_quantity_number[OF assms] n] .
  then show ?thesis using True clamp_confidence_bounds
    by (simp add: propose_action_def Let_def n decision_constraints_def)
next
  case False
  have "schema_valid ''HOLD'' (Fin 0)" by (simp add: schema_valid_def ALLOWED_ACTIONS_def)
  then show ?thesis using False clamp_confidence_bounds
    by (simp add: propose_action_def Let_def decision_constraints_def)
qed

definition sample_strategy :: strategy_config where
  "sample_strategy = \<lparr>sc_strategy_id = ''s1'', sc_symbol = ''BTC/USDT'', sc_mode = ''MOCK'', sc_order_size = Fin 1,
     sc_planner_buy_threshold = Fin (1 / 4), sc_planner_sell_threshold = Fin (1 / 4),
     sc_risk_max_notional_usd = Fin 1000, sc_risk_max_position_size = Fin 5, sc_risk_max_drawdown_pct = Fin (1 / 2),
     sc_risk_min_confidence = Fin (1 / 2), sc_max_leverage = Fin 3, sc_allowed_actions = ALLOWED_ACTIONS\<rparr>"

definition sample_context :: "pyfloat \<Rightarrow> market_context" where
  "sample_context drawdown = \<lparr>mc_exchange = PStr ''binance'', mc_symbol = PStr ''BTC/USDT'', mc_timestamp_ms = PNone,
     mc_best_bid = Some (Fin 100), mc_best_ask = Some (Fin 100), mc_best_bid_size = Fin 3, mc_best_ask_size = Fin 1,
     mc_mid_price = Fin 100, mc_spread_bps = Fin 0, mc_orderbook_imbalance = Fin (1 / 2),
     mc_microstructure_regime = ''bid_dominant'', mc_current_position = Fin 1, mc_drawdown_pct = drawdown,
     mc_news_summary = ''news_unavailable'', mc_news_sentiment = Fin 0, mc_news_source_count = 0\<rparr>"

definition sample_plan :: planner_decision where
  "sample_plan = \<lparr>pl_action = ''BUY'', pl_confidence = Fin (1 / 2), pl_target_quantity = Fin (1 / 2),
     pl_rationale = [], pl_metrics = []\<rparr>"

definition sample_assessment :: risk_assessment where
  "sample_assessment = \<lparr>ra_approved = True, ra_approved_quantity = Fin (1 / 2), ra_signals = [], ra_blocked_by = [],
     ra_risk_score = Fin 0, ra_rationale = []\<rparr>"

definition sample_proposal :: execution_decision where
  "sample_proposal = \<lparr>xd_action = ''BUY'', xd_quantity = Fin (1 / 2), xd_confidence = Fin (1 / 2), xd_rationale = [],
     xd_constraints = []\<rparr>"

theorem proposals_fit_actions_witness:
  "let d = propose_action sample_plan sample_assessment (sample_context (Fin 0)) sample_strategy in
     schema_valid (xd_action d) (xd_quantity d) \<and> dict_get (xd_constraints d) ''schema_valid'' = Some (PBool True)"
  using proposals_fit_actions[of sample_plan sample_assessment "sample_context (Fin 0)" sample_strategy]
  by (simp add: Let_def sample_plan_def sample_assessment_def sample_context_def sample_strategy_def)

text \<open>Whatever the decision says, an executable order that passes the guardrails has an approved
  assessment, the strategy's symbol, an allowed action and a finite non-zero quantity of the right
  sign, keeps the position within the position limit and costs at most the notional limit.\<close>

theorem guardrail_bounds_orders:
  assumes "guardrail_validate strategy mc risk d = Inr g" and "gd_allowed g"
    and "py_upper (xd_action d) \<in> {''BUY'', ''SELL'', ''CLOSE''}" and "wf_float (xd_quantity d)"
    and "sc_risk_max_position_size strategy = Fin max_pos" and "sc_risk_max_notional_usd strategy = Fin max_notional"
    and "mc_current_position mc = Fin pos" and "mc_mid_price mc = Fin price"
  shows "\<exists>q. xd_quantity d = Fin q \<and> q \<noteq> 0
      \<and> (py_upper (xd_action d) = ''BUY'' \<longrightarrow> 0 < q) \<and> (py_upper (xd_action d) = ''SELL'' \<longrightarrow> q < 0)
      \<and> \<bar>dadd (repr_dec pos) (repr_dec q)\<bar> \<le> repr_dec max_pos
      \<and> dmul (dabs (repr_dec q)) (repr_dec (max price 0)) \<le> repr_dec max_notional
      \<and> ra_approved risk \<and> py_str (mc_symbol mc) = sc_symbol strategy
      \<and> py_upper (xd_action d) \<in> set (sc_allowed_actions strategy)"
  by (rule guarded_order[OF assms])

theorem guardrail_bounds_orders_witness:
  "returns gd_allowed (guardrail_validate sample_strategy (sample_context (Fin 0)) sample_assessment sample_proposal)
    \<and> (\<exists>q. xd_quantity sample_proposal = Fin q \<and> 0 < q \<and> \<bar>dadd (repr_dec 1) (repr_dec q)\<bar> \<le> repr_dec 5)"
proof -
  have r: "returns gd_allowed (guardrail_validate sample_strategy (sample_context (Fin 0)) sample_assessment sample_proposal)"
    by code_simp
  then obtain g where g: "guardrail_validate sample_strategy (sample_context (Fin 0)) sample_assessment sample_proposal = Inr g"
    "gd_allowed g" by (auto simp: returns_iff)
  have u: "py_upper (xd_action sample_proposal) = ''BUY''" by code_simp
  have w: "wf_float (xd_quantity sample_proposal)"
    using wf_float_dyadic[of 1 1] by (simp add: sample_proposal_def)
  from guardrail_bounds_orders[OF g _ w, of 5 1000 1 100] u
  have "\<exists>q. xd_quantity sample_proposal = Fin q \<and> 0 < q \<and> \<bar>dadd (repr_dec 1) (repr_dec q)\<bar> \<le> repr_dec 5"
    by (auto simp: sample_strategy_def sample_context_def)
  with r show ?thesis by blast
qed

text \<open>The guardrails measure leverage against the mid price, because the context has no equity: for a
  price of at least one, the equity they use is the price itself.\<close>

lemma guard_equity_is_price:
  assumes "wf_float (Fin price)" "1 \<le> price"
  shows "guard_equity (xdec_of_float (Fin price)) = Inr (xdec_of_float (Fin price))"
proof -
  have d: "dbl price = price" "\<not> too_big price" using assms(1) by (simp_all add: wf_float_def)
  then have "0 < repr_dec price" using repr_dec_pos[OF d(1)] assms(2) by simp
  moreover have "fl (repr_dec price) = Fin price" using dbl_repr_dec[OF d(1)] d(2) by (simp add: fl_def Let_def)
  ultimately show ?thesis using assms(2)
    by (simp add: guard_equity_def xdec_of_float_def float_of_xdec_def max_def)
qed


end
