(* ===== verification/Py_Actions.thy ===== *)
theory Py_Actions
  imports Py_Prelude
begin

text \<open>
  Methods that change an object and may raise: functions from a state to a result and the new state,
  because a raised exception keeps the updates made before it. The theory has their composition
  and two kinds of statements about them, each with a rule for composition: \<open>keeps\<close> (a property of
  the state survives, raised or not) and \<open>completes\<close> (the method returns, with a given outcome).
\<close>

section \<open>Operations with state\<close>

type_synonym ('s, 'a) action = "'s \<Rightarrow> 'a result \<times> 's"

definition sbind :: "('s, 'a) action \<Rightarrow> ('a \<Rightarrow> ('s, 'b) action) \<Rightarrow> ('s, 'b) action" where
  "sbind m f s = (case m s of (Inl e, s') \<Rightarrow> (Inl e, s') | (Inr x, s') \<Rightarrow> f x s')"

definition slift :: "'a result \<Rightarrow> ('s, 'a) action" where
  "slift r s = (r, s)"

section \<open>What a method keeps\<close>

text \<open>An action that, from a state with \<open>P\<close>, ends in a state with \<open>P\<close>, raised or not, and whose value has \<open>Q\<close>.\<close>

definition keeps :: "('s \<Rightarrow> bool) \<Rightarrow> ('a \<Rightarrow> bool) \<Rightarrow> ('s, 'a) action \<Rightarrow> bool" where
  "keeps P Q op \<longleftrightarrow> (\<forall>s. P s \<longrightarrow> (case op s of (r, s') \<Rightarrow> P s' \<and> ensures Q r))"

lemma keeps_slift: "keeps P Q (slift r) \<longleftrightarrow> (\<forall>s. P s \<longrightarrow> ensures Q r)"
  by (simp add: keeps_def slift_def)

lemma keeps_sbind:
  assumes "keeps P Q op" "\<And>x. Q x \<Longrightarrow> keeps P R (f x)"
  shows "keeps P R (sbind op f)"
  unfolding keeps_def
proof (intro allI impI)
  fix s assume s: "P s"
  obtain r s' where r: "op s = (r, s')" by force
  have k: "P s'" "ensures Q r" using assms(1) s r by (auto simp: keeps_def dest!: spec[of _ s])
  show "case sbind op f s of (r, s') \<Rightarrow> P s' \<and> ensures R r"
  proof (cases r)
    case (Inl e)
    then show ?thesis using k r by (simp add: sbind_def ensures_def)
  next
    case (Inr x)
    then have "keeps P R (f x)" using k(2) assms(2) by (simp add: ensures_def)
    then show ?thesis using k(1) r Inr by (simp add: sbind_def keeps_def)
  qed
qed

lemma keeps_result: "keeps P Q op \<Longrightarrow> P s \<Longrightarrow> P (snd (op s))"
  by (simp add: keeps_def case_prod_beta)

lemma keepsI: "(\<And>s. P s \<Longrightarrow> P (snd (op s))) \<Longrightarrow> keeps P (\<lambda>_. True) op"
  by (simp add: keeps_def ensures_def case_prod_beta)

lemma keeps_mono: "keeps P Q op \<Longrightarrow> (\<And>x. Q x \<Longrightarrow> R x) \<Longrightarrow> keeps P R op"
  by (fastforce simp: keeps_def ensures_def split: prod.splits sum.splits)


section \<open>What a method brings about\<close>

definition completes :: "('a \<Rightarrow> 's \<Rightarrow> bool) \<Rightarrow> ('s, 'a) action \<Rightarrow> 's \<Rightarrow> bool" where
  "completes P op s = (case op s of (Inl e, s') \<Rightarrow> False | (Inr x, s') \<Rightarrow> P x s')"

lemma completes_iff: "completes P op s \<longleftrightarrow> (\<exists>x s'. op s = (Inr x, s') \<and> P x s')"
  by (auto simp: completes_def split: prod.splits sum.splits)

lemma completes_slift: "completes P (slift r) s \<longleftrightarrow> returns (\<lambda>x. P x s) r"
  by (auto simp: completes_iff slift_def returns_iff)

lemma completes_sbind:
  "completes Q op s \<Longrightarrow> (\<And>x s'. Q x s' \<Longrightarrow> completes P (f x) s') \<Longrightarrow> completes P (sbind op f) s"
  by (fastforce simp: completes_iff sbind_def)

lemma completes_mono: "completes P op s \<Longrightarrow> (\<And>x s'. P x s' \<Longrightarrow> Q x s') \<Longrightarrow> completes Q op s"
  by (auto simp: completes_iff)

end
