(* ===== verification/Agent_Orchestrator.thy ===== *)
theory Agent_Orchestrator
  imports Agent_Decision Sim_Engine Notify_Events Py_Actions
begin

text \<open>
  The orchestrator of a trading decision (\<open>services/agent_orchestrator/orchestrator.py\<close>) with what it
  calls: the memory layer (\<open>memory_layer.py\<close>), stage metrics (\<open>metrics_tracing.py\<close>) and the suggestions
  of a language model (\<open>llm_runtime.py\<close>, from the parsed reply on). The memory stores are the protocol
  of the code: functions on a state of their own. What a language model replies, clock readings and
  identifiers are arguments. The lemmas show which orders
  can reach an execution queue, whatever a language model suggests, and that a decision of one mode
  never touches the execution queue of the other.
\<close>

section \<open>Stage metrics\<close>

record trace_span =
  ts_trace_id :: string
  ts_decision_id :: string
  ts_mode :: string
  ts_stage :: string
  ts_status :: string
  ts_latency_ms :: pyfloat
  ts_error_type :: "string option"
  ts_started_at :: string
  ts_completed_at :: string

record llm_totals =
  lt_calls_total :: pyfloat
  lt_failed_calls_total :: pyfloat
  lt_prompt_tokens_total :: pyfloat
  lt_completion_tokens_total :: pyfloat
  lt_tokens_total :: pyfloat
  lt_estimated_cost_total :: pyfloat

definition zero_totals :: llm_totals where
  "zero_totals = \<lparr>lt_calls_total = Fin 0, lt_failed_calls_total = Fin 0, lt_prompt_tokens_total = Fin 0,
     lt_completion_tokens_total = Fin 0, lt_tokens_total = Fin 0, lt_estimated_cost_total = Fin 0\<rparr>"

record agent_metrics =
  am_stage_runs :: "(string, int) dict"
  am_stage_failures :: "(string, int) dict"
  am_stage_latency_ms :: "(string, pyfloat list) dict"
  am_llm_totals :: llm_totals
  am_llm_by_scope :: "(string, llm_totals) dict"
  am_spans :: "trace_span list"

definition new_agent_metrics :: agent_metrics where
  "new_agent_metrics = \<lparr>am_stage_runs = [], am_stage_failures = [], am_stage_latency_ms = [],
     am_llm_totals = zero_totals, am_llm_by_scope = [], am_spans = []\<rparr>"

text \<open>The identifiers of a decision, and the readings around one stage: the monotonic clock before and
  after it and the two time stamps of its span.\<close>

record decision_ids =
  di_trace_id :: string
  di_decision_id :: string
  di_mode :: string

record agent_stage_times =
  sx_started :: pyfloat
  sx_ended :: pyfloat
  sx_started_at :: string
  sx_completed_at :: string

definition latency_ms :: "agent_stage_times \<Rightarrow> pyfloat" where
  "latency_ms t = fmul (fsub (sx_ended t) (sx_started t)) (Fin 1000)"

definition agent_stage_span :: "decision_ids \<Rightarrow> string \<Rightarrow> string \<Rightarrow> string option \<Rightarrow> agent_stage_times \<Rightarrow> trace_span" where
  "agent_stage_span ids stage status error_type t =
     \<lparr>ts_trace_id = di_trace_id ids, ts_decision_id = di_decision_id ids, ts_mode = di_mode ids, ts_stage = stage,
      ts_status = status, ts_latency_ms = latency_ms t, ts_error_type = error_type,
      ts_started_at = sx_started_at t, ts_completed_at = sx_completed_at t\<rparr>"

definition add_latency :: "string \<Rightarrow> pyfloat \<Rightarrow> agent_metrics \<Rightarrow> agent_metrics" where
  "add_latency stage x am = am\<lparr>am_stage_latency_ms :=
     dict_set stage (dict_get_default (am_stage_latency_ms am) stage [] @ [x]) (am_stage_latency_ms am)\<rparr>"

definition record_stage_success :: "decision_ids \<Rightarrow> string \<Rightarrow> agent_stage_times \<Rightarrow> agent_metrics \<Rightarrow> agent_metrics" where
  "record_stage_success ids stage t am =
     (let am1 = am\<lparr>am_stage_runs := dict_incr stage (am_stage_runs am)\<rparr>;
          am2 = add_latency stage (latency_ms t) am1
      in am2\<lparr>am_spans := am_spans am2 @ [agent_stage_span ids stage ''succeeded'' None t]\<rparr>)"

definition record_stage_failure ::
    "decision_ids \<Rightarrow> string \<Rightarrow> agent_stage_times \<Rightarrow> string \<Rightarrow> agent_metrics \<Rightarrow> agent_metrics" where
  "record_stage_failure ids stage t error_type am =
     (let am1 = am\<lparr>am_stage_runs := dict_incr stage (am_stage_runs am),
                   am_stage_failures := dict_incr stage (am_stage_failures am)\<rparr>;
          am2 = add_latency stage (latency_ms t) am1
      in am2\<lparr>am_spans := am_spans am2 @ [agent_stage_span ids stage ''failed'' (Some error_type) t]\<rparr>)"

text \<open>One call added to a set of totals. Token counts are converted to \<open>float\<close>; they are taken to be
  below its range.\<close>

definition add_call :: "int \<Rightarrow> int \<Rightarrow> int \<Rightarrow> pyfloat \<Rightarrow> string \<Rightarrow> llm_totals \<Rightarrow> llm_totals" where
  "add_call prompt_tokens completion_tokens total_tokens estimated_cost status lt =
     \<lparr>lt_calls_total = fadd (lt_calls_total lt) (Fin 1),
      lt_failed_calls_total = (if status \<noteq> ''succeeded'' then fadd (lt_failed_calls_total lt) (Fin 1)
        else lt_failed_calls_total lt),
      lt_prompt_tokens_total = fadd (lt_prompt_tokens_total lt) (fl (of_int prompt_tokens)),
      lt_completion_tokens_total = fadd (lt_completion_tokens_total lt) (fl (of_int completion_tokens)),
      lt_tokens_total = fadd (lt_tokens_total lt) (fl (of_int total_tokens)),
      lt_estimated_cost_total = fadd (lt_estimated_cost_total lt) estimated_cost\<rparr>"

definition record_llm_call ::
    "string \<Rightarrow> string \<Rightarrow> int \<Rightarrow> int \<Rightarrow> int \<Rightarrow> pyfloat \<Rightarrow> string \<Rightarrow> agent_metrics \<Rightarrow> agent_metrics" where
  "record_llm_call strategy_id agent_name prompt_tokens completion_tokens total_tokens estimated_cost status am =
     (let scope = strategy_id @ '':'' @ agent_name;
          add = add_call prompt_tokens completion_tokens total_tokens estimated_cost status
      in am\<lparr>am_llm_totals := add (am_llm_totals am),
            am_llm_by_scope := dict_set scope (add (dict_get_default (am_llm_by_scope am) scope zero_totals))
              (am_llm_by_scope am)\<rparr>)"

section \<open>Memory\<close>

record memory_record =
  mr_trace_id :: string
  mr_decision_id :: string
  mr_strategy_id :: string
  mr_mode :: string
  mr_status :: string
  mr_summary :: pydict
  mr_lifecycle :: "pydict list"
  mr_persisted_at :: string

record memory_snapshot =
  ms_mode :: string
  ms_strategy_id :: string
  ms_decision_id :: string
  ms_source :: string
  ms_slots :: "(string \<times> pydict) list"

text \<open>The two store protocols: slots of the short-term store are addressed by mode, strategy and decision.\<close>

record 'm memory_ops =
  mo_read_slots :: "string \<Rightarrow> string \<Rightarrow> string \<Rightarrow> ('m, pydict) action"
  mo_write_slot :: "string \<Rightarrow> string \<Rightarrow> string \<Rightarrow> string \<Rightarrow> pydict \<Rightarrow> int \<Rightarrow> ('m, unit) action"
  mo_persist_summary :: "memory_record \<Rightarrow> ('m, unit) action"
  mo_read_summary :: "string \<Rightarrow> ('m, memory_record option) action"

text \<open>The stores used when none is configured\<close>

definition noop_memory :: "'m memory_ops" where
  "noop_memory = \<lparr>mo_read_slots = (\<lambda>_ _ _. slift (Inr [])), mo_write_slot = (\<lambda>_ _ _ _ _ _. slift (Inr ())),
     mo_persist_summary = (\<lambda>_. slift (Inr ())), mo_read_summary = (\<lambda>_. slift (Inr None))\<rparr>"

text \<open>On message values \<open>_normalize\<close> changes nothing.\<close>

definition ensure_mapping :: "pyval \<Rightarrow> pydict" where
  "ensure_mapping v = (case v of PDict d \<Rightarrow> d | _ \<Rightarrow> [(''value'', v)])"

definition read_decision_memory ::
    "'m memory_ops \<Rightarrow> int \<Rightarrow> string \<Rightarrow> string \<Rightarrow> string \<Rightarrow> ('m, memory_snapshot) action" where
  "read_decision_memory ops ttl mode strategy_id decision_id =
     sbind (mo_read_slots ops mode strategy_id decision_id) (\<lambda>slots.
     let normalized_slots = map (\<lambda>(slot, payload). (slot, ensure_mapping payload)) slots;
         snapshot = (\<lambda>source found. \<lparr>ms_mode = mode, ms_strategy_id = strategy_id, ms_decision_id = decision_id,
           ms_source = source, ms_slots = found\<rparr>) in
     if normalized_slots \<noteq> [] then slift (Inr (snapshot ''redis'' normalized_slots))
     else sbind (mo_read_summary ops decision_id) (\<lambda>archived. case archived of
         None \<Rightarrow> slift (Inr (snapshot ''empty'' []))
       | Some r \<Rightarrow>
           sbind (mo_write_slot ops mode strategy_id decision_id ''summary'' (mr_summary r) ttl) (\<lambda>_.
             slift (Inr (snapshot ''postgres'' [(''summary'', mr_summary r)])))))"

definition write_decision_slot ::
    "'m memory_ops \<Rightarrow> int \<Rightarrow> string \<Rightarrow> string \<Rightarrow> string \<Rightarrow> string \<Rightarrow> pydict \<Rightarrow> ('m, unit) action" where
  "write_decision_slot ops ttl mode strategy_id decision_id slot payload =
     mo_write_slot ops mode strategy_id decision_id slot payload ttl"

definition persist_decision_summary ::
    "'m memory_ops \<Rightarrow> int \<Rightarrow> string \<Rightarrow> decision_ids \<Rightarrow> string \<Rightarrow> string \<Rightarrow> pydict \<Rightarrow> pydict \<Rightarrow> pydict \<Rightarrow> pydict \<Rightarrow> pydict
      \<Rightarrow> pydict list \<Rightarrow> ('m, memory_record) action" where
  "persist_decision_summary ops ttl persisted_at ids strategy_id status market_context plan risk execution_decision
       guardrail lifecycle =
     (let summary = [(''status'', PStr status), (''market_context'', PDict market_context), (''plan'', PDict plan),
            (''risk'', PDict risk), (''execution_decision'', PDict execution_decision), (''guardrail'', PDict guardrail)];
          r = \<lparr>mr_trace_id = di_trace_id ids, mr_decision_id = di_decision_id ids, mr_strategy_id = strategy_id,
               mr_mode = di_mode ids, mr_status = status, mr_summary = summary, mr_lifecycle = lifecycle,
               mr_persisted_at = persisted_at\<rparr> in
      sbind (mo_persist_summary ops r) (\<lambda>_.
      sbind (mo_write_slot ops (di_mode ids) strategy_id (di_decision_id ids) ''summary'' summary ttl) (\<lambda>_.
      slift (Inr r))))"

section \<open>Suggestions of a language model\<close>

text \<open>A reply of the gateway with its content parsed: the object, or the empty one when the content is no
  JSON object.\<close>

record llm_reply =
  lr_provider :: string
  lr_model :: string
  lr_payload :: pydict

definition optional_upper :: "pyval \<Rightarrow> string option" where
  "optional_upper v = (case v of
      PStr s \<Rightarrow> (let normalized = norm_upper s in if normalized = [] then None else Some normalized)
    | _ \<Rightarrow> None)"

definition optional_float :: "pyval \<Rightarrow> pyfloat option result" where
  "optional_float v = (case v of
      PNone \<Rightarrow> Inr None
    | _ \<Rightarrow> (case py_float v of
        Inr f \<Rightarrow> Inr (Some f)
      | Inl e \<Rightarrow> if exc_class e \<in> {TypeError, ValueError} then Inr None else Inl e))"

definition optional_bool :: "pyval \<Rightarrow> bool option" where
  "optional_bool v = (case v of
      PBool b \<Rightarrow> Some b
    | PStr s \<Rightarrow>
        (let normalized = py_lower (py_strip s) in
         if normalized \<in> {''true'', ''1'', ''yes'', ''y'', ''on''} then Some True
         else if normalized \<in> {''false'', ''0'', ''no'', ''n'', ''off''} then Some False
         else None)
    | _ \<Rightarrow> None)"

text \<open>\<open>_normalize_tokens\<close> and \<open>_normalize_rationale\<close> have the same body.\<close>

definition normalize_tokens :: "pyval \<Rightarrow> string list" where
  "normalize_tokens v = (case v of
      PList items \<Rightarrow> filter (\<lambda>t. t \<noteq> []) (map (\<lambda>item. py_strip (py_str item)) items)
    | _ \<Rightarrow> [])"

record planner_suggestion =
  ps_action :: "string option"
  ps_confidence :: "pyfloat option"
  ps_target_quantity :: "pyfloat option"
  ps_rationale :: "string list"

record risk_suggestion =
  rg_approved :: "bool option"
  rg_approved_quantity :: "pyfloat option"
  rg_risk_score :: "pyfloat option"
  rg_blocked_by :: "string list"
  rg_rationale :: "string list"

record execution_suggestion =
  es_action :: "string option"
  es_quantity :: "pyfloat option"
  es_confidence :: "pyfloat option"
  es_constraints :: pydict
  es_rationale :: "string list"

definition suggest_plan :: "llm_reply \<Rightarrow> planner_suggestion result" where
  "suggest_plan r = (let payload = lr_payload r; get = (\<lambda>k. pget payload k PNone) in
     rbind (optional_float (get ''confidence'')) (\<lambda>confidence.
     rbind (optional_float (get ''target_quantity'')) (\<lambda>target_quantity.
     Inr \<lparr>ps_action = optional_upper (get ''action''), ps_confidence = confidence,
          ps_target_quantity = target_quantity, ps_rationale = normalize_tokens (get ''rationale'')\<rparr>)))"

definition suggest_risk :: "llm_reply \<Rightarrow> risk_suggestion result" where
  "suggest_risk r = (let payload = lr_payload r; get = (\<lambda>k. pget payload k PNone) in
     rbind (optional_float (get ''approved_quantity'')) (\<lambda>approved_quantity.
     rbind (optional_float (get ''risk_score'')) (\<lambda>risk_score.
     Inr \<lparr>rg_approved = optional_bool (get ''approved''), rg_approved_quantity = approved_quantity,
          rg_risk_score = risk_score, rg_blocked_by = normalize_tokens (get ''blocked_by''),
          rg_rationale = normalize_tokens (get ''rationale'')\<rparr>)))"

definition suggest_execution :: "llm_reply \<Rightarrow> execution_suggestion result" where
  "suggest_execution r = (let payload = lr_payload r; get = (\<lambda>k. pget payload k PNone) in
     rbind (optional_float (get ''quantity'')) (\<lambda>quantity.
     rbind (optional_float (get ''confidence'')) (\<lambda>confidence.
     Inr \<lparr>es_action = optional_upper (get ''action''), es_quantity = quantity, es_confidence = confidence,
          es_constraints = as_dict (get ''constraints''), es_rationale = normalize_tokens (get ''rationale'')\<rparr>)))"

text \<open>\<open>value if suggested is None else suggested\<close>\<close>

definition keep_or :: "'a \<Rightarrow> 'a option \<Rightarrow> 'a" where
  "keep_or x y = (case y of None \<Rightarrow> x | Some z \<Rightarrow> z)"

definition suggested_action :: "string \<Rightarrow> string option \<Rightarrow> string" where
  "suggested_action action suggestion = (case suggestion of
      Some a \<Rightarrow> if a \<in> {''BUY'', ''SELL'', ''HOLD'', ''CLOSE''} then a else action
    | None \<Rightarrow> action)"

definition provider_note :: "llm_reply \<Rightarrow> string list" where
  "provider_note r = (let provider = py_strip (lr_provider r); model = py_strip (lr_model r) in
     if provider \<noteq> [] \<and> model \<noteq> [] then [''llm_provider='' @ provider @ ''/'' @ model] else [])"

text \<open>The suggestion of a reply, or the exception of the call or of reading the reply.\<close>

definition apply_planner_suggestion :: "llm_reply result \<Rightarrow> planner_decision \<Rightarrow> planner_decision" where
  "apply_planner_suggestion reply plan =
     (case rbind reply (\<lambda>r. rbind (suggest_plan r) (\<lambda>s. Inr (r, s))) of
        Inl e \<Rightarrow> plan\<lparr>pl_rationale := pl_rationale plan @ [''llm_planner_fallback='' @ class_name (exc_class e)]\<rparr>
      | Inr (r, s) \<Rightarrow> plan\<lparr>
          pl_action := suggested_action (pl_action plan) (ps_action s),
          pl_confidence := keep_or (pl_confidence plan) (map_option clamp_confidence (ps_confidence s)),
          pl_target_quantity := keep_or (pl_target_quantity plan) (ps_target_quantity s),
          pl_rationale := pl_rationale plan @ ps_rationale s @ provider_note r\<rparr>)"

definition apply_risk_suggestion :: "llm_reply result \<Rightarrow> risk_assessment \<Rightarrow> risk_assessment" where
  "apply_risk_suggestion reply risk =
     (case rbind reply (\<lambda>r. rbind (suggest_risk r) (\<lambda>s. Inr (r, s))) of
        Inl e \<Rightarrow> risk\<lparr>ra_rationale := ra_rationale risk @ [''llm_risk_fallback='' @ class_name (exc_class e)]\<rparr>
      | Inr (r, s) \<Rightarrow> risk\<lparr>
          ra_approved := keep_or (ra_approved risk) (rg_approved s),
          ra_approved_quantity := keep_or (ra_approved_quantity risk) (rg_approved_quantity s),
          ra_risk_score := keep_or (ra_risk_score risk) (map_option clamp_confidence (rg_risk_score s)),
          ra_blocked_by := (if rg_blocked_by s = [] then ra_blocked_by risk else rg_blocked_by s),
          ra_rationale := ra_rationale risk @ rg_rationale s @ provider_note r\<rparr>)"

text \<open>\<open>dict.update\<close>\<close>

definition dict_update :: "pydict \<Rightarrow> pydict \<Rightarrow> pydict" where
  "dict_update d d' = foldl (\<lambda>acc (k, v). dict_set k v acc) d d'"

definition apply_execution_suggestion :: "llm_reply result \<Rightarrow> execution_decision \<Rightarrow> execution_decision" where
  "apply_execution_suggestion reply d =
     (case rbind reply (\<lambda>r. rbind (suggest_execution r) (\<lambda>s. Inr (r, s))) of
        Inl e \<Rightarrow> d\<lparr>xd_rationale := xd_rationale d @ [''llm_execution_fallback='' @ class_name (exc_class e)]\<rparr>
      | Inr (r, s) \<Rightarrow> d\<lparr>
          xd_action := suggested_action (xd_action d) (es_action s),
          xd_quantity := keep_or (xd_quantity d) (es_quantity s),
          xd_confidence := keep_or (xd_confidence d) (map_option clamp_confidence (es_confidence s)),
          xd_constraints := dict_update (xd_constraints d) (es_constraints s),
          xd_rationale := xd_rationale d @ es_rationale s @ provider_note r\<rparr>)"


section \<open>Dictionaries of a decision\<close>

definition opt_price :: "pyfloat option \<Rightarrow> pyval" where
  "opt_price p = (case p of None \<Rightarrow> PNone | Some f \<Rightarrow> PFloat f)"

definition context_dict :: "market_context \<Rightarrow> pydict" where
  "context_dict mc =
     [(''exchange'', mc_exchange mc), (''symbol'', mc_symbol mc), (''timestamp_ms'', mc_timestamp_ms mc),
      (''best_bid'', opt_price (mc_best_bid mc)), (''best_ask'', opt_price (mc_best_ask mc)),
      (''best_bid_size'', PFloat (mc_best_bid_size mc)), (''best_ask_size'', PFloat (mc_best_ask_size mc)),
      (''mid_price'', PFloat (mc_mid_price mc)), (''spread_bps'', PFloat (mc_spread_bps mc)),
      (''orderbook_imbalance'', PFloat (mc_orderbook_imbalance mc)),
      (''microstructure_regime'', PStr (mc_microstructure_regime mc)),
      (''current_position'', PFloat (mc_current_position mc)), (''drawdown_pct'', PFloat (mc_drawdown_pct mc)),
      (''news_summary'', PStr (mc_news_summary mc)), (''news_sentiment'', PFloat (mc_news_sentiment mc)),
      (''news_source_count'', PInt (mc_news_source_count mc))]"

definition microstructure_dict :: "context_output \<Rightarrow> pydict" where
  "microstructure_dict co =
     [(''spread_bps'', PFloat (mc_spread_bps (co_context co))),
      (''orderbook_imbalance'', PFloat (mc_orderbook_imbalance (co_context co))),
      (''regime'', PStr (mc_microstructure_regime (co_context co)))]"

definition news_dict :: "context_output \<Rightarrow> pydict" where
  "news_dict co =
     [(''summary'', PStr (mc_news_summary (co_context co))), (''sentiment'', PFloat (mc_news_sentiment (co_context co))),
      (''source_count'', PInt (mc_news_source_count (co_context co))), (''is_fallback'', PBool (\<not> co_has_news co))]"

definition quality_dict :: "context_output \<Rightarrow> pydict" where
  "quality_dict co =
     [(''has_orderbook'', PBool (co_has_orderbook co)), (''has_news'', PBool (co_has_news co)),
      (''context_score'', PFloat (co_context_score co))]"

definition str_list :: "string list \<Rightarrow> pyval" where
  "str_list ss = PList (map PStr ss)"

definition metrics_dict :: "(string \<times> pyfloat) list \<Rightarrow> pyval" where
  "metrics_dict ms = PDict (map (\<lambda>(k, x). (k, PFloat x)) ms)"

definition plan_dict :: "planner_decision \<Rightarrow> pydict" where
  "plan_dict plan =
     [(''action'', PStr (pl_action plan)), (''confidence'', PFloat (pl_confidence plan)),
      (''target_quantity'', PFloat (pl_target_quantity plan)), (''rationale'', str_list (pl_rationale plan)),
      (''metrics'', metrics_dict (pl_metrics plan))]"

definition risk_dict :: "risk_assessment \<Rightarrow> pydict" where
  "risk_dict risk =
     [(''approved'', PBool (ra_approved risk)), (''approved_quantity'', PFloat (ra_approved_quantity risk)),
      (''blocked_by'', str_list (ra_blocked_by risk)), (''risk_score'', PFloat (ra_risk_score risk))]"

definition signal_dict :: "risk_signal \<Rightarrow> pyval" where
  "signal_dict s = PDict [(''name'', PStr (rs_name s)), (''passed'', PBool (rs_passed s)), (''value'', PFloat (rs_value s)),
     (''limit'', PFloat (rs_limit s)), (''message'', PStr (rs_message s))]"

definition execution_dict :: "execution_decision \<Rightarrow> pydict" where
  "execution_dict d =
     [(''action'', PStr (xd_action d)), (''quantity'', PFloat (xd_quantity d)), (''confidence'', PFloat (xd_confidence d)),
      (''rationale'', str_list (xd_rationale d)), (''constraints'', PDict (xd_constraints d))]"

text \<open>A violation holds \<open>Decimal\<close>s, which message values do not have: how one is represented is the
  argument \<open>dec_repr\<close>.\<close>

definition detail_val :: "(xdec \<Rightarrow> pyval) \<Rightarrow> detail \<Rightarrow> pyval" where
  "detail_val dec_repr x = (case x of
      DText s \<Rightarrow> PStr s | DTexts ss \<Rightarrow> str_list ss | DFlag b \<Rightarrow> PBool b | DFloat f \<Rightarrow> PFloat f | DDecimal d \<Rightarrow> dec_repr d)"

definition violation_dict :: "(xdec \<Rightarrow> pyval) \<Rightarrow> guardrail_violation \<Rightarrow> pyval" where
  "violation_dict dec_repr v = PDict [(''code'', PStr (gv_code v)), (''message'', PStr (gv_message v)),
     (''details'', PDict (map (\<lambda>(k, x). (k, detail_val dec_repr x)) (gv_details v)))]"

definition guardrail_dict :: "(xdec \<Rightarrow> pyval) \<Rightarrow> guardrail_result \<Rightarrow> pydict" where
  "guardrail_dict dec_repr g =
     [(''allowed'', PBool (gd_allowed g)), (''blocked_by'', str_list (gd_blocked_by g)),
      (''checks'', PDict (map (\<lambda>(k, b). (k, PBool b)) (gd_checks g))),
      (''violations'', PList (map (violation_dict dec_repr) (gd_violations g)))]"

section \<open>The orchestrator\<close>

record 'm orchestrator =
  oc_memory_ops :: "'m memory_ops"
  oc_ttl_seconds :: int
  oc_llm_runtime :: bool
  oc_bridge :: "notification_bridge option"
  oc_service_name :: string
  oc_dec_repr :: "xdec \<Rightarrow> pyval"

record 'm orchestrator_state =
  oz_memory :: 'm
  oz_metrics :: agent_metrics
  oz_broker :: broker

text \<open>What one decision reads from outside: the replies of the language model, the readings around each
  stage, the clock of each envelope by its event type, and the identifiers and clock readings of the
  bridge by position in the lifecycle.\<close>

record orchestrator_io =
  oi_planner_reply :: "llm_reply result"
  oi_risk_reply :: "llm_reply result"
  oi_execution_reply :: "llm_reply result"
  oi_stage :: "string \<Rightarrow> agent_stage_times"
  oi_now :: "string \<Rightarrow> int"
  oi_persisted_at :: string
  oi_bridge_uuid :: "nat \<Rightarrow> string"
  oi_bridge_now :: "nat \<Rightarrow> int"

record orchestration_result =
  or_ids :: decision_ids
  or_status :: string
  or_lifecycle :: "pydict list"
  or_context :: context_output
  or_plan :: planner_decision
  or_risk :: risk_assessment
  or_execution :: execution_decision
  or_guardrail :: guardrail_result
  or_execution_intent :: "pydict option"

definition in_memory :: "('m, 'a) action \<Rightarrow> ('m orchestrator_state, 'a) action" where
  "in_memory op s = (case op (oz_memory s) of (r, m) \<Rightarrow> (r, s\<lparr>oz_memory := m\<rparr>))"

definition run_stage ::
    "orchestrator_io \<Rightarrow> decision_ids \<Rightarrow> string \<Rightarrow> ('m orchestrator_state, 'a) action \<Rightarrow> ('m orchestrator_state, 'a) action" where
  "run_stage io ids stage op s = (case op s of
      (Inl e, s') \<Rightarrow> (Inl e, s'\<lparr>oz_metrics := record_stage_failure ids stage (oi_stage io stage)
        (class_name (exc_class e)) (oz_metrics s')\<rparr>)
    | (Inr x, s') \<Rightarrow> (Inr x, s'\<lparr>oz_metrics := record_stage_success ids stage (oi_stage io stage) (oz_metrics s')\<rparr>))"

definition write_slot ::
    "'m orchestrator \<Rightarrow> decision_ids \<Rightarrow> strategy_config \<Rightarrow> string \<Rightarrow> pydict \<Rightarrow> ('m orchestrator_state, unit) action" where
  "write_slot oc ids strategy slot payload = in_memory (write_decision_slot (oc_memory_ops oc) (oc_ttl_seconds oc)
     (di_mode ids) (sc_strategy_id strategy) (di_decision_id ids) slot payload)"

text \<open>A stage that runs only with a language model\<close>

definition llm_stage ::
    "'m orchestrator \<Rightarrow> orchestrator_io \<Rightarrow> decision_ids \<Rightarrow> string \<Rightarrow> 'a \<Rightarrow> 'a \<Rightarrow> ('m orchestrator_state, 'a) action" where
  "llm_stage oc io ids stage suggested heuristic =
     (if oc_llm_runtime oc then run_stage io ids stage (slift (Inr suggested)) else slift (Inr heuristic))"

record decision_parts =
  dp_context :: context_output
  dp_plan :: planner_decision
  dp_risk :: risk_assessment
  dp_execution :: execution_decision
  dp_guardrail :: guardrail_result

text \<open>The stages of \<open>handle_market_event\<close>, each with the slot it writes.\<close>

definition run_stages ::
    "'m orchestrator \<Rightarrow> orchestrator_io \<Rightarrow> decision_ids \<Rightarrow> strategy_config \<Rightarrow> pydict
      \<Rightarrow> ('m orchestrator_state, decision_parts) action" where
  "run_stages oc io ids strategy payload =
     sbind (run_stage io ids ''memory_read'' (in_memory (read_decision_memory (oc_memory_ops oc) (oc_ttl_seconds oc)
       (di_mode ids) (sc_strategy_id strategy) (di_decision_id ids)))) (\<lambda>_.
     sbind (run_stage io ids ''market_context_agent'' (slift (enrich payload strategy))) (\<lambda>co.
     sbind (write_slot oc ids strategy ''context'' [(''market_context'', PDict (context_dict (co_context co))),
       (''microstructure'', PDict (microstructure_dict co)), (''news'', PDict (news_dict co)),
       (''quality'', PDict (quality_dict co)), (''notes'', str_list (co_notes co))]) (\<lambda>_.
     sbind (run_stage io ids ''planner_agent'' (slift (build_plan (co_context co) strategy))) (\<lambda>plan0.
     sbind (llm_stage oc io ids ''planner_llm'' (apply_planner_suggestion (oi_planner_reply io) plan0) plan0) (\<lambda>plan.
     sbind (write_slot oc ids strategy ''plan'' (plan_dict plan)) (\<lambda>_.
     sbind (run_stage io ids ''risk_agent'' (slift (Inr (risk_evaluate plan (co_context co) strategy)))) (\<lambda>risk0.
     sbind (llm_stage oc io ids ''risk_llm'' (apply_risk_suggestion (oi_risk_reply io) risk0) risk0) (\<lambda>risk.
     sbind (write_slot oc ids strategy ''risk'' (risk_dict risk
       @ [(''signals'', PList (map signal_dict (ra_signals risk)))])) (\<lambda>_.
     sbind (run_stage io ids ''execution_decision_agent''
       (slift (Inr (propose_action plan risk (co_context co) strategy)))) (\<lambda>decision0.
     sbind (llm_stage oc io ids ''execution_decision_llm''
       (apply_execution_suggestion (oi_execution_reply io) decision0) decision0) (\<lambda>decision.
     sbind (write_slot oc ids strategy ''execution_decision'' (execution_dict decision)) (\<lambda>_.
     sbind (run_stage io ids ''guardrail_validation''
       (slift (guardrail_validate strategy (co_context co) risk decision))) (\<lambda>guardrail.
     sbind (write_slot oc ids strategy ''guardrail'' (guardrail_dict (oc_dec_repr oc) guardrail)) (\<lambda>_.
     slift (Inr \<lparr>dp_context = co, dp_plan = plan, dp_risk = risk, dp_execution = decision,
       dp_guardrail = guardrail\<rparr>)))))))))))))))"


section \<open>Envelopes of a decision\<close>

definition agent_envelope ::
    "'m orchestrator \<Rightarrow> orchestrator_io \<Rightarrow> decision_ids \<Rightarrow> string \<Rightarrow> string \<Rightarrow> pydict \<Rightarrow> pydict result" where
  "agent_envelope oc io ids event_type idempotency_key payload =
     (let envelope = [
        (''trace_id'', PStr (di_trace_id ids)), (''decision_id'', PStr (di_decision_id ids)),
        (''mode'', PStr (di_mode ids)), (''idempotency_key'', PStr idempotency_key), (''event_type'', PStr event_type),
        (''emitted_at'', PStr (iso_utc (oi_now io event_type))), (''payload'', PDict payload),
        (''service'', PStr (oc_service_name oc))] in
      rbind (validate_envelope (PDict envelope)) (\<lambda>_. Inr envelope))"

text \<open>The first lines of every lifecycle payload\<close>

definition subject_of :: "strategy_config \<Rightarrow> decision_parts \<Rightarrow> pydict" where
  "subject_of strategy dp =
     [(''strategy_id'', PStr (sc_strategy_id strategy)), (''symbol'', mc_symbol (co_context (dp_context dp)))]"

type_synonym event_plan = "(string \<times> string \<times> pydict) list"

definition early_events :: "decision_ids \<Rightarrow> strategy_config \<Rightarrow> decision_parts \<Rightarrow> event_plan" where
  "early_events ids strategy dp =
     (let co = dp_context dp; plan = dp_plan dp; decision_id = di_decision_id ids in
      [(''agent.decision.received'', ''agent.decision.received:'' @ decision_id, subject_of strategy dp),
       (''agent.decision.context_enriched'', ''agent.decision.context_enriched:'' @ decision_id,
         subject_of strategy dp @
         [(''microstructure'', PDict (microstructure_dict co)),
          (''news'', PDict [(''summary'', PStr (mc_news_summary (co_context co))),
             (''sentiment'', PFloat (mc_news_sentiment (co_context co))),
             (''source_count'', PInt (mc_news_source_count (co_context co)))]),
          (''quality'', PDict (quality_dict co)), (''notes'', str_list (co_notes co))]),
       (''agent.decision.planned'', ''agent.decision.planned:'' @ decision_id,
         subject_of strategy dp @
         [(''action'', PStr (pl_action plan)), (''target_quantity'', PFloat (pl_target_quantity plan)),
          (''confidence'', PFloat (pl_confidence plan)), (''metrics'', metrics_dict (pl_metrics plan))])])"

definition decision_status :: "decision_parts \<Rightarrow> string" where
  "decision_status dp =
     (if \<not> ra_approved (dp_risk dp) then ''RISK_REJECTED''
      else if \<not> gd_allowed (dp_guardrail dp) then ''GUARDRAIL_REJECTED''
      else ''RISK_APPROVED'')"

definition late_events ::
    "(xdec \<Rightarrow> pyval) \<Rightarrow> decision_ids \<Rightarrow> strategy_config \<Rightarrow> decision_parts \<Rightarrow> event_plan" where
  "late_events dec_repr ids strategy dp =
     (let risk = dp_risk dp; d = dp_execution dp; g = dp_guardrail dp; decision_id = di_decision_id ids in
      [(if ra_approved risk then ''agent.decision.risk_approved'' else ''agent.decision.risk_rejected'',
        ''agent.decision.risk:'' @ decision_id @ '':'' @ decision_status dp,
        subject_of strategy dp @
        [(''approved'', PBool (ra_approved risk)), (''blocked_by'', str_list (ra_blocked_by risk)),
         (''risk_score'', PFloat (ra_risk_score risk))]),
       (''agent.decision.action_proposed'', ''agent.decision.action_proposed:'' @ decision_id,
        subject_of strategy dp @
        [(''action'', PStr (xd_action d)), (''quantity'', PFloat (xd_quantity d)),
         (''confidence'', PFloat (xd_confidence d)), (''constraints'', PDict (xd_constraints d))]),
       (if gd_allowed g then ''agent.decision.guardrail_passed'' else ''agent.decision.guardrail_rejected'',
        ''agent.decision.guardrail:'' @ decision_id @ '':'' @ (if gd_allowed g then ''pass'' else ''reject''),
        subject_of strategy dp @ guardrail_dict dec_repr g)])"

definition build_events ::
    "'m orchestrator \<Rightarrow> orchestrator_io \<Rightarrow> decision_ids \<Rightarrow> event_plan \<Rightarrow> pydict list result" where
  "build_events oc io ids = rmap (\<lambda>(event_type, key, payload). agent_envelope oc io ids event_type key payload)"

section \<open>The execution intent\<close>

definition should_publish_intent :: "decision_parts \<Rightarrow> bool" where
  "should_publish_intent dp \<longleftrightarrow> ra_approved (dp_risk dp) \<and> gd_allowed (dp_guardrail dp)
     \<and> truthy (pget (xd_constraints (dp_execution dp)) ''schema_valid'' (PBool False))
     \<and> xd_action (dp_execution dp) \<in> {''BUY'', ''SELL'', ''CLOSE''}
     \<and> \<not> feq (xd_quantity (dp_execution dp)) (Fin 0)"

definition intent_payload :: "decision_ids \<Rightarrow> strategy_config \<Rightarrow> decision_parts \<Rightarrow> pydict" where
  "intent_payload ids strategy dp =
     (let mc = co_context (dp_context dp); d = dp_execution dp; constraints = xd_constraints d;
          exchange0 = py_lower (py_strip (py_str (mc_exchange mc)));
          exchange = (if exchange0 = [] then ''binance'' else exchange0);
          order_type0 = norm_upper (py_str (pget constraints ''order_type'' (PStr ''MARKET'')));
          order_type = (if order_type0 = [] then ''MARKET'' else order_type0);
          time_in_force0 = pget constraints ''time_in_force'' PNone;
          time_in_force = (if non_empty_text time_in_force0 then time_in_force0
            else if order_type = ''LIMIT'' then PStr ''GTC'' else PNone);
          client_order_id = py_str (pget constraints ''client_order_id''
            (PStr (sc_strategy_id strategy @ ''-'' @ take 12 (di_decision_id ids))))
      in [(''strategy_id'', PStr (sc_strategy_id strategy)), (''symbol'', mc_symbol mc),
          (''action'', PStr (xd_action d)), (''quantity'', PFloat (xd_quantity d)),
          (''confidence'', PFloat (xd_confidence d)), (''exchange'', PStr exchange),
          (''order_type'', PStr order_type), (''time_in_force'', time_in_force),
          (''limit_price'', pget constraints ''limit_price'' PNone),
          (''trigger_price'', pget constraints ''trigger_price'' PNone),
          (''reduce_only'', PBool (xd_action d = ''CLOSE'')), (''client_order_id'', PStr client_order_id),
          (''rationale'', str_list (xd_rationale d)), (''constraints'', PDict constraints),
          (''market_context'', PDict [
             (''mid_price'', PFloat (mc_mid_price mc)), (''best_bid'', opt_price (mc_best_bid mc)),
             (''best_ask'', opt_price (mc_best_ask mc)), (''spread_bps'', PFloat (mc_spread_bps mc)),
             (''orderbook_imbalance'', PFloat (mc_orderbook_imbalance mc)),
             (''microstructure_regime'', PStr (mc_microstructure_regime mc)),
             (''news_summary'', PStr (mc_news_summary mc)), (''news_sentiment'', PFloat (mc_news_sentiment mc))])])"


section \<open>Handling a market event\<close>

definition publish_op :: "string \<Rightarrow> pydict \<Rightarrow> ('m orchestrator_state, unit) action" where
  "publish_op routing_key message s = (case broker_publish routing_key (PDict message) (oz_broker s) of
      Inl e \<Rightarrow> (Inl e, s)
    | Inr (_, b) \<Rightarrow> (Inr (), s\<lparr>oz_broker := b\<rparr>))"

definition bridge_op ::
    "notification_bridge \<Rightarrow> string \<Rightarrow> int \<Rightarrow> pydict \<Rightarrow> ('m orchestrator_state, unit) action" where
  "bridge_op bridge fresh_uuid now event s =
     (case publish_strategy_event bridge fresh_uuid now event (oz_broker s) of
        Inl e \<Rightarrow> (Inl e, s)
      | Inr (_, b) \<Rightarrow> (Inr (), s\<lparr>oz_broker := b\<rparr>))"

definition LIFECYCLE_KEY :: string where
  "LIFECYCLE_KEY = ''strategy.decision.lifecycle''"

text \<open>The loop over the lifecycle; \<open>i\<close> counts its rounds.\<close>

fun publish_lifecycle ::
    "'m orchestrator \<Rightarrow> orchestrator_io \<Rightarrow> nat \<Rightarrow> pydict list \<Rightarrow> ('m orchestrator_state, unit) action" where
  "publish_lifecycle oc io i [] = slift (Inr ())"
| "publish_lifecycle oc io i (event # events) =
     sbind (publish_op LIFECYCLE_KEY event) (\<lambda>_.
     sbind (case oc_bridge oc of
         None \<Rightarrow> slift (Inr ())
       | Some bridge \<Rightarrow> bridge_op bridge (oi_bridge_uuid io i) (oi_bridge_now io i) event) (\<lambda>_.
     publish_lifecycle oc io (Suc i) events))"

text \<open>The intent and its lifecycle event; both are checked before the intent is published.\<close>

definition publish_intent ::
    "'m orchestrator \<Rightarrow> orchestrator_io \<Rightarrow> decision_ids \<Rightarrow> strategy_config \<Rightarrow> decision_parts
      \<Rightarrow> ('m orchestrator_state, pydict \<times> pydict) action" where
  "publish_intent oc io ids strategy dp =
     sbind (slift (agent_envelope oc io ids ''execution.intent.created''
       (''execution.intent:'' @ py_lower (di_mode ids) @ '':'' @ di_decision_id ids) (intent_payload ids strategy dp))) (\<lambda>intent.
     sbind (slift (route_execution_intent (PDict intent))) (\<lambda>routing_key.
     sbind (slift (assert_no_mode_leakage routing_key (PDict intent))) (\<lambda>_.
     sbind (slift (agent_envelope oc io ids ''agent.decision.intent_published''
       (''agent.decision.intent_published:'' @ di_decision_id ids)
       (subject_of strategy dp @ [(''routing_key'', PStr routing_key),
         (''action'', PStr (xd_action (dp_execution dp)))]))) (\<lambda>published.
     sbind (publish_op routing_key intent) (\<lambda>_.
     slift (Inr (intent, published)))))))"

definition persist_stage ::
    "'m orchestrator \<Rightarrow> orchestrator_io \<Rightarrow> decision_ids \<Rightarrow> strategy_config \<Rightarrow> decision_parts \<Rightarrow> pydict list
      \<Rightarrow> ('m orchestrator_state, memory_record) action" where
  "persist_stage oc io ids strategy dp lifecycle =
     run_stage io ids ''memory_persist'' (in_memory (persist_decision_summary (oc_memory_ops oc) (oc_ttl_seconds oc)
       (oi_persisted_at io) ids (sc_strategy_id strategy) (decision_status dp) (context_dict (co_context (dp_context dp)))
       (plan_dict (dp_plan dp)) (risk_dict (dp_risk dp)) (execution_dict (dp_execution dp))
       (guardrail_dict (oc_dec_repr oc) (dp_guardrail dp)) lifecycle))"

text \<open>From the decision to the end: lifecycle, status slot, intent, memory, publication.\<close>

definition conclude ::
    "'m orchestrator \<Rightarrow> orchestrator_io \<Rightarrow> decision_ids \<Rightarrow> strategy_config \<Rightarrow> decision_parts
      \<Rightarrow> ('m orchestrator_state, orchestration_result) action" where
  "conclude oc io ids strategy dp =
     sbind (slift (build_events oc io ids (early_events ids strategy dp))) (\<lambda>early.
     sbind (write_slot oc ids strategy ''status'' [(''status'', PStr (decision_status dp))]) (\<lambda>_.
     sbind (slift (build_events oc io ids (late_events (oc_dec_repr oc) ids strategy dp))) (\<lambda>late.
     sbind (if should_publish_intent dp
         then sbind (publish_intent oc io ids strategy dp) (\<lambda>(intent, published). slift (Inr (Some intent, [published])))
         else slift (Inr (None, []))) (\<lambda>(intent, published).
     sbind (persist_stage oc io ids strategy dp (early @ late @ published)) (\<lambda>_.
     sbind (publish_lifecycle oc io 0 (early @ late @ published)) (\<lambda>_.
     slift (Inr \<lparr>or_ids = ids, or_status = decision_status dp, or_lifecycle = early @ late @ published,
       or_context = dp_context dp, or_plan = dp_plan dp, or_risk = dp_risk dp, or_execution = dp_execution dp,
       or_guardrail = dp_guardrail dp, or_execution_intent = intent\<rparr>)))))))"

definition ids_of :: "pydict \<Rightarrow> decision_ids result" where
  "ids_of envelope =
     rbind (pindex envelope ''mode'') (\<lambda>mode.
     rbind (pindex envelope ''trace_id'') (\<lambda>trace_id.
     rbind (pindex envelope ''decision_id'') (\<lambda>decision_id.
     Inr \<lparr>di_trace_id = py_str trace_id, di_decision_id = py_str decision_id, di_mode = py_str mode\<rparr>)))"

definition handle_market_event ::
    "'m orchestrator \<Rightarrow> orchestrator_io \<Rightarrow> strategy_config \<Rightarrow> pyval \<Rightarrow> ('m orchestrator_state, orchestration_result) action" where
  "handle_market_event oc io strategy envelope =
     sbind (slift (validate_envelope envelope)) (\<lambda>_.
     let env = as_dict envelope in
     if \<not> starts_with ''market.canonical'' (py_str (pget env ''event_type'' (PStr []))) then
       slift (Inl (Exc ValueError ''AgentOrchestrator expects market.canonical envelopes''))
     else
       sbind (slift (ids_of env)) (\<lambda>ids.
       sbind (run_stages oc io ids strategy (as_dict (pget env ''payload'' PNone))) (\<lambda>dp.
       conclude oc io ids strategy dp)))"

section \<open>What stays as it is\<close>

text \<open>A property of the broker alone does not see memory and metrics.\<close>

definition on_broker :: "(broker \<Rightarrow> bool) \<Rightarrow> 'm orchestrator_state \<Rightarrow> bool" where
  "on_broker P s \<longleftrightarrow> P (oz_broker s)"

lemma keeps_in_memory: "keeps (on_broker P) (\<lambda>_. True) (in_memory op)"
  by (auto simp: keeps_def in_memory_def on_broker_def ensures_def split: prod.splits)

lemma keeps_run_stage: "keeps (on_broker P) Q op \<Longrightarrow> keeps (on_broker P) Q (run_stage io ids stage op)"
  unfolding keeps_def run_stage_def on_broker_def
  by (fastforce simp: ensures_def split: prod.splits sum.splits)

lemma keeps_lift_stage: "keeps (on_broker P) (\<lambda>x. r = Inr x) (run_stage io ids stage (slift r))"
  by (rule keeps_run_stage) (simp add: keeps_slift ensures_def)

lemma keeps_any_stage: "keeps (on_broker P) (\<lambda>_. True) (run_stage io ids stage (slift r))"
  by (rule keeps_run_stage) (simp add: keeps_slift ensures_def)

lemma keeps_write_slot: "keeps (on_broker P) (\<lambda>_. True) (write_slot oc ids strategy slot payload)"
  by (simp add: write_slot_def keeps_in_memory)

lemma keeps_llm_stage: "keeps (on_broker P) (\<lambda>_. True) (llm_stage oc io ids stage x y)"
  by (simp add: llm_stage_def keeps_any_stage keeps_slift ensures_def)

lemmas keeps_steps = keeps_run_stage[OF keeps_in_memory] keeps_write_slot keeps_llm_stage keeps_lift_stage

text \<open>The stages leave the broker alone, and their guardrail result is the one for the decision they return.\<close>

lemma run_stages_guarded:
  "keeps (on_broker P)
     (\<lambda>dp. guardrail_validate strategy (co_context (dp_context dp)) (dp_risk dp) (dp_execution dp) = Inr (dp_guardrail dp))
     (run_stages oc io ids strategy payload)"
  unfolding run_stages_def
  by ((rule keeps_sbind, rule keeps_steps)+) (simp add: keeps_slift ensures_def)

text \<open>The broker \<open>b\<close> with nothing added to the queues \<open>Q\<close>.\<close>

definition same_queues :: "broker \<Rightarrow> string set \<Rightarrow> broker \<Rightarrow> bool" where
  "same_queues b Q b' \<longleftrightarrow> broker_ok b' \<and> (\<forall>k q. routed b' k q = routed b k q)
     \<and> (\<forall>q\<in>Q. queue_contents q b' = queue_contents q b)"

lemma keeps_publish_op:
  assumes "\<forall>q\<in>Q. \<not> routed b key q"
  shows "keeps (on_broker (same_queues b Q)) (\<lambda>_. True) (publish_op key m)"
  unfolding keeps_def on_broker_def
proof (intro allI impI)
  fix s :: "'m orchestrator_state" assume s: "same_queues b Q (oz_broker s)"
  then have "broker_ok (oz_broker s)" by (simp add: same_queues_def)
  from broker_publish_returns[OF this, of key m] obtain ps b' where
    "broker_publish key (PDict m) (oz_broker s) = Inr (ps, b')" "broker_ok b'"
    "\<forall>k q. routed b' k q = routed (oz_broker s) k q"
    "\<forall>q. queue_contents q b' = queue_contents q (oz_broker s) @ (if routed (oz_broker s) key q then [m] else [])"
    by (auto simp: returns_iff)
  then show "case publish_op key m s of (r, s') \<Rightarrow> same_queues b Q (oz_broker s') \<and> ensures (\<lambda>_. True) r"
    using s assms by (simp add: publish_op_def same_queues_def ensures_def)
qed

lemma bridge_op_publishes:
  "bridge_op br fresh now e s =
     (let env = notification_envelope br fresh now e ''notify.strategy.event'' in
      case validate_envelope (PDict env) of Inl x \<Rightarrow> (Inl x, s) | Inr _ \<Rightarrow> publish_op (nb_routing_key br) env s)"
  by (simp add: bridge_op_def publish_strategy_event_def publish_from_source_def publish_op_def Let_def rbind_def
      split: sum.splits prod.splits)

lemma keeps_bridge_op:
  assumes "\<forall>q\<in>Q. \<not> routed b (nb_routing_key br) q"
  shows "keeps (on_broker (same_queues b Q)) (\<lambda>_. True) (bridge_op br fresh now e)"
  using keeps_publish_op[OF assms, of "notification_envelope br fresh now e ''notify.strategy.event''"]
  unfolding keeps_def bridge_op_publishes Let_def by (fastforce simp: ensures_def split: sum.splits prod.splits)

definition bridge_avoids :: "'m orchestrator \<Rightarrow> broker \<Rightarrow> string \<Rightarrow> bool" where
  "bridge_avoids oc b q = (case oc_bridge oc of None \<Rightarrow> True | Some br \<Rightarrow> \<not> routed b (nb_routing_key br) q)"

lemma keeps_publish_lifecycle:
  assumes "\<forall>q\<in>Q. \<not> routed b LIFECYCLE_KEY q" "\<forall>q\<in>Q. bridge_avoids oc b q"
  shows "keeps (on_broker (same_queues b Q)) (\<lambda>_. True) (publish_lifecycle oc io i events)"
proof (induction events arbitrary: i)
  case (Cons e es)
  have "keeps (on_broker (same_queues b Q)) (\<lambda>_. True)
      (case oc_bridge oc of None \<Rightarrow> slift (Inr ()) | Some br \<Rightarrow> bridge_op br (oi_bridge_uuid io i) (oi_bridge_now io i) e)"
    using assms(2) keeps_bridge_op by (auto simp: bridge_avoids_def keeps_slift ensures_def split: option.splits)
  then show ?case
    unfolding publish_lifecycle.simps by (intro keeps_sbind[OF keeps_publish_op[OF assms(1)]] keeps_sbind Cons.IH)
qed (simp add: keeps_slift ensures_def)

definition mode_key :: "string \<Rightarrow> string" where
  "mode_key mode = (if mode = ''MOCK'' then MOCK_ROUTING_KEY else REAL_ROUTING_KEY)"


definition envelope_of :: "decision_ids \<Rightarrow> string \<Rightarrow> pydict \<Rightarrow> pydict \<Rightarrow> bool" where
  "envelope_of ids event_type payload env \<longleftrightarrow> envelope_ok (PDict env)
     \<and> dict_get env ''trace_id'' = Some (PStr (di_trace_id ids)) \<and> dict_get env ''decision_id'' = Some (PStr (di_decision_id ids))
     \<and> dict_get env ''mode'' = Some (PStr (di_mode ids)) \<and> dict_get env ''event_type'' = Some (PStr event_type)
     \<and> dict_get env ''payload'' = Some (PDict payload)"

lemma agent_envelope_ensures:
  "ensures (envelope_of ids event_type payload) (agent_envelope oc io ids event_type key payload)"
  by (auto simp: ensures_def agent_envelope_def envelope_of_def Let_def result_simps validate_envelope_iff)

text \<open>The intent of a decision: an envelope of its identifiers and mode whose payload carries the decision.\<close>

abbreviation intent_of :: "decision_ids \<Rightarrow> strategy_config \<Rightarrow> decision_parts \<Rightarrow> pydict \<Rightarrow> bool" where
  "intent_of ids strategy dp \<equiv> envelope_of ids ''execution.intent.created'' (intent_payload ids strategy dp)"

lemma intent_routes:
  "intent_of ids strategy dp intent \<Longrightarrow> route_execution_intent (PDict intent) = Inr (mode_key (di_mode ids))"
  by (simp add: route_execution_intent_iff envelope_of_def intent_type_def is_mode_def mode_key_def)

lemma keeps_publish_intent:
  assumes "\<forall>q\<in>Q. \<not> routed b (mode_key (di_mode ids)) q"
  shows "keeps (on_broker (same_queues b Q)) (\<lambda>(intent, _). intent_of ids strategy dp intent)
    (publish_intent oc io ids strategy dp)"
  unfolding publish_intent_def
proof (rule keeps_sbind[where Q = "intent_of ids strategy dp"])
  fix intent assume i: "intent_of ids strategy dp intent"
  note any = keeps_sbind[where Q = "\<lambda>_. True"]
  show "keeps (on_broker (same_queues b Q)) (\<lambda>(intent, _). intent_of ids strategy dp intent)
    (sbind (slift (route_execution_intent (PDict intent))) (\<lambda>routing_key.
     sbind (slift (assert_no_mode_leakage routing_key (PDict intent))) (\<lambda>_.
     sbind (slift (agent_envelope oc io ids ''agent.decision.intent_published''
       (''agent.decision.intent_published:'' @ di_decision_id ids)
       (subject_of strategy dp @ [(''routing_key'', PStr routing_key),
         (''action'', PStr (xd_action (dp_execution dp)))]))) (\<lambda>published.
     sbind (publish_op routing_key intent) (\<lambda>_. slift (Inr (intent, published)))))))"
    apply (rule keeps_sbind[where Q = "\<lambda>k. k = mode_key (di_mode ids)"])
     apply (simp add: intent_routes[OF i] keeps_slift ensures_def)
    apply (rule any, simp add: keeps_slift ensures_def)
    apply (rule any, simp add: keeps_slift ensures_def)
    apply (rule any)
     apply (simp, rule keeps_publish_op[OF assms])
    apply (use i in \<open>simp add: keeps_slift ensures_def\<close>)
    done
qed (simp add: keeps_slift agent_envelope_ensures)

definition result_of :: "decision_ids \<Rightarrow> strategy_config \<Rightarrow> decision_parts \<Rightarrow> orchestration_result \<Rightarrow> bool" where
  "result_of ids strategy dp r \<longleftrightarrow> or_ids r = ids \<and> or_status r = decision_status dp
     \<and> or_context r = dp_context dp \<and> or_risk r = dp_risk dp \<and> or_execution r = dp_execution dp
     \<and> or_guardrail r = dp_guardrail dp
     \<and> (case or_execution_intent r of
          None \<Rightarrow> \<not> should_publish_intent dp
        | Some intent \<Rightarrow> should_publish_intent dp \<and> intent_of ids strategy dp intent)"

lemma keeps_conclude:
  assumes "\<forall>q\<in>Q. \<not> routed b LIFECYCLE_KEY q" "\<forall>q\<in>Q. bridge_avoids oc b q"
    and "\<forall>q\<in>Q. \<not> routed b (mode_key (di_mode ids)) q"
  shows "keeps (on_broker (same_queues b Q)) (result_of ids strategy dp) (conclude oc io ids strategy dp)"
proof -
  let ?K = "\<lambda>(i, _). case i of None \<Rightarrow> \<not> should_publish_intent dp
    | Some intent \<Rightarrow> should_publish_intent dp \<and> intent_of ids strategy dp intent"
  have i: "keeps (on_broker (same_queues b Q)) ?K (if should_publish_intent dp
      then sbind (publish_intent oc io ids strategy dp) (\<lambda>(intent, published). slift (Inr (Some intent, [published])))
      else slift (Inr (None, [])))"
    by (cases "should_publish_intent dp")
      (auto simp: keeps_slift ensures_def intro!: keeps_sbind[OF keeps_publish_intent[OF assms(3)]])
  note any = keeps_sbind[where Q = "\<lambda>_. True"]
  show ?thesis
    unfolding conclude_def
    apply (rule any, simp add: keeps_slift ensures_def)
    apply (rule any, rule keeps_write_slot)
    apply (rule any, simp add: keeps_slift ensures_def)
    apply (rule keeps_sbind[OF i])
    apply (simp only: split_beta)
    apply (rule any, simp only: persist_stage_def, rule keeps_run_stage[OF keeps_in_memory])
    apply (rule any, rule keeps_publish_lifecycle[OF assms(1,2)])
    apply (simp add: keeps_slift ensures_def result_of_def)
    done
qed

lemma envelope_ids:
  assumes "envelope_ok envelope" "is_mode mode envelope"
  shows "returns (\<lambda>ids. di_mode ids = mode \<and> dict_get (as_dict envelope) ''trace_id'' = Some (PStr (di_trace_id ids))
    \<and> dict_get (as_dict envelope) ''decision_id'' = Some (PStr (di_decision_id ids))) (ids_of (as_dict envelope))"
  using assms by (auto elim!: envelope_okE simp: ids_of_def is_mode_def pindex_def returns_def)

definition decided :: "string \<Rightarrow> strategy_config \<Rightarrow> pyval \<Rightarrow> orchestration_result \<Rightarrow> bool" where
  "decided mode strategy envelope r \<longleftrightarrow> (\<exists>ids dp. di_mode ids = mode
     \<and> dict_get (as_dict envelope) ''trace_id'' = Some (PStr (di_trace_id ids))
     \<and> dict_get (as_dict envelope) ''decision_id'' = Some (PStr (di_decision_id ids))
     \<and> guardrail_validate strategy (co_context (dp_context dp)) (dp_risk dp) (dp_execution dp) = Inr (dp_guardrail dp)
     \<and> result_of ids strategy dp r)"

lemma keeps_handle_market_event:
  assumes "\<forall>q\<in>Q. \<not> routed b LIFECYCLE_KEY q" "\<forall>q\<in>Q. bridge_avoids oc b q"
    and "is_mode mode envelope" "\<forall>q\<in>Q. \<not> routed b (mode_key mode) q"
  shows "keeps (on_broker (same_queues b Q)) (decided mode strategy envelope) (handle_market_event oc io strategy envelope)"
  unfolding handle_market_event_def Let_def
proof (rule keeps_sbind[where Q = "\<lambda>_. envelope_ok envelope"])
  show "keeps (on_broker (same_queues b Q)) (\<lambda>_. envelope_ok envelope) (slift (validate_envelope envelope))"
    using validate_envelope_iff[of envelope] by (auto simp: keeps_slift ensures_def)
  assume ok: "envelope_ok envelope"
  from envelope_ids[OF ok assms(3)] obtain ids where ids: "ids_of (as_dict envelope) = Inr ids" "di_mode ids = mode"
    "dict_get (as_dict envelope) ''trace_id'' = Some (PStr (di_trace_id ids))"
    "dict_get (as_dict envelope) ''decision_id'' = Some (PStr (di_decision_id ids))"
    by (auto simp: returns_iff)
  have "keeps (on_broker (same_queues b Q)) (decided mode strategy envelope)
    (sbind (run_stages oc io ids strategy p) (\<lambda>dp. conclude oc io ids strategy dp))" for p
  proof (rule keeps_sbind[OF run_stages_guarded[where strategy = strategy]])
    fix dp :: decision_parts
    assume "guardrail_validate strategy (co_context (dp_context dp)) (dp_risk dp) (dp_execution dp) = Inr (dp_guardrail dp)"
    then show "keeps (on_broker (same_queues b Q)) (decided mode strategy envelope) (conclude oc io ids strategy dp)"
      using assms(4) ids(2-4)
      by (intro keeps_mono[OF keeps_conclude[OF assms(1,2)]]) (auto simp: decided_def)
  qed
  then show "keeps (on_broker (same_queues b Q)) (decided mode strategy envelope)
    (if \<not> starts_with ''market.canonical'' (py_str (pget (as_dict envelope) ''event_type'' (PStr []))) then
       slift (Inl (Exc ValueError ''AgentOrchestrator expects market.canonical envelopes''))
     else sbind (slift (ids_of (as_dict envelope))) (\<lambda>ids.
       sbind (run_stages oc io ids strategy (as_dict (pget (as_dict envelope) ''payload'' PNone))) (\<lambda>dp.
       conclude oc io ids strategy dp)))"
    by (simp add: ids(1) keeps_slift ensures_def) (simp add: sbind_def slift_def keeps_def)
qed


section \<open>A decision that completes\<close>

text \<open>Stores that answer: no operation raises.\<close>

definition memory_answers :: "'m memory_ops \<Rightarrow> bool" where
  "memory_answers ops \<longleftrightarrow>
     (\<forall>mode strategy_id decision_id slot payload ttl m.
        completes (\<lambda>_ _. True) (mo_write_slot ops mode strategy_id decision_id slot payload ttl) m)
     \<and> (\<forall>r m. completes (\<lambda>_ _. True) (mo_persist_summary ops r) m)
     \<and> (\<forall>mode strategy_id decision_id m. completes (\<lambda>_ _. True) (mo_read_slots ops mode strategy_id decision_id) m)
     \<and> (\<forall>decision_id m. completes (\<lambda>_ _. True) (mo_read_summary ops decision_id) m)"

lemma noop_memory_answers: "memory_answers noop_memory"
  by (simp add: memory_answers_def noop_memory_def completes_slift returns_def)

lemma in_memory_completes:
  "completes (\<lambda>_ _. True) op (oz_memory s) \<Longrightarrow> completes (\<lambda>_ s'. oz_broker s' = oz_broker s) (in_memory op) s"
  by (auto simp: completes_iff in_memory_def)

lemma write_slot_completes:
  "memory_answers (oc_memory_ops oc) \<Longrightarrow>
     completes (\<lambda>_ s'. oz_broker s' = oz_broker s) (write_slot oc ids strategy slot payload) s"
  by (simp add: write_slot_def write_decision_slot_def memory_answers_def in_memory_completes)

lemma run_stage_completes:
  "completes (\<lambda>_ s'. oz_broker s' = oz_broker s) op s \<Longrightarrow>
     completes (\<lambda>_ s'. oz_broker s' = oz_broker s) (run_stage io ids stage op) s"
  by (auto simp: completes_iff run_stage_def)

lemma persist_stage_completes:
  assumes "memory_answers (oc_memory_ops oc)"
  shows "completes (\<lambda>_ s'. oz_broker s' = oz_broker s) (persist_stage oc io ids strategy dp lifecycle) s"
  unfolding persist_stage_def persist_decision_summary_def Let_def
  by (intro run_stage_completes in_memory_completes completes_sbind[where Q = "\<lambda>_ _. True"])
    (use assms in \<open>simp_all add: memory_answers_def completes_slift returns_def\<close>)

text \<open>The broker \<open>b\<close> with, at the end of every queue \<open>q\<close>, the messages \<open>f q\<close>\<close>

definition extended :: "broker \<Rightarrow> (string \<Rightarrow> pydict list) \<Rightarrow> broker \<Rightarrow> bool" where
  "extended b f b' \<longleftrightarrow> broker_ok b' \<and> (\<forall>k q. routed b' k q = routed b k q)
     \<and> (\<forall>q. queue_contents q b' = queue_contents q b @ f q)"

abbreviation sent :: "broker \<Rightarrow> string \<Rightarrow> pydict \<Rightarrow> string \<Rightarrow> pydict list" where
  "sent b key m q \<equiv> if routed b key q then [m] else []"

lemma publish_op_completes:
  assumes "extended b f (oz_broker s)"
  shows "completes (\<lambda>_ s'. extended b (\<lambda>q. f q @ sent b key m q) (oz_broker s')) (publish_op key m) s"
proof -
  have "broker_ok (oz_broker s)" using assms by (simp add: extended_def)
  from broker_publish_returns[OF this, of key m] obtain ps b' where
    "broker_publish key (PDict m) (oz_broker s) = Inr (ps, b')" "broker_ok b'"
    "\<forall>k q. routed b' k q = routed (oz_broker s) k q"
    "\<forall>q. queue_contents q b' = queue_contents q (oz_broker s) @ sent (oz_broker s) key m q"
    by (auto simp: returns_iff)
  then show ?thesis using assms by (simp add: publish_op_def completes_iff extended_def)
qed

text \<open>What the lifecycle loop adds to a queue: each event and the notification of the bridge about it.\<close>

fun lifecycle_sent :: "'m orchestrator \<Rightarrow> orchestrator_io \<Rightarrow> broker \<Rightarrow> nat \<Rightarrow> pydict list \<Rightarrow> string \<Rightarrow> pydict list" where
  "lifecycle_sent oc io b i [] q = []"
| "lifecycle_sent oc io b i (e # es) q = sent b LIFECYCLE_KEY e q
     @ (case oc_bridge oc of None \<Rightarrow> [] | Some br \<Rightarrow> sent b (nb_routing_key br)
          (notification_envelope br (oi_bridge_uuid io i) (oi_bridge_now io i) e ''notify.strategy.event'') q)
     @ lifecycle_sent oc io b (Suc i) es q"

definition clocks_ok :: "orchestrator_io \<Rightarrow> bool" where
  "clocks_ok io \<longleftrightarrow> (\<forall>event_type. in_range (oi_now io event_type)) \<and> (\<forall>i. in_range (oi_bridge_now io i))"

lemma bridge_op_completes:
  assumes "envelope_ok (PDict e)" "in_range now" "extended b f (oz_broker s)"
  shows "completes (\<lambda>_ s'. extended b (\<lambda>q. f q @ sent b (nb_routing_key br)
      (notification_envelope br fresh now e ''notify.strategy.event'') q) (oz_broker s')) (bridge_op br fresh now e) s"
proof -
  have "source_time_ok e" using assms(1) by (auto elim!: envelope_okE simp: source_time_ok_def envelope_ok_def field_iffs)
  then have "validate_envelope (PDict (notification_envelope br fresh now e ''notify.strategy.event'')) = Inr ()"
    using notification_envelope_ok[OF assms(2) bridge_types(1)] by (simp add: validate_envelope_iff)
  then have "bridge_op br fresh now e s
      = publish_op (nb_routing_key br) (notification_envelope br fresh now e ''notify.strategy.event'') s"
    by (simp add: bridge_op_publishes)
  then show ?thesis using publish_op_completes[OF assms(3)] by (simp add: completes_def)
qed

lemma publish_lifecycle_completes:
  assumes "list_all (\<lambda>e. envelope_ok (PDict e)) events" "clocks_ok io" "extended b f (oz_broker s)"
  shows "completes (\<lambda>_ s'. extended b (\<lambda>q. f q @ lifecycle_sent oc io b i events q) (oz_broker s'))
    (publish_lifecycle oc io i events) s"
  using assms(1,3)
proof (induction events arbitrary: i f s)
  case (Cons e es)
  note p = publish_op_completes[OF Cons.prems(2), of LIFECYCLE_KEY e]
  show ?case
  proof (cases "oc_bridge oc")
    case None
    have "completes (\<lambda>_ s''. extended b (\<lambda>q. (f q @ sent b LIFECYCLE_KEY e q) @ lifecycle_sent oc io b (Suc i) es q) (oz_broker s''))
        (publish_lifecycle oc io (Suc i) es) s'"
      if "extended b (\<lambda>q. f q @ sent b LIFECYCLE_KEY e q) (oz_broker s')" for s'
      using Cons.IH[OF _ that] Cons.prems(1) by simp
    then show ?thesis using None
      by (auto intro!: completes_sbind[OF p] completes_sbind[where Q = "\<lambda>_ s'. extended b (\<lambda>q. f q @ sent b LIFECYCLE_KEY e q) (oz_broker s')"]
          simp: completes_slift returns_def)
  next
    case (Some br)
    let ?n = "notification_envelope br (oi_bridge_uuid io i) (oi_bridge_now io i) e ''notify.strategy.event''"
    have e: "envelope_ok (PDict e)" "in_range (oi_bridge_now io i)" using Cons.prems(1) assms(2) by (simp_all add: clocks_ok_def)
    have "completes (\<lambda>_ s''. extended b (\<lambda>q. ((f q @ sent b LIFECYCLE_KEY e q) @ sent b (nb_routing_key br) ?n q)
        @ lifecycle_sent oc io b (Suc i) es q) (oz_broker s'')) (publish_lifecycle oc io (Suc i) es) s'"
      if "extended b (\<lambda>q. (f q @ sent b LIFECYCLE_KEY e q) @ sent b (nb_routing_key br) ?n q) (oz_broker s')" for s'
      using Cons.IH[OF _ that] Cons.prems(1) by simp
    then show ?thesis using Some
      by (auto intro!: completes_sbind[OF p] completes_sbind[OF bridge_op_completes[OF e]])
  qed
qed (simp add: completes_slift returns_def)


definition ids_ok :: "decision_ids \<Rightarrow> bool" where
  "ids_ok ids \<longleftrightarrow> uuid_ok (di_trace_id ids) \<and> uuid_ok (di_decision_id ids) \<and> di_mode ids \<in> {''MOCK'', ''REAL''}"

text \<open>All event types and keys of a decision begin with a letter.\<close>

definition lettered :: "string \<Rightarrow> bool" where
  "lettered t = (case t of [] \<Rightarrow> False | c # _ \<Rightarrow> c \<in> {CHR ''a'', CHR ''e''})"

lemma lettered_text: "lettered t \<Longrightarrow> py_strip t \<noteq> []"
  by (auto simp: lettered_def py_strip_def strip_chars_empty is_space_def split: list.splits)

lemma agent_envelope_returns:
  assumes "ids_ok ids" "clocks_ok io" "lettered event_type" "lettered key"
  shows "returns (envelope_of ids event_type payload) (agent_envelope oc io ids event_type key payload)"
proof -
  have "envelope_ok (PDict [
        (''trace_id'', PStr (di_trace_id ids)), (''decision_id'', PStr (di_decision_id ids)),
        (''mode'', PStr (di_mode ids)), (''idempotency_key'', PStr key), (''event_type'', PStr event_type),
        (''emitted_at'', PStr (iso_utc (oi_now io event_type))), (''payload'', PDict payload),
        (''service'', PStr (oc_service_name oc))])"
    using assms by (auto simp: envelope_ok_def field_iffs ids_ok_def clocks_ok_def timestamp_ok_iso lettered_text)
  then show ?thesis
    by (simp add: agent_envelope_def Let_def validate_envelope_iff[THEN iffD2] returns_def envelope_of_def)
qed

lemma build_events_returns:
  assumes "ids_ok ids" "clocks_ok io" "list_all (\<lambda>(t, k, p). lettered t \<and> lettered k) plan"
  shows "returns (list_all2 (\<lambda>(t, k, p). envelope_of ids t p) plan) (build_events oc io ids plan)"
  unfolding build_events_def
  by (rule rmap_returns) (use assms(3) in \<open>auto simp: list_all_iff intro!: agent_envelope_returns[OF assms(1,2)]\<close>)

lemma events_lettered:
  "list_all (\<lambda>(t, k, p). lettered t \<and> lettered k) (early_events ids strategy dp)"
  "list_all (\<lambda>(t, k, p). lettered t \<and> lettered k) (late_events d ids strategy dp)"
  by (simp_all add: early_events_def late_events_def lettered_def Let_def)

lemma publish_intent_completes:
  assumes "ids_ok ids" "clocks_ok io" "extended b f (oz_broker s)"
  shows "completes (\<lambda>(intent, published) s'. intent_of ids strategy dp intent \<and> envelope_ok (PDict published)
      \<and> extended b (\<lambda>q. f q @ sent b (mode_key (di_mode ids)) intent q) (oz_broker s'))
    (publish_intent oc io ids strategy dp) s"
proof -
  let ?key = "''execution.intent:'' @ py_lower (di_mode ids) @ '':'' @ di_decision_id ids"
  have l: "lettered ''execution.intent.created''" "lettered ?key" "lettered ''agent.decision.intent_published''"
    "lettered (''agent.decision.intent_published:'' @ di_decision_id ids)"
    by (simp_all add: lettered_def)
  from agent_envelope_returns[OF assms(1,2) l(1,2)] obtain intent where
    i: "agent_envelope oc io ids ''execution.intent.created'' ?key (intent_payload ids strategy dp) = Inr intent"
      "intent_of ids strategy dp intent"
    unfolding returns_iff by blast
  note r = intent_routes[OF i(2)]
  have a: "assert_no_mode_leakage (mode_key (di_mode ids)) (PDict intent) = Inr ()"
    by (simp add: assert_no_mode_leakage_def r)
  from agent_envelope_returns[OF assms(1,2) l(3,4)] obtain pub where
    p: "agent_envelope oc io ids ''agent.decision.intent_published'' (''agent.decision.intent_published:'' @ di_decision_id ids)
       (subject_of strategy dp @ [(''routing_key'', PStr (mode_key (di_mode ids))),
         (''action'', PStr (xd_action (dp_execution dp)))]) = Inr pub" "envelope_ok (PDict pub)"
    unfolding returns_iff envelope_of_def by blast
  from publish_op_completes[OF assms(3), of "mode_key (di_mode ids)" intent] obtain s' where
    "publish_op (mode_key (di_mode ids)) intent s = (Inr (), s')"
    "extended b (\<lambda>q. f q @ sent b (mode_key (di_mode ids)) intent q) (oz_broker s')"
    unfolding completes_iff by auto
  then show ?thesis
    by (simp only: publish_intent_def sbind_def slift_def completes_def i(1) r a p(1) prod.case sum.case)
      (simp add: i(2) p(2))
qed

text \<open>The end of a decision: what it returns and what every queue has received.\<close>

definition concluded ::
    "'m orchestrator \<Rightarrow> orchestrator_io \<Rightarrow> broker \<Rightarrow> decision_ids \<Rightarrow> strategy_config \<Rightarrow> decision_parts
      \<Rightarrow> orchestration_result \<Rightarrow> broker \<Rightarrow> bool" where
  "concluded oc io b ids strategy dp r b' \<longleftrightarrow> result_of ids strategy dp r
     \<and> list_all (\<lambda>e. envelope_ok (PDict e)) (or_lifecycle r)
     \<and> length (or_lifecycle r) = (if should_publish_intent dp then 7 else 6)
     \<and> broker_ok b'
     \<and> (\<forall>q. queue_contents q b' = queue_contents q b
          @ (case or_execution_intent r of None \<Rightarrow> [] | Some intent \<Rightarrow> sent b (mode_key (di_mode ids)) intent q)
          @ lifecycle_sent oc io b 0 (or_lifecycle r) q)"

lemma list_all2_envelopes:
  "list_all2 (\<lambda>(t, k, p). envelope_of ids t p) plan es \<Longrightarrow> list_all (\<lambda>e. envelope_ok (PDict e)) es \<and> length es = length plan"
  by (induction plan es rule: list_all2_induct) (auto simp: envelope_of_def)

lemma conclude_completes:
  assumes "ids_ok ids" "clocks_ok io" "memory_answers (oc_memory_ops oc)" "broker_ok (oz_broker s)"
  shows "completes (\<lambda>r s'. concluded oc io (oz_broker s) ids strategy dp r (oz_broker s')) (conclude oc io ids strategy dp) s"
proof -
  let ?b = "oz_broker s"
  have e0: "extended ?b (\<lambda>_. []) ?b" using assms(4) by (simp add: extended_def)
  from build_events_returns[OF assms(1,2) events_lettered(1)[of ids strategy dp], of oc] obtain early where
    early: "build_events oc io ids (early_events ids strategy dp) = Inr early"
      "list_all (\<lambda>e. envelope_ok (PDict e)) early" "length early = 3"
    by (auto simp: returns_iff early_events_def Let_def dest!: list_all2_envelopes)
  from build_events_returns[OF assms(1,2) events_lettered(2)[of "oc_dec_repr oc" ids strategy dp], of oc] obtain late where
    late: "build_events oc io ids (late_events (oc_dec_repr oc) ids strategy dp) = Inr late"
      "list_all (\<lambda>e. envelope_ok (PDict e)) late" "length late = 3"
    by (auto simp: returns_iff late_events_def Let_def dest!: list_all2_envelopes)
  let ?I = "\<lambda>(i, pub) s'. list_all (\<lambda>e. envelope_ok (PDict e)) pub \<and> length pub = (if should_publish_intent dp then 1 else 0)
      \<and> (case i of None \<Rightarrow> \<not> should_publish_intent dp | Some intent \<Rightarrow> should_publish_intent dp \<and> intent_of ids strategy dp intent)
      \<and> extended ?b (\<lambda>q. case i of None \<Rightarrow> [] | Some intent \<Rightarrow> sent ?b (mode_key (di_mode ids)) intent q) (oz_broker s')"
  have i: "completes ?I (if should_publish_intent dp
      then sbind (publish_intent oc io ids strategy dp) (\<lambda>(intent, published). slift (Inr (Some intent, [published])))
      else slift (Inr (None, []))) s'" if s': "oz_broker s' = ?b" for s'
  proof (cases "should_publish_intent dp")
    case True
    have "completes (\<lambda>(intent, published) s''. intent_of ids strategy dp intent \<and> envelope_ok (PDict published)
        \<and> extended ?b (\<lambda>q. [] @ sent ?b (mode_key (di_mode ids)) intent q) (oz_broker s''))
      (publish_intent oc io ids strategy dp) s'"
      by (rule publish_intent_completes[OF assms(1,2)]) (use e0 s' in simp)
    then show ?thesis using True
      by (auto simp: completes_slift returns_def elim!: completes_sbind)
  next
    case False
    then show ?thesis using e0 s' by (simp add: completes_slift returns_def)
  qed
  show ?thesis
    unfolding conclude_def
    apply (rule completes_sbind[where Q = "\<lambda>x s'. x = early \<and> oz_broker s' = ?b"])
     apply (simp add: completes_slift early(1) returns_def)
    apply (rule completes_sbind[where Q = "\<lambda>_ s'. oz_broker s' = ?b"])
     apply (rule completes_mono[OF write_slot_completes[OF assms(3)]], simp)
    apply (rule completes_sbind[where Q = "\<lambda>x s'. x = late \<and> oz_broker s' = ?b"])
     apply (simp add: completes_slift late(1) returns_def)
    apply (rule completes_sbind[OF i], simp)
    subgoal for x1 s1 x2 s2 x3 s3 x4 s4
      apply (cases x4)
      apply (simp only: prod.case)
      apply (elim conjE)
      apply (rule completes_sbind[OF persist_stage_completes[OF assms(3)]])
      apply (rule completes_sbind[OF publish_lifecycle_completes[OF _ assms(2)]])
        apply (simp add: early(2) late(2))
       apply simp
      apply (simp add: completes_slift returns_def concluded_def result_of_def early late extended_def)
      done
    done
qed


section \<open>The decision as a function\<close>

text \<open>The decision that a market event, a strategy and the replies of a language model determine; stores,
  metrics and clocks have no part in it.\<close>

definition decide ::
    "bool \<Rightarrow> orchestrator_io \<Rightarrow> strategy_config \<Rightarrow> pydict \<Rightarrow> decision_parts result" where
  "decide llm io strategy payload =
     rbind (enrich payload strategy) (\<lambda>co.
     rbind (build_plan (co_context co) strategy) (\<lambda>plan0.
     let plan = (if llm then apply_planner_suggestion (oi_planner_reply io) plan0 else plan0);
         risk0 = risk_evaluate plan (co_context co) strategy;
         risk = (if llm then apply_risk_suggestion (oi_risk_reply io) risk0 else risk0);
         decision0 = propose_action plan risk (co_context co) strategy;
         decision = (if llm then apply_execution_suggestion (oi_execution_reply io) decision0 else decision0)
     in rbind (guardrail_validate strategy (co_context co) risk decision) (\<lambda>guardrail.
        Inr \<lparr>dp_context = co, dp_plan = plan, dp_risk = risk, dp_execution = decision, dp_guardrail = guardrail\<rparr>)))"

definition yields :: "broker \<Rightarrow> 'a result \<Rightarrow> ('m orchestrator_state, 'a) action \<Rightarrow> bool" where
  "yields b r op \<longleftrightarrow> (\<forall>s. oz_broker s = b \<longrightarrow> fst (op s) = r \<and> oz_broker (snd (op s)) = b)"

lemma yields_slift: "yields b r (slift r)"
  by (simp add: yields_def slift_def)

lemma yields_stage: "yields b r op \<Longrightarrow> yields b r (run_stage io ids stage op)"
  by (fastforce simp: yields_def run_stage_def split: prod.splits sum.splits)

lemma yields_sbind: "yields b r op \<Longrightarrow> (\<And>x. yields b (g x) (f x)) \<Longrightarrow> yields b (rbind r g) (sbind op f)"
  by (cases r) (fastforce simp: yields_def sbind_def split: prod.splits sum.splits)+

lemma yields_value: "yields b (Inr x) op \<Longrightarrow> yields b r (f x) \<Longrightarrow> yields b r (sbind op f)"
  using yields_sbind[of b "Inr x" op] by (fastforce simp: yields_def sbind_def split: prod.splits sum.splits)

lemma yields_effect:
  "(\<And>s. completes (\<lambda>_ s'. oz_broker s' = oz_broker s) op s) \<Longrightarrow> yields b r rest \<Longrightarrow> yields b r (sbind op (\<lambda>_. rest))"
  by (fastforce simp: yields_def sbind_def completes_iff split: prod.splits sum.splits)

lemma yields_llm_stage: "yields b (Inr (if oc_llm_runtime oc then x else y)) (llm_stage oc io ids stage x y)"
  by (simp add: llm_stage_def yields_stage yields_slift)

lemma read_completes:
  assumes "memory_answers ops"
  shows "completes (\<lambda>_ _. True) (read_decision_memory ops ttl mode strategy_id decision_id) m"
  unfolding read_decision_memory_def
proof (rule completes_sbind[where Q = "\<lambda>_ _. True"])
  show "completes (\<lambda>_ _. True) (mo_read_slots ops mode strategy_id decision_id) m"
    using assms by (simp add: memory_answers_def)
  have rs: "completes (\<lambda>_ _. True) (sbind (mo_read_summary ops decision_id) f) m'"
    if "\<And>x m''. completes (\<lambda>_ _. True) (f x) m''" for f m'
    by (rule completes_sbind[where Q = "\<lambda>_ _. True"]) (use assms that in \<open>simp_all add: memory_answers_def\<close>)
  have ws: "completes (\<lambda>_ _. True) (sbind (mo_write_slot ops mode strategy_id decision_id sl p ttl) (\<lambda>_. slift (Inr y))) m'" for sl p y m'
    by (rule completes_sbind[where Q = "\<lambda>_ _. True"]) (use assms in \<open>simp_all add: memory_answers_def completes_slift returns_def\<close>)
  show "completes (\<lambda>_ _. True) (let normalized_slots = map (\<lambda>(slot, payload). (slot, ensure_mapping payload)) slots;
         snapshot = (\<lambda>source found. \<lparr>ms_mode = mode, ms_strategy_id = strategy_id, ms_decision_id = decision_id,
           ms_source = source, ms_slots = found\<rparr>) in
     if normalized_slots \<noteq> [] then slift (Inr (snapshot ''redis'' normalized_slots))
     else sbind (mo_read_summary ops decision_id) (\<lambda>archived. case archived of
         None \<Rightarrow> slift (Inr (snapshot ''empty'' []))
       | Some r \<Rightarrow>
           sbind (mo_write_slot ops mode strategy_id decision_id ''summary'' (mr_summary r) ttl) (\<lambda>_.
             slift (Inr (snapshot ''postgres'' [(''summary'', mr_summary r)]))))) m'" for slots m'
    by (auto simp: Let_def completes_slift returns_def ws split: option.splits intro!: rs)
qed

text \<open>With stores that answer, the stages compute exactly that function, errors included.\<close>

lemma run_stages_decide:
  assumes "memory_answers (oc_memory_ops oc)"
  shows "yields b (decide (oc_llm_runtime oc) io strategy payload) (run_stages oc io ids strategy payload)"
proof -
  note wr = yields_effect[OF write_slot_completes[OF assms]]
  show ?thesis
    unfolding run_stages_def decide_def Let_def
    apply (rule yields_effect[OF run_stage_completes[OF in_memory_completes[OF read_completes[OF assms]]]])
    apply (rule yields_sbind[OF yields_stage[OF yields_slift]], rule wr)
    apply (rule yields_sbind[OF yields_stage[OF yields_slift]])
    apply (rule yields_value[OF yields_llm_stage], rule wr)
    apply (rule yields_value[OF yields_stage[OF yields_slift]])
    apply (rule yields_value[OF yields_llm_stage], rule wr)
    apply (rule yields_value[OF yields_stage[OF yields_slift]])
    apply (rule yields_value[OF yields_llm_stage], rule wr)
    apply (rule yields_sbind[OF yields_stage[OF yields_slift]], rule wr)
    apply (rule yields_slift)
    done
qed

lemma handle_decides:
  assumes "envelope_ok envelope" "starts_with ''market.canonical'' (py_str (pget (as_dict envelope) ''event_type'' (PStr [])))"
    and "ids_of (as_dict envelope) = Inr ids" and "memory_answers (oc_memory_ops oc)"
  obtains s1 where "oz_broker s1 = oz_broker s"
    "handle_market_event oc io strategy envelope s =
       (case decide (oc_llm_runtime oc) io strategy (as_dict (pget (as_dict envelope) ''payload'' PNone)) of
          Inl e \<Rightarrow> (Inl e, s1) | Inr dp \<Rightarrow> conclude oc io ids strategy dp s1)"
proof -
  let ?p = "as_dict (pget (as_dict envelope) ''payload'' PNone)"
  obtain r s1 where r: "run_stages oc io ids strategy ?p s = (r, s1)" by force
  have "r = decide (oc_llm_runtime oc) io strategy ?p" "oz_broker s1 = oz_broker s"
    using run_stages_decide[OF assms(4), of "oz_broker s" io strategy ?p ids] r
    by (auto simp: yields_def dest!: spec[of _ s])
  then show ?thesis using r assms(2,3) validate_envelope_iff[THEN iffD2, OF assms(1)]
    by (intro that[of s1]) (simp_all add: handle_market_event_def sbind_def slift_def Let_def split: sum.splits)
qed

lemma ids_of_ok:
  assumes "envelope_ok envelope"
  shows "returns ids_ok (ids_of (as_dict envelope))"
  using assms by (auto elim!: envelope_okE simp: ids_of_def pindex_def returns_def ids_ok_def)

section \<open>A sample decision\<close>

text \<open>A language model that suggests to buy half a unit, an event with a price only, and three queues.\<close>

definition sample_orchestrator :: "unit orchestrator" where
  "sample_orchestrator = \<lparr>oc_memory_ops = noop_memory, oc_ttl_seconds = 900, oc_llm_runtime = True, oc_bridge = None,
     oc_service_name = ''agent_orchestrator'', oc_dec_repr = (\<lambda>_. PNone)\<rparr>"

definition reply :: "pydict \<Rightarrow> llm_reply result" where
  "reply payload = Inr \<lparr>lr_provider = ''openai'', lr_model = ''m'', lr_payload = payload\<rparr>"

definition sample_decision_io :: orchestrator_io where
  "sample_decision_io = \<lparr>oi_planner_reply = reply [(''action'', PStr ''buy''), (''confidence'', PFloat (Fin 1)),
       (''target_quantity'', PFloat (Fin (1 / 2)))],
     oi_risk_reply = reply [], oi_execution_reply = reply [],
     oi_stage = (\<lambda>_. \<lparr>sx_started = Fin 0, sx_ended = Fin 0, sx_started_at = [], sx_completed_at = []\<rparr>),
     oi_now = (\<lambda>_. 0), oi_persisted_at = [], oi_bridge_uuid = (\<lambda>_. []), oi_bridge_now = (\<lambda>_. 0)\<rparr>"

definition sample_market_payload :: pydict where
  "sample_market_payload = [(''exchange'', PStr ''binance''), (''symbol'', PStr ''BTC/USDT''),
     (''mid_price'', PInt 100), (''current_position'', PInt 1)]"

definition sample_market_event :: pyval where
  "sample_market_event = PDict [
     (''trace_id'', PStr ''12345678-1234-5678-1234-567812345678''),
     (''decision_id'', PStr ''12345678-1234-5678-1234-567812345679''),
     (''mode'', PStr ''MOCK''), (''idempotency_key'', PStr ''market-1''),
     (''event_type'', PStr ''market.canonical.orderbook''), (''emitted_at'', PStr ''2025-01-01T00:00:00Z''),
     (''payload'', PDict sample_market_payload)]"

definition sample_state :: "unit orchestrator_state" where
  "sample_state = \<lparr>oz_memory = (), oz_metrics = new_agent_metrics,
     oz_broker = \<lparr>bk_queues = [(MOCK_ROUTING_KEY, []), (REAL_ROUTING_KEY, []), (LIFECYCLE_KEY, [])], bk_bindings = []\<rparr>\<rparr>"

definition price_context :: market_context where
  "price_context = \<lparr>mc_exchange = PStr ''binance'', mc_symbol = PStr ''BTC/USDT'', mc_timestamp_ms = PNone,
     mc_best_bid = None, mc_best_ask = None, mc_best_bid_size = Fin 0, mc_best_ask_size = Fin 0, mc_mid_price = Fin 100,
     mc_spread_bps = Fin 0, mc_orderbook_imbalance = Fin 0, mc_microstructure_regime = ''unknown'',
     mc_current_position = Fin 1, mc_drawdown_pct = Fin 0, mc_news_summary = ''news_unavailable'',
     mc_news_sentiment = Fin 0, mc_news_source_count = 0\<rparr>"

lemma sample_stages:
  "returns (\<lambda>co. co_context co = price_context) (enrich sample_market_payload sample_strategy)"
  "returns (\<lambda>_. True) (build_plan price_context sample_strategy)"
  "let plan = apply_planner_suggestion (oi_planner_reply sample_decision_io) \<lparr>pl_action = a, pl_confidence = c,
     pl_target_quantity = q, pl_rationale = r, pl_metrics = m\<rparr>
   in pl_action plan = ''BUY'' \<and> pl_confidence plan = Fin 1 \<and> pl_target_quantity plan = Fin (1 / 2)"
  "let risk = apply_risk_suggestion (oi_risk_reply sample_decision_io) (risk_evaluate \<lparr>pl_action = ''BUY'', pl_confidence = Fin 1,
     pl_target_quantity = Fin (1 / 2), pl_rationale = r, pl_metrics = m\<rparr> price_context sample_strategy)
   in ra_approved risk \<and> ra_approved_quantity risk = Fin (1 / 2)"
  "let d = apply_execution_suggestion (oi_execution_reply sample_decision_io) (propose_action \<lparr>pl_action = ''BUY'',
     pl_confidence = Fin 1, pl_target_quantity = Fin (1 / 2), pl_rationale = r, pl_metrics = m\<rparr>
     \<lparr>ra_approved = True, ra_approved_quantity = Fin (1 / 2), ra_signals = sg, ra_blocked_by = bb,
      ra_risk_score = rs, ra_rationale = rr\<rparr> price_context sample_strategy)
   in xd_action d = ''BUY'' \<and> xd_quantity d = Fin (1 / 2) \<and> xd_confidence d = Fin 1
      \<and> truthy (pget (xd_constraints d) ''schema_valid'' (PBool False)) \<and> dict_get (xd_constraints d) ''order_type'' = None"
  "returns gd_allowed (guardrail_validate sample_strategy price_context
     \<lparr>ra_approved = True, ra_approved_quantity = Fin (1 / 2), ra_signals = sg, ra_blocked_by = bb,
      ra_risk_score = rs, ra_rationale = rr\<rparr>
     \<lparr>xd_action = ''BUY'', xd_quantity = Fin (1 / 2), xd_confidence = Fin 1, xd_rationale = rt, xd_constraints = cs\<rparr>)"
  by code_simp+

lemma record_parts:
  "pl_action p = a \<and> pl_confidence p = c \<and> pl_target_quantity p = q \<Longrightarrow>
     \<exists>r m. p = \<lparr>pl_action = a, pl_confidence = c, pl_target_quantity = q, pl_rationale = r, pl_metrics = m\<rparr>"
  "ra_approved k \<and> ra_approved_quantity k = q \<Longrightarrow>
     \<exists>sg bb rs rr. k = \<lparr>ra_approved = True, ra_approved_quantity = q, ra_signals = sg, ra_blocked_by = bb,
       ra_risk_score = rs, ra_rationale = rr\<rparr>"
  "xd_action d = a \<and> xd_quantity d = q \<and> xd_confidence d = c \<and> P (xd_constraints d) \<Longrightarrow>
     \<exists>rt cs. d = \<lparr>xd_action = a, xd_quantity = q, xd_confidence = c, xd_rationale = rt, xd_constraints = cs\<rparr> \<and> P cs"
  for p :: planner_decision and k :: risk_assessment and d :: execution_decision
  subgoal by (cases p) simp
  subgoal by (cases k) simp
  subgoal by (cases d) simp
  done

lemma sample_plan_suggested:
  "let plan = apply_planner_suggestion (oi_planner_reply sample_decision_io) p
   in pl_action plan = ''BUY'' \<and> pl_confidence plan = Fin 1 \<and> pl_target_quantity plan = Fin (1 / 2)"
  for p :: planner_decision
  by (cases p) (simp only: sample_stages(3))

lemma sample_decide:
  "returns (\<lambda>dp. should_publish_intent dp \<and> co_context (dp_context dp) = price_context
      \<and> xd_action (dp_execution dp) = ''BUY'' \<and> xd_quantity (dp_execution dp) = Fin (1 / 2)
      \<and> dict_get (xd_constraints (dp_execution dp)) ''order_type'' = None)
    (decide True sample_decision_io sample_strategy sample_market_payload)"
proof -
  obtain co where co: "enrich sample_market_payload sample_strategy = Inr co" "co_context co = price_context"
    using sample_stages(1) by (auto simp: returns_iff)
  obtain plan0 where plan0: "build_plan price_context sample_strategy = Inr plan0"
    using sample_stages(2) by (auto simp: returns_iff)
  obtain r m where plan: "apply_planner_suggestion (oi_planner_reply sample_decision_io) plan0
      = \<lparr>pl_action = ''BUY'', pl_confidence = Fin 1, pl_target_quantity = Fin (1 / 2), pl_rationale = r, pl_metrics = m\<rparr>"
    using record_parts(1)[OF sample_plan_suggested[unfolded Let_def]] by blast
  obtain sg bb rs rr where risk: "apply_risk_suggestion (oi_risk_reply sample_decision_io) (risk_evaluate
      \<lparr>pl_action = ''BUY'', pl_confidence = Fin 1, pl_target_quantity = Fin (1 / 2), pl_rationale = r, pl_metrics = m\<rparr>
      price_context sample_strategy) = \<lparr>ra_approved = True, ra_approved_quantity = Fin (1 / 2), ra_signals = sg,
      ra_blocked_by = bb, ra_risk_score = rs, ra_rationale = rr\<rparr>"
    using record_parts(2)[OF sample_stages(4)[unfolded Let_def]] by blast
  obtain rt cs where d: "apply_execution_suggestion (oi_execution_reply sample_decision_io) (propose_action
      \<lparr>pl_action = ''BUY'', pl_confidence = Fin 1, pl_target_quantity = Fin (1 / 2), pl_rationale = r, pl_metrics = m\<rparr>
      \<lparr>ra_approved = True, ra_approved_quantity = Fin (1 / 2), ra_signals = sg, ra_blocked_by = bb, ra_risk_score = rs,
       ra_rationale = rr\<rparr> price_context sample_strategy)
      = \<lparr>xd_action = ''BUY'', xd_quantity = Fin (1 / 2), xd_confidence = Fin 1, xd_rationale = rt, xd_constraints = cs\<rparr>"
    "truthy (pget cs ''schema_valid'' (PBool False))" "dict_get cs ''order_type'' = None"
    using record_parts(3)[where P = "\<lambda>cs. truthy (pget cs ''schema_valid'' (PBool False)) \<and> dict_get cs ''order_type'' = None",
      OF sample_stages(5)[unfolded Let_def]] by blast
  show ?thesis
    using sample_stages(6)[of sg bb rs rr rt cs] d(2,3)
    by (auto simp: decide_def co plan0 plan risk d(1) returns_iff should_publish_intent_def)
qed

section \<open>Properties\<close>

lemma plain_action: "a \<in> {''BUY'', ''SELL'', ''CLOSE''} \<Longrightarrow> py_upper a = a"
  by (auto simp: py_upper_def upper_char_def)

lemma intent_payload_fields:
  "dict_get (intent_payload ids strategy dp) ''action'' = Some (PStr (xd_action (dp_execution dp)))"
  "dict_get (intent_payload ids strategy dp) ''quantity'' = Some (PFloat (xd_quantity (dp_execution dp)))"
  "dict_get (intent_payload ids strategy dp) ''symbol'' = Some (mc_symbol (co_context (dp_context dp)))"
  by (simp_all add: intent_payload_def Let_def)

lemma handle_decided:
  assumes "handle_market_event oc io strategy envelope s = (Inr r, s')" "broker_ok (oz_broker s)"
  obtains mode where "is_mode mode envelope" "mode \<in> {''MOCK'', ''REAL''}" "decided mode strategy envelope r"
proof -
  have "envelope_ok envelope"
    using assms(1) validate_envelope_iff[of envelope]
    by (auto simp: handle_market_event_def sbind_def slift_def split: sum.splits)
  then obtain mode where m: "is_mode mode envelope" "mode \<in> {''MOCK'', ''REAL''}"
    by (auto elim!: envelope_okE simp: is_mode_def)
  have "on_broker (same_queues (oz_broker s) {}) s" using assms(2) by (simp add: on_broker_def same_queues_def)
  with keeps_handle_market_event[of "{}" "oz_broker s" oc mode envelope strategy io, OF _ _ m(1)] assms(1)
  have "decided mode strategy envelope r" by (auto simp: keeps_def ensures_def dest!: spec[of _ s])
  with m show ?thesis by (rule that)
qed

text \<open>C5: Whatever a language model replies, an order reaches execution only through the guardrails: the intent of a
  decision carries its trace, decision and mode, its action is an allowed one, its symbol is the strategy's, its
  quantity is finite, non-zero and of the sign of the action, and the position and the notional it leads
  to are within the limits of the strategy.\<close>

theorem intents_are_guarded:
  assumes "handle_market_event oc io strategy envelope s = (Inr r, s')" and "or_execution_intent r = Some intent"
    and "broker_ok (oz_broker s)" and "wf_float (xd_quantity (or_execution r))"
    and "sc_risk_max_position_size strategy = Fin max_pos" and "sc_risk_max_notional_usd strategy = Fin max_notional"
    and "mc_current_position (co_context (or_context r)) = Fin pos" and "mc_mid_price (co_context (or_context r)) = Fin price"
  shows "ra_approved (or_risk r) \<and> gd_allowed (or_guardrail r) \<and> or_status r = ''RISK_APPROVED''
    \<and> envelope_ok (PDict intent) \<and> intent_type (PDict intent)
    \<and> (\<forall>k\<in>{''trace_id'', ''decision_id'', ''mode''}. dict_get intent k = dict_get (as_dict envelope) k)
    \<and> (\<exists>p action q symbol. dict_get intent ''payload'' = Some (PDict p)
        \<and> dict_get p ''action'' = Some (PStr action) \<and> action \<in> {''BUY'', ''SELL'', ''CLOSE''} \<inter> set (sc_allowed_actions strategy)
        \<and> dict_get p ''quantity'' = Some (PFloat (Fin q)) \<and> q \<noteq> 0
        \<and> (action = ''BUY'' \<longrightarrow> 0 < q) \<and> (action = ''SELL'' \<longrightarrow> q < 0)
        \<and> \<bar>dadd (repr_dec pos) (repr_dec q)\<bar> \<le> repr_dec max_pos
        \<and> dmul (dabs (repr_dec q)) (repr_dec (max price 0)) \<le> repr_dec max_notional
        \<and> dict_get p ''symbol'' = Some symbol \<and> py_str symbol = sc_symbol strategy)"
proof -
  obtain mode where m: "is_mode mode envelope" "decided mode strategy envelope r"
    using handle_decided[OF assms(1,3)] by metis
  then obtain ids dp where d: "di_mode ids = mode" "dict_get (as_dict envelope) ''trace_id'' = Some (PStr (di_trace_id ids))"
    "dict_get (as_dict envelope) ''decision_id'' = Some (PStr (di_decision_id ids))"
    "guardrail_validate strategy (co_context (dp_context dp)) (dp_risk dp) (dp_execution dp) = Inr (dp_guardrail dp)"
    "result_of ids strategy dp r"
    by (auto simp: decided_def)
  have r: "or_status r = decision_status dp" "or_context r = dp_context dp" "or_risk r = dp_risk dp"
    "or_execution r = dp_execution dp" "or_guardrail r = dp_guardrail dp"
    and i: "should_publish_intent dp" "intent_of ids strategy dp intent"
    using d(5) assms(2) by (simp_all add: result_of_def)
  have a: "xd_action (dp_execution dp) \<in> {''BUY'', ''SELL'', ''CLOSE''}" "gd_allowed (dp_guardrail dp)" "ra_approved (dp_risk dp)"
    using i(1) by (simp_all add: should_publish_intent_def)
  note u = plain_action[OF a(1)]
  have "py_upper (xd_action (dp_execution dp)) \<in> {''BUY'', ''SELL'', ''CLOSE''}" using a(1) u by simp
  from guarded_order[OF d(4) a(2) this assms(4)[unfolded r(4)] assms(5,6) assms(7,8)[unfolded r(2)]] obtain q where
    q: "xd_quantity (dp_execution dp) = Fin q" "q \<noteq> 0"
      "xd_action (dp_execution dp) = ''BUY'' \<longrightarrow> 0 < q" "xd_action (dp_execution dp) = ''SELL'' \<longrightarrow> q < 0"
      "\<bar>dadd (repr_dec pos) (repr_dec q)\<bar> \<le> repr_dec max_pos"
      "dmul (dabs (repr_dec q)) (repr_dec (max price 0)) \<le> repr_dec max_notional"
      "py_str (mc_symbol (co_context (dp_context dp))) = sc_symbol strategy"
      "xd_action (dp_execution dp) \<in> set (sc_allowed_actions strategy)"
    unfolding u by blast
  have e: "envelope_ok (PDict intent)" "intent_type (PDict intent)" "dict_get intent ''payload'' = Some (PDict (intent_payload ids strategy dp))"
    "\<forall>k\<in>{''trace_id'', ''decision_id'', ''mode''}. dict_get intent k = dict_get (as_dict envelope) k"
    using i(2) d(1-3) m(1) by (simp_all add: envelope_of_def intent_type_def is_mode_def)
  have "\<exists>p action q symbol. dict_get intent ''payload'' = Some (PDict p)
        \<and> dict_get p ''action'' = Some (PStr action) \<and> action \<in> {''BUY'', ''SELL'', ''CLOSE''} \<inter> set (sc_allowed_actions strategy)
        \<and> dict_get p ''quantity'' = Some (PFloat (Fin q)) \<and> q \<noteq> 0
        \<and> (action = ''BUY'' \<longrightarrow> 0 < q) \<and> (action = ''SELL'' \<longrightarrow> q < 0)
        \<and> \<bar>dadd (repr_dec pos) (repr_dec q)\<bar> \<le> repr_dec max_pos
        \<and> dmul (dabs (repr_dec q)) (repr_dec (max price 0)) \<le> repr_dec max_notional
        \<and> dict_get p ''symbol'' = Some symbol \<and> py_str symbol = sc_symbol strategy"
    by (rule exI[of _ "intent_payload ids strategy dp"], rule exI[of _ "xd_action (dp_execution dp)"], rule exI[of _ q],
        rule exI[of _ "mc_symbol (co_context (dp_context dp))"])
      (use q a(1) e(3) in \<open>simp add: intent_payload_fields\<close>)
  moreover have "or_status r = ''RISK_APPROVED''" using a(2,3) by (simp add: r(1) decision_status_def)
  ultimately show ?thesis using a(2,3) e r by simp
qed


text \<open>How a decision ends: in the outcome of \<open>decide\<close>.\<close>

definition ends_as ::
    "'m orchestrator \<Rightarrow> orchestrator_io \<Rightarrow> strategy_config \<Rightarrow> decision_ids \<Rightarrow> decision_parts result \<Rightarrow> broker
      \<Rightarrow> orchestration_result result \<times> 'm orchestrator_state \<Rightarrow> bool" where
  "ends_as oc io strategy ids outcome b end_state = (case outcome of
      Inl e \<Rightarrow> fst end_state = Inl e \<and> oz_broker (snd end_state) = b
    | Inr dp \<Rightarrow> returns (\<lambda>r. concluded oc io b ids strategy dp r (oz_broker (snd end_state))) (fst end_state))"

lemma handle_ends:
  assumes "envelope_ok envelope" "starts_with ''market.canonical'' (py_str (pget (as_dict envelope) ''event_type'' (PStr [])))"
    and "memory_answers (oc_memory_ops oc)" "clocks_ok io" "broker_ok (oz_broker s)"
  shows "returns (\<lambda>ids. ends_as oc io strategy ids
      (decide (oc_llm_runtime oc) io strategy (as_dict (pget (as_dict envelope) ''payload'' PNone)))
      (oz_broker s) (handle_market_event oc io strategy envelope s)) (ids_of (as_dict envelope))"
proof -
  obtain ids where ids: "ids_of (as_dict envelope) = Inr ids" "ids_ok ids"
    using ids_of_ok[OF assms(1)] by (auto simp: returns_iff)
  obtain s1 where s1: "oz_broker s1 = oz_broker s"
    "handle_market_event oc io strategy envelope s =
       (case decide (oc_llm_runtime oc) io strategy (as_dict (pget (as_dict envelope) ''payload'' PNone)) of
          Inl e \<Rightarrow> (Inl e, s1) | Inr dp \<Rightarrow> conclude oc io ids strategy dp s1)"
    by (rule handle_decides[OF assms(1,2) ids(1) assms(3)])
  show ?thesis
  proof (cases "decide (oc_llm_runtime oc) io strategy (as_dict (pget (as_dict envelope) ''payload'' PNone))")
    case (Inl e)
    then show ?thesis by (simp add: ids(1) s1 returns_def ends_as_def)
  next
    case (Inr dp)
    have "broker_ok (oz_broker s1)" using assms(5) s1(1) by simp
    from conclude_completes[OF ids(2) assms(4,3) this, of strategy dp] obtain r s' where
      "conclude oc io ids strategy dp s1 = (Inr r, s')" "concluded oc io (oz_broker s) ids strategy dp r (oz_broker s')"
      unfolding completes_iff s1(1) by blast
    with Inr s1(2) ids(1) show ?thesis by (simp add: returns_def ends_as_def)
  qed
qed

lemma sample_event_ok:
  "envelope_ok sample_market_event"
  "starts_with ''market.canonical'' (py_str (pget (as_dict sample_market_event) ''event_type'' (PStr [])))"
  "broker_ok (oz_broker sample_state)" "is_mode ''MOCK'' sample_market_event"
  by code_simp+

lemma epoch_in_range: "in_range 0"
  by code_simp

lemma sample_frame:
  "oc_llm_runtime sample_orchestrator" "memory_answers (oc_memory_ops sample_orchestrator)" "clocks_ok sample_decision_io"
  "as_dict (pget (as_dict sample_market_event) ''payload'' PNone) = sample_market_payload"
  by (simp_all add: sample_orchestrator_def noop_memory_answers clocks_ok_def sample_decision_io_def epoch_in_range
      sample_market_event_def pget_def dict_get_default_def)

lemma sample_handled:
  obtains dp ids r s' intent where
    "decide True sample_decision_io sample_strategy sample_market_payload = Inr dp" "should_publish_intent dp"
    "ids_of (as_dict sample_market_event) = Inr ids"
    "handle_market_event sample_orchestrator sample_decision_io sample_strategy sample_market_event sample_state = (Inr r, s')"
    "concluded sample_orchestrator sample_decision_io (oz_broker sample_state) ids sample_strategy dp r (oz_broker s')"
    "or_execution_intent r = Some intent" "xd_quantity (or_execution r) = Fin (1 / 2)"
    "co_context (or_context r) = price_context" "dict_get (xd_constraints (or_execution r)) ''order_type'' = None"
proof -
  from sample_decide obtain dp where dp: "decide True sample_decision_io sample_strategy sample_market_payload = Inr dp"
    "should_publish_intent dp" "co_context (dp_context dp) = price_context" "xd_quantity (dp_execution dp) = Fin (1 / 2)"
    "dict_get (xd_constraints (dp_execution dp)) ''order_type'' = None"
    by (auto simp: returns_iff)
  from handle_ends[OF sample_event_ok(1,2) sample_frame(2,3) sample_event_ok(3), of sample_strategy]
  obtain ids where ids: "ids_of (as_dict sample_market_event) = Inr ids" "ends_as sample_orchestrator sample_decision_io sample_strategy ids
      (Inr dp) (oz_broker sample_state)
      (handle_market_event sample_orchestrator sample_decision_io sample_strategy sample_market_event sample_state)"
    unfolding sample_frame(4) by (auto simp: returns_iff sample_frame(1) dp(1))
  then obtain r s' where r: "handle_market_event sample_orchestrator sample_decision_io sample_strategy sample_market_event sample_state = (Inr r, s')"
    "concluded sample_orchestrator sample_decision_io (oz_broker sample_state) ids sample_strategy dp r (oz_broker s')"
    by (auto simp: ends_as_def returns_iff prod_eq_iff)
  obtain intent where i: "or_execution_intent r = Some intent"
    using r(2) dp(2) by (auto simp: concluded_def result_of_def split: option.splits)
  have "or_execution r = dp_execution dp" "or_context r = dp_context dp"
    using r(2) by (simp_all add: concluded_def result_of_def)
  then have "xd_quantity (or_execution r) = Fin (1 / 2)" "co_context (or_context r) = price_context"
    "dict_get (xd_constraints (or_execution r)) ''order_type'' = None"
    using dp(3-5) by (simp_all only:)
  then show ?thesis by (rule that[OF dp(1,2) ids(1) r i])
qed

theorem intents_are_guarded_witness:
  "case handle_market_event sample_orchestrator sample_decision_io sample_strategy sample_market_event sample_state of
     (Inr r, s') \<Rightarrow> or_execution_intent r \<noteq> None \<and> or_status r = ''RISK_APPROVED''
       \<and> \<bar>dadd (repr_dec 1) (repr_dec (1 / 2))\<bar> \<le> repr_dec 5
   | _ \<Rightarrow> False"
proof -
  obtain r s' intent where r: "handle_market_event sample_orchestrator sample_decision_io sample_strategy sample_market_event sample_state = (Inr r, s')"
    "or_execution_intent r = Some intent" "xd_quantity (or_execution r) = Fin (1 / 2)" "co_context (or_context r) = price_context"
    by (rule sample_handled) blast
  have w: "wf_float (xd_quantity (or_execution r))" using wf_float_dyadic[of 1 1] by (simp add: r(3))
  have c: "mc_current_position (co_context (or_context r)) = Fin 1" "mc_mid_price (co_context (or_context r)) = Fin 100"
    by (simp_all add: r(4) price_context_def)
  have l: "sc_risk_max_position_size sample_strategy = Fin 5" "sc_risk_max_notional_usd sample_strategy = Fin 1000"
    by (simp_all add: sample_strategy_def)
  from intents_are_guarded[OF r(1,2) sample_event_ok(3) w l c]
  obtain p q where "or_status r = ''RISK_APPROVED''" "dict_get intent ''payload'' = Some (PDict p)"
    "dict_get p ''quantity'' = Some (PFloat (Fin q))" "\<bar>dadd (repr_dec 1) (repr_dec q)\<bar> \<le> repr_dec 5"
    by blast
  moreover have "\<bar>dadd (repr_dec 1) (repr_dec (1 / 2))\<bar> \<le> repr_dec 5" by code_simp
  ultimately show ?thesis using r(1,2) by simp
qed


text \<open>C15: Modes stay apart: a market event, however its handling ends, adds nothing to a queue that only the
  execution key of the other mode reaches, and leaves the broker sound.\<close>

theorem decisions_stay_in_mode:
  assumes "broker_ok (oz_broker s)" and "is_mode mode envelope"
    and "\<not> routed (oz_broker s) LIFECYCLE_KEY q" and "bridge_avoids oc (oz_broker s) q"
    and "\<not> routed (oz_broker s) (mode_key mode) q"
  shows "let s' = snd (handle_market_event oc io strategy envelope s) in
    queue_contents q (oz_broker s') = queue_contents q (oz_broker s) \<and> broker_ok (oz_broker s')"
proof -
  have "on_broker (same_queues (oz_broker s) {q}) s" using assms(1) by (simp add: on_broker_def same_queues_def)
  with keeps_handle_market_event[of "{q}" "oz_broker s" oc mode envelope strategy io, OF _ _ assms(2)] assms(3-5)
  have "same_queues (oz_broker s) {q} (oz_broker (snd (handle_market_event oc io strategy envelope s)))"
    by (cases "handle_market_event oc io strategy envelope s") (auto simp: keeps_def on_broker_def dest!: spec[of _ s])
  then show ?thesis by (simp add: same_queues_def Let_def)
qed

theorem decisions_stay_in_mode_witness:
  "let s' = snd (handle_market_event sample_orchestrator sample_decision_io sample_strategy sample_market_event sample_state)
   in queue_contents REAL_ROUTING_KEY (oz_broker s') = []"
proof -
  have r: "\<not> routed (oz_broker sample_state) LIFECYCLE_KEY REAL_ROUTING_KEY"
    "\<not> routed (oz_broker sample_state) (mode_key ''MOCK'') REAL_ROUTING_KEY"
    "bridge_avoids sample_orchestrator (oz_broker sample_state) REAL_ROUTING_KEY"
    "queue_contents REAL_ROUTING_KEY (oz_broker sample_state) = []"
    by code_simp+
  show ?thesis
    using decisions_stay_in_mode[OF sample_event_ok(3,4) r(1,3,2), of sample_decision_io sample_strategy] r(4) by (simp add: Let_def)
qed

text \<open>C11: A market event is handled completely: with stores that answer, handling it ends exactly as the decision
  function says. Where a stage raises, so does the handling, and nothing is published. Otherwise it
  returns, the lifecycle has six valid envelopes, or seven with an order, and every queue receives,
  in this order, the intent if there is one and it is routed there, and each lifecycle event with the
  notification about it.\<close>

theorem decision_publishes_everything:
  assumes "envelope_ok envelope" and "starts_with ''market.canonical'' (py_str (pget (as_dict envelope) ''event_type'' (PStr [])))"
    and "memory_answers (oc_memory_ops oc)" and "clocks_ok io" and "broker_ok (oz_broker s)"
  shows "returns (\<lambda>ids. ends_as oc io strategy ids
      (decide (oc_llm_runtime oc) io strategy (as_dict (pget (as_dict envelope) ''payload'' PNone)))
      (oz_broker s) (handle_market_event oc io strategy envelope s)) (ids_of (as_dict envelope))"
  using assms by (rule handle_ends)

theorem decision_publishes_everything_witness:
  "case handle_market_event sample_orchestrator sample_decision_io sample_strategy sample_market_event sample_state of
     (Inr r, s') \<Rightarrow> length (or_lifecycle r) = 7
       \<and> queue_contents LIFECYCLE_KEY (oz_broker s') = or_lifecycle r
       \<and> queue_contents MOCK_ROUTING_KEY (oz_broker s') = [the (or_execution_intent r)]
   | _ \<Rightarrow> False"
proof -
  let ?b = "oz_broker sample_state" and ?oc = sample_orchestrator
  obtain dp where dp: "decide True sample_decision_io sample_strategy sample_market_payload = Inr dp" "should_publish_intent dp"
    by (rule sample_handled) blast
  from decision_publishes_everything[OF sample_event_ok(1,2) sample_frame(2,3) sample_event_ok(3), of sample_strategy]
  obtain ids where ids: "ids_of (as_dict sample_market_event) = Inr ids" "ends_as ?oc sample_decision_io sample_strategy ids (Inr dp) ?b
      (handle_market_event ?oc sample_decision_io sample_strategy sample_market_event sample_state)"
    unfolding sample_frame(4) by (auto simp: returns_iff sample_frame(1) dp(1))
  then obtain r s' where r: "handle_market_event ?oc sample_decision_io sample_strategy sample_market_event sample_state = (Inr r, s')"
    "concluded ?oc sample_decision_io ?b ids sample_strategy dp r (oz_broker s')"
    by (auto simp: ends_as_def returns_iff prod_eq_iff)
  have m: "mode_key (di_mode ids) = MOCK_ROUTING_KEY"
    using ids(1) by (auto simp: ids_of_def pindex_def sample_market_event_def mode_key_def)
  have k: "routed ?b LIFECYCLE_KEY LIFECYCLE_KEY" "\<not> routed ?b LIFECYCLE_KEY MOCK_ROUTING_KEY"
    "routed ?b MOCK_ROUTING_KEY MOCK_ROUTING_KEY" "\<not> routed ?b MOCK_ROUTING_KEY LIFECYCLE_KEY"
    "queue_contents LIFECYCLE_KEY ?b = []" "queue_contents MOCK_ROUTING_KEY ?b = []"
    by code_simp+
  have o: "oc_bridge ?oc = None" by (simp add: sample_orchestrator_def)
  have sent: "lifecycle_sent ?oc sample_decision_io ?b i es LIFECYCLE_KEY = es" "lifecycle_sent ?oc sample_decision_io ?b i es MOCK_ROUTING_KEY = []" for i es
    by (induction es arbitrary: i) (simp_all add: k o)
  have "or_execution_intent r \<noteq> None" using r(2) dp(2) by (auto simp: concluded_def result_of_def split: option.splits)
  then show ?thesis using r dp(2) by (auto simp: concluded_def k m sent)
qed

text \<open>A reply to the risk stage decides on its own: here the drawdown limit blocks a plan, the reply approves it
  nevertheless, and the guardrails, which do not look at the drawdown, let the order pass.\<close>

lemma drawdown_block_overridden:
  "let mc = sample_context (Fin 1);
       blocked = risk_evaluate sample_plan mc sample_strategy;
       risk = apply_risk_suggestion (reply [(''approved'', PBool True), (''approved_quantity'', PFloat (Fin (1 / 2)))]) blocked
   in ra_blocked_by blocked = [''drawdown_limit''] \<and> \<not> ra_approved blocked
      \<and> returns gd_allowed (guardrail_validate sample_strategy mc risk (propose_action sample_plan risk mc sample_strategy))"
  by code_simp


end
