(* ===== verification/Exec_Lifecycle.thy ===== *)
theory Exec_Lifecycle
  imports Shared_Envelope Shared_Broker Py_Hash Py_Actions
begin

text \<open>
  The worker that follows live orders (\<open>services/workers/execution_lifecycle.py\<close>): it tracks intents,
  reads order states from a private stream with REST polling as a fallback, and publishes order
  events. The exchange clients are arguments: what a stream or an adapter answers. Orders are
  objects that the code changes in place; here they live in the table of the worker under their key.
  Monotonic and calendar clock readings are arguments. The lemmas show what exactly one status report
  publishes, that the table stays sound and bounded, that no open order is lost unannounced, and that
  the fills published add up to the largest total reported; three examples show reports that are counted
  twice, lost or taken back.
\<close>

section \<open>Data\<close>

definition TERMINAL_STATUSES :: "string list" where
  "TERMINAL_STATUSES = [''filled'', ''canceled'', ''rejected'', ''expired'']"

definition FILL_EVENT_TYPES :: "string list" where
  "FILL_EVENT_TYPES = [''oms.order.partially_filled'', ''oms.order.filled'']"

record lifecycle_snapshot =
  ls_exchange :: string
  ls_symbol :: string
  ls_status :: string
  ls_exchange_order_id :: "string option"
  ls_client_order_id :: "string option"
  ls_filled_quantity_total :: pyfloat
  ls_average_price :: "pyfloat option"
  ls_fee_total :: "pyfloat option"
  ls_raw_response :: pydict

record tracked_order =
  tk_tracking_key :: string
  tk_trace_id :: string
  tk_decision_id :: string
  tk_mode :: string
  tk_idempotency_key :: string
  tk_strategy_id :: string
  tk_exchange :: string
  tk_symbol :: string
  tk_action :: string
  tk_order_type :: string
  tk_time_in_force :: "string option"
  tk_limit_price :: "pyfloat option"
  tk_trigger_price :: "pyfloat option"
  tk_reduce_only :: bool
  tk_requested_quantity :: pyfloat
  tk_client_order_id :: "string option"
  tk_exchange_order_id :: "string option"
  tk_status :: string
  tk_reported_filled :: pyfloat
  tk_reported_fee :: pyfloat
  tk_average_price :: "pyfloat option"
  tk_emitted_events :: int
  tk_terminal_marked_at :: "pyfloat option"

definition order_terminal :: "tracked_order \<Rightarrow> bool" where
  "order_terminal order = (tk_status order \<in> set TERMINAL_STATUSES)"

section \<open>Reading values\<close>

text \<open>An optional string that is present and not empty\<close>

definition has_text :: "string option \<Rightarrow> bool" where
  "has_text s = (case s of None \<Rightarrow> False | Some t \<Rightarrow> t \<noteq> [])"

definition strip_or_none :: "pyval \<Rightarrow> string option" where
  "strip_or_none v = (case v of
      PNone \<Rightarrow> None
    | _ \<Rightarrow> (let rendered = py_strip (py_str v) in if rendered = [] then None else Some rendered))"

definition number_or :: "pyval \<Rightarrow> pyfloat \<Rightarrow> pyfloat result" where
  "number_or v dflt = (case v of
      PNone \<Rightarrow> Inr dflt
    | _ \<Rightarrow> (case py_float v of
        Inr f \<Rightarrow> Inr f
      | Inl e \<Rightarrow> if exc_class e \<in> {TypeError, ValueError} then Inr dflt else Inl e))"

definition positive :: "pyfloat \<Rightarrow> pyfloat option" where
  "positive f = (if fle f (Fin 0) then None else Some f)"

definition positive_or_none :: "pyval \<Rightarrow> pyfloat option result" where
  "positive_or_none v = (case v of
      PNone \<Rightarrow> Inr None
    | _ \<Rightarrow> rbind (number_or v (Fin 0)) (\<lambda>number. Inr (positive number)))"

text \<open>\<open>x or y\<close> for optional positive numbers\<close>

definition or_else :: "'a option \<Rightarrow> 'a option \<Rightarrow> 'a option" where
  "or_else x y = (case x of None \<Rightarrow> y | Some _ \<Rightarrow> x)"

fun first_positive_float :: "pydict \<Rightarrow> string list \<Rightarrow> pyfloat result" where
  "first_positive_float d [] = Inr (Fin 0)"
| "first_positive_float d (key # keys) = (case dict_get d key of
      None \<Rightarrow> first_positive_float d keys
    | Some v \<Rightarrow> rbind (number_or v (Fin 0)) (\<lambda>number.
        if flt (Fin 0) number then Inr number else first_positive_float d keys))"

definition first_positive_or_none :: "pydict \<Rightarrow> string list \<Rightarrow> pyfloat option result" where
  "first_positive_or_none d keys = rbind (first_positive_float d keys) (\<lambda>number. Inr (positive number))"

definition bitget_status_data :: "pydict \<Rightarrow> pydict" where
  "bitget_status_data response = (case pget response ''data'' PNone of
      PDict d \<Rightarrow> d
    | PList (PDict d # _) \<Rightarrow> d
    | _ \<Rightarrow> response)"

section \<open>Statuses\<close>

definition STATUS_ALIASES :: "(string, string) dict" where
  "STATUS_ALIASES = [(''new'', ''submitted''), (''open'', ''submitted''), (''live'', ''submitted''),
     (''init'', ''submitted''), (''pending'', ''submitted''), (''partially_filled'', ''partially_filled''),
     (''partial_fill'', ''partially_filled''), (''partiallyfilled'', ''partially_filled''),
     (''filled'', ''filled''), (''closed'', ''filled''), (''cancelled'', ''canceled''), (''canceled'', ''canceled''),
     (''cancel'', ''canceled''), (''rejected'', ''rejected''), (''reject'', ''rejected''), (''expired'', ''expired'')]"

definition normalize_status :: "pyval \<Rightarrow> string" where
  "normalize_status status =
     (let normalized = py_lower (py_strip (py_str (py_or status (PStr [])))) in
      if normalized = [] then ''submitted'' else dict_get_default STATUS_ALIASES normalized normalized)"

definition EVENT_TYPES :: "(string, string) dict" where
  "EVENT_TYPES = [(''submitted'', ''oms.order.submitted''), (''partially_filled'', ''oms.order.partially_filled''),
     (''filled'', ''oms.order.filled''), (''canceled'', ''oms.order.canceled''),
     (''rejected'', ''oms.order.rejected''), (''expired'', ''oms.order.expired'')]"

definition status_to_event_type :: "string \<Rightarrow> string option" where
  "status_to_event_type status = dict_get EVENT_TYPES (normalize_status (PStr status))"

definition resolve_order_id :: "tracked_order \<Rightarrow> string" where
  "resolve_order_id order =
     (if has_text (tk_exchange_order_id order) then the (tk_exchange_order_id order)
      else if has_text (tk_client_order_id order) then the (tk_client_order_id order)
      else uuid5_url (''real-order:'' @ tk_idempotency_key order))"

section \<open>Reports of an exchange\<close>

definition extract_filled_quantity_total :: "string \<Rightarrow> pydict \<Rightarrow> pyfloat result" where
  "extract_filled_quantity_total exchange response =
     (let capped = (\<lambda>r. rbind r (\<lambda>number. Inr (fmax (Fin 0) number))) in
      if exchange = ''binance'' then capped (number_or (pget response ''executedQty'' PNone) (Fin 0))
      else if exchange = ''bitget'' then
        capped (first_positive_float (bitget_status_data response)
          [''baseVolume'', ''filledSize'', ''fillQuantity'', ''dealSize'', ''filledAmount''])
      else capped (first_positive_float response [''filled'', ''filledQty'', ''executedQty'']))"

definition extract_average_price :: "string \<Rightarrow> pydict \<Rightarrow> pyfloat \<Rightarrow> pyfloat option result" where
  "extract_average_price exchange response filled =
     (if exchange = ''binance'' then
        rbind (number_or (pget response ''cummulativeQuoteQty'' PNone) (Fin 0)) (\<lambda>cumulative_quote.
        if flt (Fin 0) filled \<and> flt (Fin 0) cumulative_quote then
          rbind (fdiv cumulative_quote filled) (\<lambda>average. Inr (Some average))
        else rbind (positive_or_none (pget response ''price'' PNone)) (\<lambda>price.
          case price of
            Some _ \<Rightarrow> Inr price
          | None \<Rightarrow> positive_or_none (pget response ''avgPrice'' PNone)))
      else if exchange = ''bitget'' then
        first_positive_or_none (bitget_status_data response) [''priceAvg'', ''avgPrice'', ''dealAvgPrice'', ''price'']
      else first_positive_or_none response [''avgPrice'', ''average'', ''price''])"

text \<open>The loop that adds up the fees of a list; rows that are no objects are skipped.\<close>

fun sum_fees :: "string \<Rightarrow> pyfloat \<Rightarrow> pyval list \<Rightarrow> pyfloat result" where
  "sum_fees key acc [] = Inr acc"
| "sum_fees key acc (row # rows) = (case row of
      PDict d \<Rightarrow> rbind (number_or (pget d key PNone) (Fin 0)) (\<lambda>fee.
        sum_fees key (fadd acc (fmax (Fin 0) fee)) rows)
    | _ \<Rightarrow> sum_fees key acc rows)"

definition fee_sum :: "string \<Rightarrow> pyval \<Rightarrow> pyfloat option result" where
  "fee_sum key v = (case v of
      PList rows \<Rightarrow> rbind (sum_fees key (Fin 0) rows) (\<lambda>fees. Inr (if flt (Fin 0) fees then Some fees else None))
    | _ \<Rightarrow> Inr None)"

definition extract_fee_total :: "string \<Rightarrow> pydict \<Rightarrow> pyfloat option result" where
  "extract_fee_total exchange response =
     (let found = (\<lambda>r. rbind r (\<lambda>fee. Inr (if flt (Fin 0) fee then Some fee else None))) in
      if exchange = ''binance'' then fee_sum ''commission'' (pget response ''fills'' PNone)
      else if exchange = ''bitget'' then found (first_positive_float (bitget_status_data response) [''fee'', ''totalFee''])
      else found (first_positive_float response [''fee'', ''feePaid'', ''totalFee'']))"

text \<open>An adapter answers with a status and a raw response.\<close>

record dispatch_outcome =
  do_status :: string
  do_raw_response :: pyval

definition snapshot_from_dispatch_outcome ::
    "tracked_order \<Rightarrow> dispatch_outcome \<Rightarrow> lifecycle_snapshot result" where
  "snapshot_from_dispatch_outcome order outcome =
     (let raw_response = as_dict (do_raw_response outcome);
          exchange_response = as_dict (pget raw_response ''exchange_response'' PNone);
          exchange = py_lower (py_strip (tk_exchange order));
          exchange_order_id = or_else (strip_or_none (pget exchange_response ''orderId'' PNone)) (tk_exchange_order_id order);
          client_order_id = or_else (or_else (strip_or_none (pget exchange_response ''clientOrderId'' PNone))
            (strip_or_none (pget exchange_response ''clientOid'' PNone))) (tk_client_order_id order) in
      rbind (extract_filled_quantity_total exchange exchange_response) (\<lambda>filled.
      rbind (extract_average_price exchange exchange_response filled) (\<lambda>average_price.
      rbind (extract_fee_total exchange exchange_response) (\<lambda>fee_total.
      Inr \<lparr>ls_exchange = exchange, ls_symbol = tk_symbol order, ls_status = normalize_status (PStr (do_status outcome)),
           ls_exchange_order_id = exchange_order_id, ls_client_order_id = client_order_id,
           ls_filled_quantity_total = filled, ls_average_price = average_price, ls_fee_total = fee_total,
           ls_raw_response = raw_response\<rparr>))))"

definition extract_ccxt_fee_total :: "pydict \<Rightarrow> pyfloat option result" where
  "extract_ccxt_fee_total order =
     rbind (case pget order ''fee'' PNone of
         PDict fee \<Rightarrow> rbind (number_or (pget fee ''cost'' PNone) (Fin 0)) (\<lambda>cost.
           Inr (if flt (Fin 0) cost then Some cost else None))
       | _ \<Rightarrow> Inr None) (\<lambda>cost. case cost of
         Some _ \<Rightarrow> Inr cost
       | None \<Rightarrow> fee_sum ''cost'' (pget order ''fees'' PNone))"

definition normalize_ccxt_order :: "string \<Rightarrow> string \<Rightarrow> pydict \<Rightarrow> lifecycle_snapshot result" where
  "normalize_ccxt_order exchange symbol item =
     (let status0 = normalize_status (pget item ''status'' (PStr ''submitted'')) in
      rbind (number_or (pget item ''filled'' PNone) (Fin 0)) (\<lambda>number.
      let filled = fmax (Fin 0) number;
          status = (if status0 = ''submitted'' \<and> flt (Fin 0) filled then ''partially_filled'' else status0) in
      rbind (positive_or_none (pget item ''average'' PNone)) (\<lambda>average.
      rbind (case average of Some _ \<Rightarrow> Inr average | None \<Rightarrow> positive_or_none (pget item ''price'' PNone)) (\<lambda>average_price.
      rbind (extract_ccxt_fee_total item) (\<lambda>fee_total.
      Inr \<lparr>ls_exchange = exchange,
           ls_symbol = norm_upper (py_str (py_or (pget item ''symbol'' (PStr symbol)) (PStr symbol))),
           ls_status = status, ls_exchange_order_id = strip_or_none (pget item ''id'' PNone),
           ls_client_order_id = strip_or_none (pget item ''clientOrderId'' PNone), ls_filled_quantity_total = filled,
           ls_average_price = average_price, ls_fee_total = fee_total, ls_raw_response = item\<rparr>)))))"

definition ccxt_order_values :: "pyval \<Rightarrow> pyval list" where
  "ccxt_order_values orders = (case orders of
      PDict d \<Rightarrow> (case pget d ''orders'' PNone of PList values \<Rightarrow> values | _ \<Rightarrow> [orders])
    | PList values \<Rightarrow> values
    | _ \<Rightarrow> [])"

definition normalize_ccxt_orders :: "string \<Rightarrow> string \<Rightarrow> pyval \<Rightarrow> lifecycle_snapshot list result" where
  "normalize_ccxt_orders exchange symbol orders =
     rmap (normalize_ccxt_order exchange symbol) (map as_dict (filter is_mapping (ccxt_order_values orders)))"


section \<open>Private stream\<close>

text \<open>
  The clients of the loaded exchanges: \<open>watch_orders\<close> of a client, with a symbol or without; \<open>None\<close> for a client
  that has no such method.
\<close>

type_synonym ccxt_clients = "(string, (string option \<Rightarrow> pyval result) option) dict"

definition watch_orders :: "(string option \<Rightarrow> pyval result) option \<Rightarrow> string \<Rightarrow> pyval result" where
  "watch_orders client symbol = (case client of
      None \<Rightarrow> Inr (PList [])
    | Some watch \<Rightarrow> (case watch (Some symbol) of
        Inl e \<Rightarrow> if exc_class e = TypeError then watch None else Inl e
      | Inr orders \<Rightarrow> Inr orders))"

text \<open>The first symbol of an open order per exchange that has a client\<close>

definition symbol_by_exchange :: "ccxt_clients \<Rightarrow> tracked_order list \<Rightarrow> (string, string) dict" where
  "symbol_by_exchange clients orders = foldl (\<lambda>acc order.
     if order_terminal order \<or> dict_get clients (tk_exchange order) = None \<or> dict_get acc (tk_exchange order) \<noteq> None then acc
     else dict_set (tk_exchange order) (tk_symbol order) acc) [] orders"

text \<open>A failed watch is skipped; the REST fallback covers for it.\<close>

definition ccxt_poll_updates :: "ccxt_clients \<Rightarrow> tracked_order list \<Rightarrow> lifecycle_snapshot list result" where
  "ccxt_poll_updates clients orders =
     rbind (rmap (\<lambda>(exchange, symbol). case dict_get clients exchange of
         None \<Rightarrow> Inr []
       | Some client \<Rightarrow> (case watch_orders client symbol of
           Inl _ \<Rightarrow> Inr []
         | Inr watched \<Rightarrow> normalize_ccxt_orders exchange symbol watched))
       (symbol_by_exchange clients orders)) (\<lambda>snapshots. Inr (concat snapshots))"

definition request_timeout :: "pyfloat \<Rightarrow> pyfloat \<Rightarrow> pyfloat" where
  "request_timeout watch_timeout timeout_seconds =
     (if flt (Fin 0) timeout_seconds then fmin watch_timeout (fmax (fl (1 / 10)) timeout_seconds) else watch_timeout)"

section \<open>REST polling\<close>

definition opt_val :: "('a \<Rightarrow> pyval) \<Rightarrow> 'a option \<Rightarrow> pyval" where
  "opt_val f x = (case x of None \<Rightarrow> PNone | Some y \<Rightarrow> f y)"

definition status_request :: "tracked_order \<Rightarrow> pydict" where
  "status_request order =
     [(''command_id'', PStr (''status-'' @ tk_decision_id order)), (''operation'', PStr ''GET_ORDER_STATUS''),
      (''action'', PStr ''CANCEL''), (''exchange'', PStr (tk_exchange order)), (''symbol'', PStr (tk_symbol order)),
      (''quantity'', PFloat (Fin 0)), (''order_type'', PStr (tk_order_type order)),
      (''time_in_force'', opt_val PStr (tk_time_in_force order)), (''limit_price'', opt_val PFloat (tk_limit_price order)),
      (''trigger_price'', opt_val PFloat (tk_trigger_price order)), (''reduce_only'', PBool (tk_reduce_only order)),
      (''idempotency_key'', PStr (tk_idempotency_key order @ '':status'')),
      (''client_order_id'', opt_val PStr (tk_client_order_id order)),
      (''exchange_order_id'', opt_val PStr (tk_exchange_order_id order)),
      (''trace_id'', PStr (tk_trace_id order)), (''decision_id'', PStr (tk_decision_id order))]"

text \<open>\<open>get_order_status\<close> of the adapter of an exchange, \<open>None\<close> where there is no adapter. The cache of adapters
  does not show in the answers.\<close>

definition rest_fetch_status ::
    "(string \<Rightarrow> (pydict \<Rightarrow> dispatch_outcome result) option) \<Rightarrow> tracked_order \<Rightarrow> lifecycle_snapshot option result" where
  "rest_fetch_status adapters order =
     (let normalized = py_lower (py_strip (tk_exchange order)) in
      if normalized = [] then Inr None
      else (case adapters normalized of
          None \<Rightarrow> Inr None
        | Some get_order_status \<Rightarrow> (case get_order_status (status_request order) of
            Inl _ \<Rightarrow> Inr None
          | Inr outcome \<Rightarrow> rbind (snapshot_from_dispatch_outcome order outcome) (\<lambda>snapshot. Inr (Some snapshot)))))"

section \<open>The worker\<close>

record lifecycle_worker =
  lw_intent_queue_name :: string
  lw_supports_private_stream :: bool
  lw_stream_stale_after :: pyfloat
  lw_fallback_interval :: pyfloat
  lw_terminal_retention :: pyfloat
  lw_max_tracked_orders :: int
  lw_orders :: "(string, tracked_order) dict"
  lw_last_private_update :: "pyfloat option"
  lw_last_fallback_poll :: pyfloat
  lw_intents_tracked_total :: int
  lw_private_updates_total :: int
  lw_rest_fallback_polls_total :: int
  lw_rest_fallback_updates_total :: int
  lw_last_activity :: pydict
  lw_broker :: broker

definition lifecycle_init ::
    "broker \<Rightarrow> string \<Rightarrow> bool \<Rightarrow> pyfloat \<Rightarrow> pyfloat \<Rightarrow> pyfloat \<Rightarrow> int \<Rightarrow> lifecycle_worker" where
  "lifecycle_init broker intent_queue_name private_stream stale_after interval retention max_tracked_orders =
     \<lparr>lw_intent_queue_name = intent_queue_name, lw_supports_private_stream = private_stream,
      lw_stream_stale_after = fmax (Fin 0) stale_after, lw_fallback_interval = fmax (Fin 0) interval,
      lw_terminal_retention = fmax (Fin 0) retention, lw_max_tracked_orders = max 10 max_tracked_orders,
      lw_orders = [], lw_last_private_update = None, lw_last_fallback_poll = Fin 0, lw_intents_tracked_total = 0,
      lw_private_updates_total = 0, lw_rest_fallback_polls_total = 0, lw_rest_fallback_updates_total = 0,
      lw_last_activity = [], lw_broker = broker\<rparr>"

definition evictable :: "bool \<Rightarrow> pyfloat \<Rightarrow> pyfloat \<Rightarrow> tracked_order \<Rightarrow> bool" where
  "evictable force now retention order \<longleftrightarrow> order_terminal order \<and> (case tk_terminal_marked_at order of
      None \<Rightarrow> True
    | Some marked_at \<Rightarrow> force \<or> fle retention (fsub now marked_at))"

definition evict_terminal_orders :: "bool \<Rightarrow> pyfloat \<Rightarrow> lifecycle_worker \<Rightarrow> lifecycle_worker" where
  "evict_terminal_orders force now lw =
     lw\<lparr>lw_orders := filter (\<lambda>(key, order). \<not> evictable force now (lw_terminal_retention lw) order) (lw_orders lw)\<rparr>"

definition open_orders :: "lifecycle_worker \<Rightarrow> (string \<times> tracked_order) list" where
  "open_orders lw = filter (\<lambda>(key, order). \<not> order_terminal order) (lw_orders lw)"

definition put_order :: "string \<Rightarrow> tracked_order \<Rightarrow> lifecycle_worker \<Rightarrow> lifecycle_worker" where
  "put_order key order lw = lw\<lparr>lw_orders := dict_set key order (lw_orders lw)\<rparr>"

section \<open>Tracking an intent\<close>

record intent_fields =
  if_idempotency_key :: string
  if_exchange :: string
  if_symbol :: string
  if_action :: string
  if_quantity :: pyfloat

definition read_intent :: "pydict \<Rightarrow> pydict \<Rightarrow> intent_fields result" where
  "read_intent envelope payload =
     rbind (py_float (py_or (pget payload ''quantity'' (PFloat (Fin 0))) (PFloat (Fin 0)))) (\<lambda>quantity.
     Inr \<lparr>if_idempotency_key = py_strip (py_str (pget envelope ''idempotency_key'' (PStr []))),
          if_exchange = py_lower (py_strip (py_str (pget payload ''exchange'' (PStr ''binance'')))),
          if_symbol = norm_upper (py_str (pget payload ''symbol'' (PStr []))),
          if_action = norm_upper (py_str (pget payload ''action'' (PStr []))), if_quantity = fabs quantity\<rparr>)"

definition intent_usable :: "intent_fields \<Rightarrow> bool" where
  "intent_usable f \<longleftrightarrow> if_idempotency_key f \<noteq> [] \<and> if_exchange f \<noteq> [] \<and> if_symbol f \<noteq> []
     \<and> if_action f \<in> {''BUY'', ''SELL'', ''CLOSE''} \<and> \<not> fle (if_quantity f) (Fin 0)"

definition new_tracked_order :: "pydict \<Rightarrow> pydict \<Rightarrow> intent_fields \<Rightarrow> tracked_order result" where
  "new_tracked_order envelope payload f =
     rbind (pindex envelope ''trace_id'') (\<lambda>trace_id.
     rbind (pindex envelope ''decision_id'') (\<lambda>decision_id.
     rbind (positive_or_none (pget payload ''limit_price'' PNone)) (\<lambda>limit_price.
     rbind (positive_or_none (pget payload ''trigger_price'' PNone)) (\<lambda>trigger_price.
     Inr \<lparr>tk_tracking_key = if_idempotency_key f, tk_trace_id = py_str trace_id, tk_decision_id = py_str decision_id,
          tk_mode = ''REAL'', tk_idempotency_key = if_idempotency_key f,
          tk_strategy_id = py_str (pget payload ''strategy_id'' (PStr [])), tk_exchange = if_exchange f,
          tk_symbol = if_symbol f, tk_action = if_action f,
          tk_order_type = py_upper (py_str (py_or (pget payload ''order_type'' (PStr ''MARKET'')) (PStr ''MARKET''))),
          tk_time_in_force = strip_or_none (pget payload ''time_in_force'' PNone), tk_limit_price = limit_price,
          tk_trigger_price = trigger_price, tk_reduce_only = truthy (pget payload ''reduce_only'' (PBool False)),
          tk_requested_quantity = if_quantity f,
          tk_client_order_id = strip_or_none (pget payload ''client_order_id'' PNone),
          tk_exchange_order_id = strip_or_none (pget payload ''exchange_order_id'' PNone),
          tk_status = ''submitted'', tk_reported_filled = Fin 0, tk_reported_fee = Fin 0, tk_average_price = None,
          tk_emitted_events = 0, tk_terminal_marked_at = None\<rparr>))))"

definition refresh_tracked_order :: "pydict \<Rightarrow> intent_fields \<Rightarrow> tracked_order \<Rightarrow> tracked_order" where
  "refresh_tracked_order payload f order = order\<lparr>
     tk_client_order_id := or_else (strip_or_none (pget payload ''client_order_id'' PNone)) (tk_client_order_id order),
     tk_exchange_order_id := or_else (strip_or_none (pget payload ''exchange_order_id'' PNone)) (tk_exchange_order_id order),
     tk_requested_quantity := if_quantity f, tk_action := if_action f\<rparr>"


text \<open>Whether a message is an intent to be tracked; a broken envelope is ignored.\<close>

definition real_intent :: "pydict \<Rightarrow> bool result" where
  "real_intent envelope = (case validate_envelope (PDict envelope) of
      Inl e \<Rightarrow> if exc_class e = EnvelopeValidationError then Inr False else Inl e
    | Inr _ \<Rightarrow> Inr (py_upper (py_str (pget envelope ''mode'' (PStr []))) = ''REAL''
        \<and> py_str (pget envelope ''event_type'' (PStr [])) = ''execution.intent.created''
        \<and> is_mapping (pget envelope ''payload'' PNone)))"

definition make_room :: "pyfloat \<Rightarrow> lifecycle_worker \<Rightarrow> lifecycle_worker" where
  "make_room now lw =
     (if lw_max_tracked_orders lw \<le> int (length (lw_orders lw)) then evict_terminal_orders True now lw else lw)"

definition track_execution_intent :: "pyfloat \<Rightarrow> pydict \<Rightarrow> (lifecycle_worker, string option) action" where
  "track_execution_intent now envelope =
     sbind (slift (real_intent envelope)) (\<lambda>wanted.
     if \<not> wanted then slift (Inr None)
     else (let payload = as_dict (pget envelope ''payload'' PNone) in
       sbind (slift (read_intent envelope payload)) (\<lambda>f.
       if \<not> intent_usable f then slift (Inr None)
       else (\<lambda>lw. (let key = if_idempotency_key f in case dict_get (lw_orders lw) key of
           Some existing \<Rightarrow> (Inr (Some key), put_order key (refresh_tracked_order payload f existing) lw)
         | None \<Rightarrow>
             (let lw1 = make_room now lw in
              if lw_max_tracked_orders lw1 \<le> int (length (lw_orders lw1)) then (Inr None, lw1)
              else (case new_tracked_order envelope payload f of
                  Inl e \<Rightarrow> (Inl e, lw1)
                | Inr order \<Rightarrow> (Inr (Some key), put_order key order lw1))))))))"

section \<open>Applying a report\<close>

text \<open>The order a report is about, by its key.\<close>

definition resolve_order :: "lifecycle_snapshot \<Rightarrow> (string, tracked_order) dict \<Rightarrow> string option" where
  "resolve_order snapshot orders =
     (let exchange = py_lower (py_strip (ls_exchange snapshot));
          find_by = (\<lambda>reported field. if has_text reported then
              map_option fst (find (\<lambda>(key, order). tk_exchange order = exchange \<and> has_text (field order)
                \<and> field order = map_option py_strip reported) orders)
            else None) in
      if exchange = [] then None
      else (case find_by (ls_exchange_order_id snapshot) tk_exchange_order_id of
          Some key \<Rightarrow> Some key
        | None \<Rightarrow> (case find_by (ls_client_order_id snapshot) tk_client_order_id of
            Some key \<Rightarrow> Some key
          | None \<Rightarrow>
              (let symbol = norm_upper (ls_symbol snapshot) in
               if symbol = [] then None
               else (case filter (\<lambda>(key, order). tk_exchange order = exchange \<and> tk_symbol order = symbol) orders of
                   [(key, _)] \<Rightarrow> Some key
                 | _ \<Rightarrow> None)))))"

definition adopt_ids :: "lifecycle_snapshot \<Rightarrow> tracked_order \<Rightarrow> tracked_order" where
  "adopt_ids snapshot order = order\<lparr>
     tk_exchange_order_id := (if has_text (ls_exchange_order_id snapshot) \<and> \<not> has_text (tk_exchange_order_id order)
       then ls_exchange_order_id snapshot else tk_exchange_order_id order),
     tk_client_order_id := (if has_text (ls_client_order_id snapshot) \<and> \<not> has_text (tk_client_order_id order)
       then ls_client_order_id snapshot else tk_client_order_id order)\<rparr>"

text \<open>A cumulative figure of a report, never below what was reported before, and what it adds.\<close>

definition raised_total :: "pyfloat \<Rightarrow> pyfloat \<Rightarrow> pyfloat" where
  "raised_total reported before =
     (let t = fmax (Fin 0) reported in if flt t before then before else t)"

definition added :: "pyfloat \<Rightarrow> pyfloat \<Rightarrow> pyfloat" where
  "added t before = fmax (Fin 0) (fsub t before)"

text \<open>What a report says about an order: the event to publish, its quantity, and the new figures.\<close>

record order_update =
  ou_event_type :: string
  ou_status :: string
  ou_quantity :: pyfloat
  ou_fee_delta :: pyfloat
  ou_total_filled :: pyfloat
  ou_fee_total :: pyfloat
  ou_average_price :: "pyfloat option"

definition plan_update :: "lifecycle_snapshot \<Rightarrow> tracked_order \<Rightarrow> order_update option" where
  "plan_update snapshot order =
     (let status = normalize_status (PStr (ls_status snapshot));
          total_filled = raised_total (ls_filled_quantity_total snapshot) (tk_reported_filled order);
          fill_delta = added total_filled (tk_reported_filled order);
          fee_total = raised_total (case ls_fee_total snapshot of None \<Rightarrow> Fin 0 | Some f \<Rightarrow> f) (tk_reported_fee order);
          fee_delta = added fee_total (tk_reported_fee order);
          average_price = or_else (Option.bind (ls_average_price snapshot) positive) (tk_average_price order) in
      if status = tk_status order \<and> fle fill_delta (Fin 0) \<and> fle fee_delta (Fin 0) then None
      else (case status_to_event_type status of
          None \<Rightarrow> None
        | Some event_type \<Rightarrow>
            (let is_fill = event_type \<in> set FILL_EVENT_TYPES;
                 inferred = is_fill \<and> fle fill_delta (Fin 0) \<and> status = ''filled'';
                 fill = (if inferred then added (tk_requested_quantity order) (tk_reported_filled order) else fill_delta);
                 quantity = (if is_fill then fill else tk_requested_quantity order) in
             if is_fill \<and> fle fill (Fin 0) \<or> fle quantity (Fin 0) then None
             else Some \<lparr>ou_event_type = event_type, ou_status = status, ou_quantity = quantity, ou_fee_delta = fee_delta,
               ou_total_filled = total_filled, ou_fee_total = fee_total, ou_average_price = average_price\<rparr>)))"

definition order_event :: "int \<Rightarrow> string \<Rightarrow> tracked_order \<Rightarrow> order_update \<Rightarrow> pydict" where
  "order_event now source order u =
     [(''trace_id'', PStr (tk_trace_id order)), (''decision_id'', PStr (tk_decision_id order)),
      (''mode'', PStr (tk_mode order)),
      (''idempotency_key'', PStr (tk_idempotency_key order @ '':'' @ source @ '':'' @ int_str (tk_emitted_events order))),
      (''event_type'', PStr (ou_event_type u)), (''emitted_at'', PStr (iso_utc now)),
      (''payload'', PDict [
         (''strategy_id'', PStr (tk_strategy_id order)), (''order_id'', PStr (resolve_order_id order)),
         (''exchange_order_id'', opt_val PStr (tk_exchange_order_id order)),
         (''client_order_id'', opt_val PStr (tk_client_order_id order)), (''exchange'', PStr (tk_exchange order)),
         (''symbol'', PStr (tk_symbol order)), (''mode'', PStr (tk_mode order)), (''action'', PStr (tk_action order)),
         (''order_type'', PStr (tk_order_type order)), (''time_in_force'', opt_val PStr (tk_time_in_force order)),
         (''limit_price'', opt_val PFloat (tk_limit_price order)),
         (''trigger_price'', opt_val PFloat (tk_trigger_price order)), (''reduce_only'', PBool (tk_reduce_only order)),
         (''quantity'', PFloat (ou_quantity u)), (''fill_price'', opt_val PFloat (ou_average_price u)),
         (''fee_paid'', PFloat (if flt (Fin 0) (ou_fee_delta u) then ou_fee_delta u else Fin 0)),
         (''status'', PStr (py_upper (ou_status u))), (''source'', PStr source)]),
      (''service'', PStr ''execution_lifecycle_worker'')]"

definition commit_update :: "pyfloat \<Rightarrow> order_update \<Rightarrow> tracked_order \<Rightarrow> tracked_order" where
  "commit_update now u order =
     (let order1 = order\<lparr>tk_status := ou_status u, tk_average_price := ou_average_price u,
            tk_reported_filled := fmax (tk_reported_filled order) (ou_total_filled u),
            tk_reported_fee := fmax (tk_reported_fee order) (ou_fee_total u)\<rparr> in
      if order_terminal order1 then order1\<lparr>tk_terminal_marked_at := Some now\<rparr> else order1)"


definition update_activity :: "string \<Rightarrow> order_update \<Rightarrow> tracked_order \<Rightarrow> pydict" where
  "update_activity source u order =
     [(''event'', PStr (ou_event_type u)), (''source'', PStr source), (''trace_id'', PStr (tk_trace_id order)),
      (''decision_id'', PStr (tk_decision_id order)), (''mode'', PStr (tk_mode order)),
      (''order_id'', PStr (resolve_order_id order)), (''exchange'', PStr (tk_exchange order)),
      (''symbol'', PStr (tk_symbol order)), (''status'', PStr (tk_status order)),
      (''filled_quantity_total'', PFloat (tk_reported_filled order)),
      (''average_price'', opt_val PFloat (tk_average_price order))]"

text \<open>One report; \<open>marked_at\<close> and \<open>now\<close> are the readings of the two clocks. An event that cannot be published
  leaves the order with its identifiers and its counter updated.\<close>

definition apply_snapshot ::
    "pyfloat \<times> int \<Rightarrow> string \<Rightarrow> lifecycle_snapshot \<Rightarrow> (lifecycle_worker, bool) action" where
  "apply_snapshot clocks source snapshot lw = (case clocks of (marked_at, now) \<Rightarrow>
     case resolve_order snapshot (lw_orders lw) of
       None \<Rightarrow> (Inr False, lw)
     | Some key \<Rightarrow> (case dict_get (lw_orders lw) key of
         None \<Rightarrow> (Inr False, lw)
       | Some order0 \<Rightarrow>
           (let order1 = adopt_ids snapshot order0 in
            case plan_update snapshot order1 of
              None \<Rightarrow> (Inr False, put_order key order1 lw)
            | Some u \<Rightarrow>
                (let order2 = order1\<lparr>tk_emitted_events := tk_emitted_events order1 + 1\<rparr>;
                     event = order_event now source order2 u;
                     lw2 = put_order key order2 lw in
                 case rbind (validate_envelope (PDict event)) (\<lambda>_. broker_publish (ou_event_type u) (PDict event) (lw_broker lw)) of
                   Inl e \<Rightarrow> (Inl e, lw2)
                 | Inr (_, b) \<Rightarrow>
                     (let order3 = commit_update marked_at u order2 in
                      (Inr True, (put_order key order3 lw2)\<lparr>lw_broker := b, lw_last_activity := update_activity source u order3\<rparr>))))))"

text \<open>What one round reads from outside: the stream, the poller, and the clocks.\<close>

record lifecycle_io =
  li_poll_updates :: "tracked_order list \<Rightarrow> lifecycle_snapshot list result"
  li_fetch_status :: "tracked_order \<Rightarrow> lifecycle_snapshot option result"
  li_track_at :: pyfloat
  li_private_at :: pyfloat
  li_check_at :: pyfloat
  li_polled_at :: pyfloat
  li_evict_at :: pyfloat
  li_apply :: "string \<Rightarrow> nat \<Rightarrow> pyfloat \<times> int"

fun apply_private ::
    "lifecycle_io \<Rightarrow> nat \<Rightarrow> bool \<Rightarrow> lifecycle_snapshot list \<Rightarrow> (lifecycle_worker, bool) action" where
  "apply_private io i did_work [] = slift (Inr did_work)"
| "apply_private io i did_work (snapshot # snapshots) =
     sbind (apply_snapshot (li_apply io ''private_stream'' i) ''private_stream'' snapshot) (\<lambda>published.
     apply_private io (Suc i) (did_work \<or> published) snapshots)"

definition private_round :: "lifecycle_io \<Rightarrow> (lifecycle_worker, bool) action" where
  "private_round io lw =
     (if open_orders lw = [] then (Inr False, lw)
      else sbind (slift (li_poll_updates io (map snd (open_orders lw)))) (\<lambda>updates lw.
        apply_private io 0 False updates (if updates = [] then lw
          else lw\<lparr>lw_last_private_update := Some (li_private_at io),
                  lw_private_updates_total := lw_private_updates_total lw + int (length updates)\<rparr>)) lw)"

definition should_poll_rest_fallback :: "pyfloat \<Rightarrow> lifecycle_worker \<Rightarrow> bool" where
  "should_poll_rest_fallback now lw \<longleftrightarrow> open_orders lw \<noteq> []
     \<and> \<not> flt (fsub now (lw_last_fallback_poll lw)) (lw_fallback_interval lw)
     \<and> (\<not> lw_supports_private_stream lw \<or> (case lw_last_private_update lw of
          None \<Rightarrow> True
        | Some t \<Rightarrow> fle (lw_stream_stale_after lw) (fsub now t)))"

text \<open>The loop over the open orders; an order changed by an earlier report is seen as it is now.\<close>

fun poll_orders :: "lifecycle_io \<Rightarrow> nat \<Rightarrow> bool \<Rightarrow> string list \<Rightarrow> (lifecycle_worker, bool) action" where
  "poll_orders io i did_work [] = slift (Inr did_work)"
| "poll_orders io i did_work (key # keys) = (\<lambda>lw. case dict_get (lw_orders lw) key of
      None \<Rightarrow> poll_orders io (Suc i) did_work keys lw
    | Some order \<Rightarrow>
        sbind (slift (li_fetch_status io order)) (\<lambda>answer. case answer of
            None \<Rightarrow> poll_orders io (Suc i) did_work keys
          | Some snapshot \<Rightarrow>
              sbind (apply_snapshot (li_apply io ''rest_fallback'' i) ''rest_fallback'' snapshot) (\<lambda>published lw.
                poll_orders io (Suc i) (did_work \<or> published) keys (if published
                  then lw\<lparr>lw_rest_fallback_updates_total := lw_rest_fallback_updates_total lw + 1\<rparr> else lw))) lw)"

definition poll_rest_fallback :: "lifecycle_io \<Rightarrow> (lifecycle_worker, bool) action" where
  "poll_rest_fallback io lw =
     poll_orders io 0 False (map fst (open_orders lw))
       (lw\<lparr>lw_rest_fallback_polls_total := lw_rest_fallback_polls_total lw + 1\<rparr>)"

definition track_activity :: "tracked_order \<Rightarrow> pydict" where
  "track_activity order =
     [(''event'', PStr ''intent_tracked''), (''trace_id'', PStr (tk_trace_id order)),
      (''decision_id'', PStr (tk_decision_id order)), (''mode'', PStr (tk_mode order)),
      (''exchange'', PStr (tk_exchange order)), (''symbol'', PStr (tk_symbol order)),
      (''status'', PStr (tk_status order)), (''order_type'', PStr (tk_order_type order)),
      (''requested_quantity'', PFloat (tk_requested_quantity order))]"

definition intent_round :: "lifecycle_io \<Rightarrow> pyfloat \<Rightarrow> (lifecycle_worker, bool) action" where
  "intent_round io timeout_seconds lw =
     (case broker_consume (lw_intent_queue_name lw) (Some timeout_seconds) (lw_broker lw) of
        Inl e \<Rightarrow> (Inl e, lw)
      | Inr (Received intent, b) \<Rightarrow>
          sbind (track_execution_intent (li_track_at io) intent) (\<lambda>tracked lw. case tracked of
              None \<Rightarrow> (Inr False, lw)
            | Some key \<Rightarrow> (Inr True, lw\<lparr>lw_intents_tracked_total := lw_intents_tracked_total lw + 1,
                lw_last_activity := (case dict_get (lw_orders lw) key of None \<Rightarrow> [] | Some order \<Rightarrow> track_activity order)\<rparr>))
            (lw\<lparr>lw_broker := b\<rparr>)
      | Inr (_, b) \<Rightarrow> (Inr False, lw\<lparr>lw_broker := b\<rparr>))"

definition fallback_round :: "lifecycle_io \<Rightarrow> (lifecycle_worker, bool) action" where
  "fallback_round io lw =
     (if should_poll_rest_fallback (li_check_at io) lw
      then sbind (poll_rest_fallback io) (\<lambda>did_work lw. (Inr did_work, lw\<lparr>lw_last_fallback_poll := li_polled_at io\<rparr>)) lw
      else (Inr False, lw))"

definition lifecycle_run_once :: "lifecycle_io \<Rightarrow> pyfloat \<Rightarrow> (lifecycle_worker, bool) action" where
  "lifecycle_run_once io timeout_seconds =
     sbind (intent_round io timeout_seconds) (\<lambda>tracked.
     sbind (private_round io) (\<lambda>private.
     sbind (fallback_round io) (\<lambda>polled.
     (\<lambda>lw. (Inr (tracked \<or> private \<or> polled), evict_terminal_orders False (li_evict_at io) lw)))))"

text \<open>The figures of \<open>lifecycle_activity\<close>\<close>

definition lifecycle_activity :: "lifecycle_worker \<Rightarrow> pydict" where
  "lifecycle_activity lw =
     [(''tracked_orders_total'', PInt (int (length (lw_orders lw)))),
      (''open_orders_total'', PInt (int (length (open_orders lw)))),
      (''terminal_orders_total'', PInt (int (length (filter (\<lambda>(key, order). order_terminal order) (lw_orders lw))))),
      (''private_stream_enabled'', PBool (lw_supports_private_stream lw)),
      (''intents_tracked_total'', PInt (lw_intents_tracked_total lw)),
      (''private_updates_total'', PInt (lw_private_updates_total lw)),
      (''rest_fallback_polls_total'', PInt (lw_rest_fallback_polls_total lw)),
      (''rest_fallback_updates_total'', PInt (lw_rest_fallback_updates_total lw))]
     @ (if lw_last_activity lw = [] then [] else [(''last_activity'', PDict (lw_last_activity lw))])"


section \<open>The table of orders\<close>

definition order_ok :: "string \<Rightarrow> tracked_order \<Rightarrow> bool" where
  "order_ok key order \<longleftrightarrow> tk_tracking_key order = key \<and> tk_idempotency_key order = key \<and> key \<noteq> []
     \<and> uuid_ok (tk_trace_id order) \<and> uuid_ok (tk_decision_id order) \<and> tk_mode order = ''REAL''
     \<and> fle (Fin 0) (tk_reported_filled order) \<and> fle (Fin 0) (tk_reported_fee order)"

definition tracking_ok :: "lifecycle_worker \<Rightarrow> bool" where
  "tracking_ok lw \<longleftrightarrow> dict_wf (lw_orders lw) \<and> (\<forall>key order. dict_get (lw_orders lw) key = Some order \<longrightarrow> order_ok key order)
     \<and> int (length (lw_orders lw)) \<le> lw_max_tracked_orders lw \<and> broker_ok (lw_broker lw)"

text \<open>The part of an order that never changes\<close>

definition same_order :: "tracked_order \<Rightarrow> tracked_order \<Rightarrow> bool" where
  "same_order o1 o2 \<longleftrightarrow> tk_tracking_key o1 = tk_tracking_key o2 \<and> tk_trace_id o1 = tk_trace_id o2
     \<and> tk_decision_id o1 = tk_decision_id o2 \<and> tk_mode o1 = tk_mode o2 \<and> tk_idempotency_key o1 = tk_idempotency_key o2
     \<and> tk_strategy_id o1 = tk_strategy_id o2 \<and> tk_exchange o1 = tk_exchange o2 \<and> tk_symbol o1 = tk_symbol o2"

lemma same_order_refl [simp]: "same_order order order"
  by (simp add: same_order_def)

lemma same_order_trans: "same_order a b \<Longrightarrow> same_order b c \<Longrightarrow> same_order a c"
  by (simp add: same_order_def)

text \<open>An order that one of the operations has rewritten\<close>

definition succeeds :: "tracked_order \<Rightarrow> tracked_order \<Rightarrow> bool" where
  "succeeds o1 o2 \<longleftrightarrow> same_order o1 o2 \<and> fle (tk_reported_filled o1) (tk_reported_filled o2)
     \<and> fle (tk_reported_fee o1) (tk_reported_fee o2)"

lemma succeeds_ok: "order_ok key o1 \<Longrightarrow> succeeds o1 o2 \<Longrightarrow> order_ok key o2"
  by (auto simp: order_ok_def succeeds_def same_order_def elim: fle_trans)

lemma nonneg_refl: "fle (Fin 0) x \<Longrightarrow> fle x x"
  by (cases x) auto

lemma succeeds_adopt: "order_ok key order \<Longrightarrow> succeeds order (adopt_ids snapshot order)"
  by (simp add: succeeds_def same_order_def adopt_ids_def order_ok_def nonneg_refl)

lemma succeeds_refresh: "order_ok key order \<Longrightarrow> succeeds order (refresh_tracked_order payload f order)"
  by (simp add: succeeds_def same_order_def refresh_tracked_order_def order_ok_def nonneg_refl)

lemma succeeds_count: "order_ok key order \<Longrightarrow> succeeds order (order\<lparr>tk_emitted_events := n\<rparr>)"
  by (simp add: succeeds_def same_order_def order_ok_def nonneg_refl)

lemma fmax_grows: "fle (Fin 0) x \<Longrightarrow> fle x (fmax x y)"
  by (cases x; cases y) (auto simp: fmax_def)

lemma succeeds_commit: "order_ok key order \<Longrightarrow> succeeds order (commit_update now u order)"
  by (simp add: succeeds_def same_order_def commit_update_def order_ok_def Let_def fmax_grows)

lemma succeeds_trans: "succeeds a b \<Longrightarrow> succeeds b c \<Longrightarrow> succeeds a c"
  by (auto simp: succeeds_def intro: same_order_trans fle_trans)

lemma put_order_ok:
  assumes "tracking_ok lw" "dict_get (lw_orders lw) key = Some order" "succeeds order order'"
  shows "tracking_ok (put_order key order' lw)"
proof -
  have "key \<in> fst ` set (lw_orders lw)" using assms(2) by (force dest: map_of_SomeD)
  then show ?thesis using assms succeeds_ok[OF _ assms(3)]
    by (auto simp: tracking_ok_def put_order_def length_dict_set)
qed

lemma get_put_order: "dict_get (lw_orders (put_order key order lw)) k = (if k = key then Some order else dict_get (lw_orders lw) k)"
  by (simp add: put_order_def)

lemma dict_get_filter:
  "dict_wf d \<Longrightarrow> dict_get (filter (\<lambda>(k, v). P v) d) k = (case dict_get d k of Some v \<Rightarrow> if P v then Some v else None | None \<Rightarrow> None)"
proof (induction d)
  case (Cons p d)
  obtain k' v where p: "p = (k', v)" by (cases p)
  have "dict_get d k' = None" "dict_wf d" using Cons.prems by (auto simp: p dict_wf_def map_of_eq_None_iff)
  then show ?case using Cons.IH by (auto simp: p)
qed simp

lemma evict_get:
  assumes "tracking_ok lw"
  shows "dict_get (lw_orders (evict_terminal_orders force now lw)) key = (case dict_get (lw_orders lw) key of
      Some order \<Rightarrow> if evictable force now (lw_terminal_retention lw) order then None else Some order | None \<Rightarrow> None)"
proof -
  have "dict_wf (lw_orders lw)" using assms by (simp add: tracking_ok_def)
  from dict_get_filter[OF this, of "\<lambda>order. \<not> evictable force now (lw_terminal_retention lw) order" key]
  show ?thesis by (simp add: evict_terminal_orders_def split: option.splits)
qed

lemma evict_ok:
  assumes "tracking_ok lw"
  shows "tracking_ok (evict_terminal_orders force now lw)"
proof -
  let ?P = "\<lambda>(key, order). \<not> evictable force now (lw_terminal_retention lw) order"
  have "int (length (filter ?P (lw_orders lw))) \<le> lw_max_tracked_orders lw"
    using length_filter_le[of ?P "lw_orders lw"] assms unfolding tracking_ok_def by linarith
  moreover have "\<forall>key order. dict_get (lw_orders (evict_terminal_orders force now lw)) key = Some order \<longrightarrow> order_ok key order"
    using assms by (auto simp: evict_get[OF assms] tracking_ok_def split: option.splits if_splits)
  ultimately show ?thesis
    using assms by (simp add: tracking_ok_def evict_terminal_orders_def dict_wf_def distinct_map_filter)
qed


section \<open>One report\<close>

lemma event_type_cases:
  assumes "status_to_event_type status = Some t"
  shows "t \<in> {''oms.order.submitted'', ''oms.order.partially_filled'', ''oms.order.filled'', ''oms.order.canceled'',
    ''oms.order.rejected'', ''oms.order.expired''}"
  using assms by (auto simp: status_to_event_type_def EVENT_TYPES_def split: if_splits)

lemma event_type_text: "status_to_event_type status = Some t \<Longrightarrow> py_strip t \<noteq> []"
  using event_type_cases[of status t] by (auto simp: py_strip_def strip_chars_empty is_space_def)

lemma plan_update_Some:
  assumes "plan_update snapshot order = Some u"
  shows "status_to_event_type (ou_status u) = Some (ou_event_type u)" "\<not> fle (ou_quantity u) (Fin 0)"
    "ou_status u = normalize_status (PStr (ls_status snapshot))"
    "ou_total_filled u = raised_total (ls_filled_quantity_total snapshot) (tk_reported_filled order)"
  using assms by (auto simp: plan_update_def Let_def split: if_splits option.splits)

lemma order_event_ok:
  assumes "order_ok key order" "in_range now" "py_strip (ou_event_type u) \<noteq> []"
  shows "envelope_ok (PDict (order_event now source order u))"
proof -
  have "py_strip (k @ CHR '':'' # s) \<noteq> []" for k s by (simp add: py_strip_def strip_chars_empty is_space_def)
  then show ?thesis
    using assms timestamp_ok_iso[OF assms(2)] by (simp add: order_event_def envelope_ok_def field_iffs order_ok_def)
qed

text \<open>What publishing the update \<open>u\<close> of the order under \<open>key\<close> leaves behind\<close>

definition published ::
    "pyfloat \<times> int \<Rightarrow> string \<Rightarrow> lifecycle_snapshot \<Rightarrow> string \<Rightarrow> tracked_order \<Rightarrow> order_update
      \<Rightarrow> lifecycle_worker \<Rightarrow> lifecycle_worker \<Rightarrow> bool" where
  "published clocks source snapshot key order u lw lw' \<longleftrightarrow>
     (let order2 = (adopt_ids snapshot order)\<lparr>tk_emitted_events := tk_emitted_events order + 1\<rparr>;
          order3 = commit_update (fst clocks) u order2;
          event = order_event (snd clocks) source order2 u in
      lw_orders lw' = dict_set key order3 (dict_set key order2 (lw_orders lw))
      \<and> lw_max_tracked_orders lw' = lw_max_tracked_orders lw \<and> lw_intent_queue_name lw' = lw_intent_queue_name lw
      \<and> envelope_ok (PDict event) \<and> broker_ok (lw_broker lw')
      \<and> (\<forall>k q. routed (lw_broker lw') k q = routed (lw_broker lw) k q)
      \<and> (\<forall>q. queue_contents q (lw_broker lw') = queue_contents q (lw_broker lw)
           @ (if routed (lw_broker lw) (ou_event_type u) q then [event] else [])))"

lemma apply_snapshot_cases:
  assumes "tracking_ok lw" "in_range (snd clocks)"
  obtains (ignored) "\<forall>key. resolve_order snapshot (lw_orders lw) = Some key \<longrightarrow> dict_get (lw_orders lw) key = None"
      "apply_snapshot clocks source snapshot lw = (Inr False, lw)"
  | (adopted) key order where "resolve_order snapshot (lw_orders lw) = Some key" "dict_get (lw_orders lw) key = Some order"
      "plan_update snapshot (adopt_ids snapshot order) = None"
      "apply_snapshot clocks source snapshot lw = (Inr False, put_order key (adopt_ids snapshot order) lw)"
  | (published) key order u lw' where "resolve_order snapshot (lw_orders lw) = Some key" "dict_get (lw_orders lw) key = Some order"
      "plan_update snapshot (adopt_ids snapshot order) = Some u"
      "apply_snapshot clocks source snapshot lw = (Inr True, lw')" "published clocks source snapshot key order u lw lw'"
proof -
  obtain marked now where c: "clocks = (marked, now)" by (cases clocks)
  consider "resolve_order snapshot (lw_orders lw) = None"
    | key where "resolve_order snapshot (lw_orders lw) = Some key" "dict_get (lw_orders lw) key = None"
    | key order where "resolve_order snapshot (lw_orders lw) = Some key" "dict_get (lw_orders lw) key = Some order"
    by (cases "resolve_order snapshot (lw_orders lw)") auto
  then show ?thesis
  proof cases
    case 1
    then show ?thesis by (intro ignored) (simp_all add: apply_snapshot_def c)
  next
    case 2
    then show ?thesis by (intro ignored) (simp_all add: apply_snapshot_def c)
  next
    case (3 key order)
    let ?o1 = "adopt_ids snapshot order"
    have ok: "order_ok key order" using assms(1) 3(2) by (simp add: tracking_ok_def)
    have ok1: "order_ok key ?o1" using succeeds_ok[OF ok succeeds_adopt[OF ok]] .
    show ?thesis
    proof (cases "plan_update snapshot ?o1")
      case None
      then show ?thesis using 3 by (intro adopted) (simp_all add: apply_snapshot_def c)
    next
      case (Some u)
      let ?o2 = "?o1\<lparr>tk_emitted_events := tk_emitted_events ?o1 + 1\<rparr>"
      let ?e = "order_event now source ?o2 u"
      have ok2: "order_ok key ?o2" using succeeds_ok[OF ok1 succeeds_count[OF ok1]] .
      have e: "envelope_ok (PDict ?e)"
        using order_event_ok[OF ok2] assms(2) event_type_text[OF plan_update_Some(1)[OF Some]] by (simp add: c)
      from broker_publish_returns[of "lw_broker lw" "ou_event_type u" ?e] assms(1) obtain ps b where
        b: "broker_publish (ou_event_type u) (PDict ?e) (lw_broker lw) = Inr (ps, b)" "broker_ok b"
          "\<forall>k q. routed b k q = routed (lw_broker lw) k q"
          "\<forall>q. queue_contents q b = queue_contents q (lw_broker lw) @ (if routed (lw_broker lw) (ou_event_type u) q then [?e] else [])"
        by (auto simp: returns_iff tracking_ok_def)
      show ?thesis
      proof (rule published[OF 3 Some])
        show "apply_snapshot clocks source snapshot lw =
            (Inr True, (put_order key (commit_update marked u ?o2) (put_order key ?o2 lw))
               \<lparr>lw_broker := b, lw_last_activity := update_activity source u (commit_update marked u ?o2)\<rparr>)"
          using 3 Some b(1) e by (simp add: apply_snapshot_def c Let_def validate_envelope_iff[THEN iffD2])
      qed (use b e in \<open>simp add: published_def c Let_def adopt_ids_def put_order_def\<close>)
    qed
  qed
qed


section \<open>A round\<close>

definition closing_events :: "string list" where
  "closing_events = [''oms.order.filled'', ''oms.order.canceled'', ''oms.order.rejected'', ''oms.order.expired'']"

text \<open>A message that reports the end of an order\<close>

definition announces :: "tracked_order \<Rightarrow> pydict \<Rightarrow> bool" where
  "announces order m \<longleftrightarrow> envelope_ok (PDict m) \<and> dict_get m ''trace_id'' = Some (PStr (tk_trace_id order))
     \<and> (\<exists>suffix. dict_get m ''idempotency_key'' = Some (PStr (tk_idempotency_key order @ '':'' @ suffix)))
     \<and> (\<exists>t \<in> set closing_events. dict_get m ''event_type'' = Some (PStr t))"

text \<open>A queue that receives every closing event, and is not the one the worker reads\<close>

definition listens :: "string \<Rightarrow> lifecycle_worker \<Rightarrow> bool" where
  "listens q lw \<longleftrightarrow> q \<noteq> lw_intent_queue_name lw \<and> (\<forall>t \<in> set closing_events. routed (lw_broker lw) t q)"

text \<open>From \<open>lw0\<close> to \<open>lw\<close> the queue only grows, and each order that was open is still open in the table or its
  end was announced.\<close>

definition followed :: "string \<Rightarrow> lifecycle_worker \<Rightarrow> lifecycle_worker \<Rightarrow> bool" where
  "followed q lw0 lw \<longleftrightarrow> (\<exists>ms. queue_contents q (lw_broker lw) = queue_contents q (lw_broker lw0) @ ms
     \<and> (\<forall>key order. dict_get (lw_orders lw0) key = Some order \<longrightarrow> \<not> order_terminal order \<longrightarrow>
          (\<exists>m \<in> set ms. announces order m)
          \<or> (\<exists>order'. dict_get (lw_orders lw) key = Some order' \<and> succeeds order order' \<and> \<not> order_terminal order')))"

definition round_ok :: "string \<Rightarrow> lifecycle_worker \<Rightarrow> lifecycle_worker \<Rightarrow> bool" where
  "round_ok q lw0 lw \<longleftrightarrow> tracking_ok lw \<and> listens q lw \<and> followed q lw0 lw
     \<and> lw_max_tracked_orders lw = lw_max_tracked_orders lw0"

lemma followed_refl: "tracking_ok lw \<Longrightarrow> followed q lw lw"
  by (force simp: followed_def tracking_ok_def succeeds_def order_ok_def nonneg_refl)

lemma announces_succeeds: "succeeds a b \<Longrightarrow> announces b m \<Longrightarrow> announces a m"
  by (simp add: announces_def succeeds_def same_order_def)

lemma followed_trans:
  assumes "followed q a b" "followed q b c"
  shows "followed q a c"
proof -
  obtain ms ns where m: "queue_contents q (lw_broker b) = queue_contents q (lw_broker a) @ ms"
      "\<And>key order. dict_get (lw_orders a) key = Some order \<Longrightarrow> \<not> order_terminal order \<Longrightarrow> (\<exists>m \<in> set ms. announces order m)
        \<or> (\<exists>order'. dict_get (lw_orders b) key = Some order' \<and> succeeds order order' \<and> \<not> order_terminal order')"
    and n: "queue_contents q (lw_broker c) = queue_contents q (lw_broker b) @ ns"
      "\<And>key order. dict_get (lw_orders b) key = Some order \<Longrightarrow> \<not> order_terminal order \<Longrightarrow> (\<exists>m \<in> set ns. announces order m)
        \<or> (\<exists>order'. dict_get (lw_orders c) key = Some order' \<and> succeeds order order' \<and> \<not> order_terminal order')"
    using assms unfolding followed_def by blast
  show ?thesis unfolding followed_def
  proof (intro exI[of _ "ms @ ns"] conjI allI impI)
    fix key order assume o: "dict_get (lw_orders a) key = Some order" "\<not> order_terminal order"
    from m(2)[OF o] n(2)[of key] show "(\<exists>m \<in> set (ms @ ns). announces order m)
        \<or> (\<exists>order'. dict_get (lw_orders c) key = Some order' \<and> succeeds order order' \<and> \<not> order_terminal order')"
      by (fastforce dest: announces_succeeds succeeds_trans)
  qed (simp add: m n)
qed

lemma round_ok_start: "tracking_ok lw \<Longrightarrow> listens q lw \<Longrightarrow> round_ok q lw lw"
  by (simp add: round_ok_def followed_refl)

lemma round_ok_step: "round_ok q lw0 lw \<Longrightarrow> round_ok q lw lw' \<Longrightarrow> round_ok q lw0 lw'"
  by (auto simp: round_ok_def intro: followed_trans)

lemma round_ok_worker: "round_ok q lw0 lw \<Longrightarrow> round_ok q lw lw"
  by (simp add: round_ok_def followed_refl)

text \<open>Operations that keep the table, that rewrite one open order, that evict, and that add an order\<close>

lemma round_ok_fields:
  assumes "lw_orders lw' = lw_orders lw" "lw_max_tracked_orders lw' = lw_max_tracked_orders lw"
    "lw_intent_queue_name lw' = lw_intent_queue_name lw" "lw_broker lw' = lw_broker lw"
  shows "round_ok q lw0 lw \<Longrightarrow> round_ok q lw0 lw'"
  using assms by (auto simp: round_ok_def tracking_ok_def followed_def listens_def)

lemma round_ok_put:
  assumes "round_ok q lw0 lw" "dict_get (lw_orders lw) key = Some order" "succeeds order order'"
    and "order_terminal order' \<Longrightarrow> order_terminal order"
  shows "round_ok q lw0 (put_order key order' lw)"
proof (rule round_ok_step[OF assms(1)])
  have w: "tracking_ok lw" "listens q lw" using assms(1) by (simp_all add: round_ok_def)
  have "followed q lw (put_order key order' lw)"
    using followed_refl[OF w(1), of q] assms(2-4) by (fastforce simp: followed_def get_put_order put_order_def)
  then show "round_ok q lw (put_order key order' lw)"
    using put_order_ok[OF w(1) assms(2,3)] w(2) by (simp add: round_ok_def listens_def) (simp add: put_order_def)
qed

lemma round_ok_evict:
  assumes "round_ok q lw0 lw"
  shows "round_ok q lw0 (evict_terminal_orders force now lw)"
proof (rule round_ok_step[OF assms])
  have w: "tracking_ok lw" "listens q lw" using assms by (simp_all add: round_ok_def)
  have "followed q lw (evict_terminal_orders force now lw)"
    using followed_refl[OF w(1), of q] unfolding followed_def evict_get[OF w(1)]
    by (fastforce simp: evict_terminal_orders_def evictable_def)
  then show "round_ok q lw (evict_terminal_orders force now lw)"
    using evict_ok[OF w(1), of force now] w(2) by (simp add: round_ok_def listens_def evict_terminal_orders_def)
qed

lemma round_ok_add:
  assumes "round_ok q lw0 lw" "dict_get (lw_orders lw) key = None"
    and "int (length (lw_orders lw)) < lw_max_tracked_orders lw" "order_ok key order"
  shows "round_ok q lw0 (put_order key order lw)"
proof (rule round_ok_step[OF assms(1)])
  have w: "tracking_ok lw" "listens q lw" using assms(1) by (simp_all add: round_ok_def)
  have "key \<notin> fst ` set (lw_orders lw)" using assms(2) by (simp add: map_of_eq_None_iff)
  then have "tracking_ok (put_order key order lw)"
    using w(1) assms(3,4) by (auto simp: tracking_ok_def put_order_def length_dict_set)
  moreover have "followed q lw (put_order key order lw)"
    using followed_refl[OF w(1), of q] assms(2) by (fastforce simp: followed_def get_put_order put_order_def)
  ultimately show "round_ok q lw (put_order key order lw)" using w(2) by (simp add: round_ok_def listens_def) (simp add: put_order_def)
qed


lemma terminal_event_types: "map status_to_event_type TERMINAL_STATUSES = map Some closing_events"
  by code_simp

lemma terminal_event: "status \<in> set TERMINAL_STATUSES \<Longrightarrow> status_to_event_type status = Some t \<Longrightarrow> t \<in> set closing_events"
  using terminal_event_types by (metis image_eqI image_iff list.set_map option.inject)

text \<open>The order after a published update\<close>

definition updated_order :: "pyfloat \<Rightarrow> lifecycle_snapshot \<Rightarrow> order_update \<Rightarrow> tracked_order \<Rightarrow> tracked_order" where
  "updated_order marked_at snapshot u order =
     commit_update marked_at u ((adopt_ids snapshot order)\<lparr>tk_emitted_events := tk_emitted_events order + 1\<rparr>)"

lemma updated_order_succeeds:
  assumes "order_ok key order"
  shows "succeeds order (updated_order marked_at snapshot u order)"
proof -
  note s1 = succeeds_adopt[OF assms, of snapshot]
  note ok1 = succeeds_ok[OF assms s1]
  note s2 = succeeds_count[OF ok1, of "tk_emitted_events order + 1"]
  from succeeds_trans[OF succeeds_trans[OF s1 s2] succeeds_commit[OF succeeds_ok[OF ok1 s2]]] show ?thesis
    by (simp add: updated_order_def)
qed

lemma updated_order_status: "order_terminal (updated_order marked_at snapshot u order) \<longleftrightarrow> ou_status u \<in> set TERMINAL_STATUSES"
  by (auto simp: updated_order_def commit_update_def order_terminal_def Let_def)

lemma order_event_announces:
  assumes "envelope_ok (PDict (order_event now source order2 u))" "same_order order order2"
    and "ou_event_type u \<in> set closing_events"
  shows "announces order (order_event now source order2 u)"
  using assms by (auto simp: announces_def order_event_def same_order_def)

lemma published_ok:
  assumes "tracking_ok lw" "dict_get (lw_orders lw) key = Some order" "published clocks source snapshot key order u lw lw'"
  shows "tracking_ok lw'"
proof -
  have k: "key \<in> fst ` set (lw_orders lw)" using assms(2) by (force dest: map_of_SomeD)
  have "order_ok key order" using assms(1,2) by (simp add: tracking_ok_def)
  from put_order_ok[OF assms(1,2) updated_order_succeeds[OF this, of "fst clocks" snapshot u]] k assms(1,3) show ?thesis
    by (simp add: tracking_ok_def put_order_def published_def Let_def updated_order_def length_dict_set keys_dict_set)
qed

lemma round_ok_published:
  assumes "round_ok q lw0 lw" "dict_get (lw_orders lw) key = Some order"
    and plan: "plan_update snapshot (adopt_ids snapshot order) = Some u"
    and pub: "published clocks source snapshot key order u lw lw'"
  shows "round_ok q lw0 lw'"
proof (rule round_ok_step[OF assms(1)])
  have w: "tracking_ok lw" "listens q lw" using assms(1) by (simp_all add: round_ok_def)
  let ?o2 = "(adopt_ids snapshot order)\<lparr>tk_emitted_events := tk_emitted_events order + 1\<rparr>"
  let ?o3 = "updated_order (fst clocks) snapshot u order"
  let ?e = "order_event (snd clocks) source ?o2 u"
  have ok: "order_ok key order" using w(1) assms(2) by (simp add: tracking_ok_def)
  note s = updated_order_succeeds[OF ok, of "fst clocks" snapshot u]
  have p: "lw_orders lw' = dict_set key ?o3 (dict_set key ?o2 (lw_orders lw))"
    "lw_max_tracked_orders lw' = lw_max_tracked_orders lw" "lw_intent_queue_name lw' = lw_intent_queue_name lw"
    "envelope_ok (PDict ?e)" "broker_ok (lw_broker lw')" "\<And>k q. routed (lw_broker lw') k q = routed (lw_broker lw) k q"
    "queue_contents q (lw_broker lw') = queue_contents q (lw_broker lw) @ (if routed (lw_broker lw) (ou_event_type u) q then [?e] else [])"
    using pub by (simp_all add: published_def Let_def updated_order_def)
  have "tracking_ok lw'" by (rule published_ok[OF w(1) assms(2) pub])
  moreover have "listens q lw'" using w(2) by (simp add: listens_def p)
  moreover have "followed q lw lw'"
    unfolding followed_def
  proof (intro exI conjI allI impI, rule p(7))
    fix k o0 assume o0: "dict_get (lw_orders lw) k = Some o0" "\<not> order_terminal o0"
    show "(\<exists>m \<in> set (if routed (lw_broker lw) (ou_event_type u) q then [?e] else []). announces o0 m)
      \<or> (\<exists>order'. dict_get (lw_orders lw') k = Some order' \<and> succeeds o0 order' \<and> \<not> order_terminal order')"
    proof (cases "k = key")
      case False
      then show ?thesis using o0 w(1) by (auto simp: p succeeds_def tracking_ok_def order_ok_def nonneg_refl)
    next
      case True
      show ?thesis
      proof (cases "ou_status u \<in> set TERMINAL_STATUSES")
        case False
        then show ?thesis using o0 s True assms(2) by (simp add: p updated_order_status)
      next
        case t: True
        from terminal_event[OF t plan_update_Some(1)[OF plan]] have c: "ou_event_type u \<in> set closing_events" .
        have "same_order order ?o2" by (simp add: same_order_def adopt_ids_def)
        from order_event_announces[OF p(4) this c] show ?thesis
          using o0 True assms(2) c w(2) by (simp add: listens_def)
      qed
    qed
  qed
  ultimately show "round_ok q lw lw'" using p(2) by (simp add: round_ok_def)
qed

lemma adopt_terminal: "order_terminal (adopt_ids snapshot order) = order_terminal order"
  by (simp add: order_terminal_def adopt_ids_def)

lemma keeps_apply_snapshot:
  assumes "in_range (snd clocks)"
  shows "keeps (round_ok q lw0) (\<lambda>_. True) (apply_snapshot clocks source snapshot)"
proof (rule keepsI)
  fix lw assume ok: "round_ok q lw0 lw"
  then have w: "tracking_ok lw" by (simp add: round_ok_def)
  show "round_ok q lw0 (snd (apply_snapshot clocks source snapshot lw))"
    using w assms
  proof (cases rule: apply_snapshot_cases[where source = source and snapshot = snapshot])
    case ignored
    then show ?thesis using ok by simp
  next
    case (adopted key order)
    have "order_ok key order" using w adopted(2) by (simp add: tracking_ok_def)
    from round_ok_put[OF ok adopted(2) succeeds_adopt[OF this]] adopted(4) show ?thesis by (simp add: adopt_terminal)
  next
    case (published key order u lw')
    from round_ok_published[OF ok published(2,3,5)] published(4) show ?thesis by simp
  qed
qed


definition clocks_in_range :: "lifecycle_io \<Rightarrow> bool" where
  "clocks_in_range io \<longleftrightarrow> (\<forall>source i. in_range (snd (li_apply io source i)))"

lemma keeps_apply_private:
  "clocks_in_range io \<Longrightarrow> keeps (round_ok q lw0) (\<lambda>_. True) (apply_private io i did_work snapshots)"
  by (induction snapshots arbitrary: i did_work)
    (auto simp: keeps_slift ensures_def clocks_in_range_def intro!: keeps_sbind[OF keeps_apply_snapshot])

lemma keeps_private_round:
  assumes "clocks_in_range io"
  shows "keeps (round_ok q lw0) (\<lambda>_. True) (private_round io)"
proof (rule keepsI)
  fix lw assume ok: "round_ok q lw0 lw"
  have "round_ok q lw0 (if updates = [] then lw else lw\<lparr>lw_last_private_update := Some (li_private_at io),
      lw_private_updates_total := lw_private_updates_total lw + int (length updates)\<rparr>)" for updates :: "lifecycle_snapshot list"
    by (rule round_ok_fields[OF _ _ _ _ ok]) simp_all
  from keeps_result[OF keeps_apply_private[OF assms] this] ok show "round_ok q lw0 (snd (private_round io lw))"
    by (simp add: private_round_def sbind_def slift_def split: sum.splits)
qed

lemma keeps_poll_orders:
  "clocks_in_range io \<Longrightarrow> round_ok q lw0 lw \<Longrightarrow> round_ok q lw0 (snd (poll_orders io i did_work keys lw))"
proof (induction keys arbitrary: i did_work lw)
  case (Cons key keys)
  show ?case
  proof (cases "dict_get (lw_orders lw) key")
    case None
    then show ?thesis using Cons by simp
  next
    case (Some order)
    show ?thesis
    proof (cases "li_fetch_status io order")
      case (Inl e)
      then show ?thesis using Some Cons.prems by (simp add: sbind_def slift_def)
    next
      case (Inr answer)
      show ?thesis
      proof (cases answer)
        case None
        then show ?thesis using Some Inr Cons by (simp add: sbind_def slift_def)
      next
        case (Some snapshot)
        let ?a = "apply_snapshot (li_apply io ''rest_fallback'' i) ''rest_fallback'' snapshot"
        obtain r lw1 where a: "?a lw = (r, lw1)" by force
        have "in_range (snd (li_apply io ''rest_fallback'' i))" using Cons.prems(1) by (simp add: clocks_in_range_def)
        from keeps_result[OF keeps_apply_snapshot[OF this] Cons.prems(2)] a have lw1: "round_ok q lw0 lw1" by (metis snd_conv)
        have "round_ok q lw0 (lw1\<lparr>lw_rest_fallback_updates_total := n\<rparr>)" for n
          by (rule round_ok_fields[OF _ _ _ _ lw1]) simp_all
        then show ?thesis
          using \<open>dict_get (lw_orders lw) key = Some order\<close> Inr Some a lw1 Cons.IH[OF Cons.prems(1)]
          by (auto simp: sbind_def slift_def split: sum.splits)
      qed
    qed
  qed
qed (simp add: slift_def)

lemma keeps_fallback_round:
  assumes "clocks_in_range io"
  shows "keeps (round_ok q lw0) (\<lambda>_. True) (fallback_round io)"
proof (rule keepsI)
  fix lw assume ok: "round_ok q lw0 lw"
  have "round_ok q lw0 (lw\<lparr>lw_rest_fallback_polls_total := lw_rest_fallback_polls_total lw + 1\<rparr>)"
    by (rule round_ok_fields[OF _ _ _ _ ok]) simp_all
  from keeps_poll_orders[OF assms this] have p: "round_ok q lw0 (snd (poll_rest_fallback io lw))"
    by (simp add: poll_rest_fallback_def)
  have "round_ok q lw0 ((snd (poll_rest_fallback io lw))\<lparr>lw_last_fallback_poll := t\<rparr>)" for t
    by (rule round_ok_fields[OF _ _ _ _ p]) simp_all
  with p ok show "round_ok q lw0 (snd (fallback_round io lw))"
    by (auto simp: fallback_round_def sbind_def split: prod.splits sum.splits)
qed

lemma new_tracked_order_ok:
  assumes "envelope_ok (PDict envelope)" "intent_usable f" "new_tracked_order envelope payload f = Inr order"
  shows "order_ok (if_idempotency_key f) order"
proof -
  obtain t di where "dict_get envelope ''trace_id'' = Some (PStr t)" "uuid_ok t"
    "dict_get envelope ''decision_id'' = Some (PStr di)" "uuid_ok di"
    using assms(1) by (auto elim!: envelope_okE)
  then show ?thesis using assms(2,3)
    by (auto simp: new_tracked_order_def result_simps pindex_def order_ok_def intent_usable_def)
qed

lemma round_ok_make_room: "round_ok q lw0 lw \<Longrightarrow> round_ok q lw0 (make_room now lw)"
  by (simp add: make_room_def round_ok_evict)

lemma make_room_absent: "tracking_ok lw \<Longrightarrow> dict_get (lw_orders lw) key = None \<Longrightarrow> dict_get (lw_orders (make_room now lw)) key = None"
  by (simp add: make_room_def evict_get)


lemma keeps_track:
  "keeps (round_ok q lw0) (\<lambda>_. True) (track_execution_intent now envelope)"
proof (rule keepsI)
  fix lw assume ok: "round_ok q lw0 lw"
  show "round_ok q lw0 (snd (track_execution_intent now envelope lw))"
  proof (cases "real_intent envelope")
    case (Inl e)
    then show ?thesis using ok by (simp add: track_execution_intent_def sbind_def slift_def)
  next
    case (Inr wanted)
    let ?p = "as_dict (pget envelope ''payload'' PNone)"
    show ?thesis
    proof (cases "wanted \<and> (\<exists>f. read_intent envelope ?p = Inr f \<and> intent_usable f)")
      case False
      then show ?thesis using Inr ok
        by (auto simp: track_execution_intent_def sbind_def slift_def Let_def split: sum.splits)
    next
      case True
      then obtain f where f: "wanted" "read_intent envelope ?p = Inr f" "intent_usable f" by blast
      have env: "envelope_ok (PDict envelope)"
        using Inr f(1) validate_envelope_iff[of "PDict envelope"]
        by (auto simp: real_intent_def split: sum.splits if_splits)
      have w: "tracking_ok lw" using ok by (simp add: round_ok_def)
      let ?key = "if_idempotency_key f"
      show ?thesis
      proof (cases "dict_get (lw_orders lw) ?key")
        case (Some order)
        have "order_ok ?key order" using w Some by (simp add: tracking_ok_def)
        from round_ok_put[OF ok Some succeeds_refresh[OF this]] show ?thesis using Inr f Some
          by (simp add: track_execution_intent_def sbind_def slift_def Let_def order_terminal_def refresh_tracked_order_def)
      next
        case None
        note room = round_ok_make_room[OF ok, of now] make_room_absent[OF w None, of now]
        show ?thesis
          using Inr f None room round_ok_add[OF room] new_tracked_order_ok[OF env f(3)]
          by (auto simp: track_execution_intent_def sbind_def slift_def Let_def split: sum.splits)
      qed
    qed
  qed
qed

lemma round_ok_consumed:
  assumes "round_ok q lw0 lw" "broker_consume (lw_intent_queue_name lw) t (lw_broker lw) = Inr (x, b)"
  shows "round_ok q lw0 (lw\<lparr>lw_broker := b\<rparr>)"
proof (rule round_ok_step[OF assms(1)])
  have w: "tracking_ok lw" "listens q lw" using assms(1) by (simp_all add: round_ok_def)
  then have bk: "broker_ok (lw_broker lw)" by (simp add: tracking_ok_def)
  have "broker_ok b \<and> (\<forall>k q'. routed b k q' = routed (lw_broker lw) k q') \<and> queue_contents q b = queue_contents q (lw_broker lw)"
  proof (cases x)
    case (Received m)
    from consume_received[OF bk assms(2)[unfolded this]] w(2) show ?thesis by (simp add: listens_def)
  qed (use consume_other[OF assms(2)] bk in simp_all)
  then show "round_ok q lw (lw\<lparr>lw_broker := b\<rparr>)"
    using w followed_refl[OF w(1), of q] by (auto simp: round_ok_def tracking_ok_def listens_def followed_def)
qed

lemma keeps_intent_round: "keeps (round_ok q lw0) (\<lambda>_. True) (intent_round io timeout_seconds)"
proof (rule keepsI)
  fix lw assume ok: "round_ok q lw0 lw"
  show "round_ok q lw0 (snd (intent_round io timeout_seconds lw))"
  proof (cases "broker_consume (lw_intent_queue_name lw) (Some timeout_seconds) (lw_broker lw)")
    case (Inl e)
    then show ?thesis using ok by (simp add: intent_round_def)
  next
    case (Inr p)
    obtain x b where p: "p = (x, b)" by (cases p)
    note ok1 = round_ok_consumed[OF ok Inr[unfolded p]]
    have same: "round_ok q lw0 lw' \<Longrightarrow> round_ok q lw0 (lw'\<lparr>lw_intents_tracked_total := n, lw_last_activity := a\<rparr>)" for lw' n a
      by (rule round_ok_fields[rotated -1]) simp_all
    show ?thesis
    proof (cases x)
      case (Received intent)
      obtain r lw2 where t: "track_execution_intent (li_track_at io) intent (lw\<lparr>lw_broker := b\<rparr>) = (r, lw2)" by force
      have "round_ok q lw0 lw2" using keeps_result[OF keeps_track ok1, of "li_track_at io" intent] t by simp
      with same show ?thesis
        by (auto simp: intent_round_def Inr p Received sbind_def t split: sum.splits option.splits)
    qed (use Inr p ok1 in \<open>simp_all add: intent_round_def\<close>)
  qed
qed

lemma keeps_run_once:
  assumes "clocks_in_range io"
  shows "keeps (round_ok q lw0) (\<lambda>_. True) (lifecycle_run_once io timeout_seconds)"
proof -
  have e: "keeps (round_ok q lw0) (\<lambda>_. True) (\<lambda>lw. (Inr x, evict_terminal_orders False (li_evict_at io) lw))" for x :: bool
    by (rule keepsI) (simp add: round_ok_evict)
  show ?thesis unfolding lifecycle_run_once_def
    by (rule keeps_sbind[OF keeps_intent_round], rule keeps_sbind[OF keeps_private_round[OF assms]],
      rule keeps_sbind[OF keeps_fallback_round[OF assms]], rule e)
qed

text \<open>The loop of the worker process: one round after another, whatever a round raises.\<close>

definition lifecycle_rounds :: "pyfloat \<Rightarrow> lifecycle_io list \<Rightarrow> lifecycle_worker \<Rightarrow> lifecycle_worker" where
  "lifecycle_rounds timeout_seconds = fold (\<lambda>io lw. snd (lifecycle_run_once io timeout_seconds lw))"

lemma round_ok_rounds:
  "list_all clocks_in_range ios \<Longrightarrow> round_ok q lw0 lw \<Longrightarrow> round_ok q lw0 (lifecycle_rounds timeout_seconds ios lw)"
  by (induction ios arbitrary: lw) (auto simp: lifecycle_rounds_def dest: keeps_result[OF keeps_run_once])


section \<open>Reports of cumulative fills\<close>

text \<open>The quantity a message reports as newly filled\<close>

definition fill_of :: "pydict \<Rightarrow> rat" where
  "fill_of m = (if dict_get m ''event_type'' \<in> set (map (Some \<circ> PStr) FILL_EVENT_TYPES)
     then (case dict_get m ''payload'' of
         Some (PDict payload) \<Rightarrow> (case dict_get payload ''quantity'' of Some (PFloat (Fin x)) \<Rightarrow> x | _ \<Rightarrow> 0)
       | _ \<Rightarrow> 0)
     else 0)"

definition report_total :: "lifecycle_snapshot \<Rightarrow> int" where
  "report_total s = (case ls_filled_quantity_total s of Fin x \<Rightarrow> \<lfloor>x\<rfloor> | _ \<Rightarrow> 0)"

text \<open>A report in whole lots about an order of \<open>r\<close> lots: a complete fill reports all of them, and a report that is
  no fill carries no quantity.\<close>

definition consistent_report :: "int \<Rightarrow> lifecycle_snapshot \<Rightarrow> bool" where
  "consistent_report r s \<longleftrightarrow> ls_filled_quantity_total s = Fin (of_int (report_total s))
     \<and> 0 \<le> report_total s \<and> report_total s \<le> r
     \<and> (let t = status_to_event_type (normalize_status (PStr (ls_status s))) in
         if t = Some ''oms.order.filled'' then report_total s = r
         else t = Some ''oms.order.partially_filled'' \<or> report_total s = 0)"

lemma filled_event: "status_to_event_type ''filled'' = Some ''oms.order.filled''"
  by code_simp

lemma raised_total_int: "0 \<le> n \<Longrightarrow> 0 \<le> b \<Longrightarrow> raised_total (Fin (of_int n)) (Fin (of_int b)) = Fin (of_int (max b n))"
  by (auto simp: raised_total_def fmax_def Let_def max_def)

lemma added_int: "0 \<le> b \<Longrightarrow> b \<le> n \<Longrightarrow> n < 2 ^ 53 \<Longrightarrow> added (Fin (of_int n)) (Fin (of_int b)) = Fin (of_int (n - b))"
  using fl_int[of "n - b"] by (auto simp: added_def fmax_def fsub_def)

lemma plan_consistent:
  assumes "consistent_report r s" "tk_reported_filled order = Fin (of_int b)" "tk_requested_quantity order = Fin (of_int r)"
    and "0 \<le> b" "b \<le> r" "r < 2 ^ 53"
  shows "case plan_update s order of
      None \<Rightarrow> max b (report_total s) = b
    | Some u \<Rightarrow> ou_total_filled u = Fin (of_int (max b (report_total s)))
        \<and> (if ou_event_type u \<in> set FILL_EVENT_TYPES then ou_quantity u = Fin (of_int (max b (report_total s) - b))
           else max b (report_total s) = b)"
proof -
  let ?n = "report_total s"
  have t: "raised_total (ls_filled_quantity_total s) (tk_reported_filled order) = Fin (of_int (max b ?n))"
    using raised_total_int[of ?n b] assms by (simp add: consistent_report_def)
  have d: "added (Fin (of_int (max b ?n))) (tk_reported_filled order) = Fin (of_int (max b ?n - b))"
    using added_int[of b "max b ?n"] assms by (simp add: consistent_report_def)
  have i: "added (tk_requested_quantity order) (tk_reported_filled order) = Fin (of_int (r - b))"
    using added_int[of b r] assms by simp
  let ?status = "normalize_status (PStr (ls_status s))"
  let ?t = "status_to_event_type ?status"
  have n: "0 \<le> ?n" "?n \<le> r" using assms(1) by (simp_all add: consistent_report_def)
  note plan = plan_update_def[of s order, unfolded Let_def t d i]
  consider (complete) "?t = Some ''oms.order.filled''" "?n = r" | (part) "?t = Some ''oms.order.partially_filled''"
    | (none) "?t \<notin> set (map Some FILL_EVENT_TYPES)" "?n = 0"
    using assms(1) by (auto simp: consistent_report_def Let_def FILL_EVENT_TYPES_def split: if_splits)
  then show ?thesis
  proof cases
    case complete
    then show ?thesis using assms(5) by (cases "b = r") (simp_all add: plan FILL_EVENT_TYPES_def max_def)
  next
    case part
    have "?status \<noteq> ''filled''"
    proof
      assume "?status = ''filled''"
      from part[unfolded this] filled_event show False by simp
    qed
    then show ?thesis using part by (cases "?n \<le> b") (simp_all add: plan FILL_EVENT_TYPES_def max_def)
  next
    case none
    then show ?thesis using assms(4) by (cases ?t) (simp_all add: plan max_def image_iff)
  qed
qed


text \<open>Finding the order of a report uses its venue, symbol and identifiers only.\<close>

definition order_view :: "tracked_order \<Rightarrow> string \<times> string \<times> string option \<times> string option" where
  "order_view order = (tk_exchange order, tk_symbol order, tk_exchange_order_id order, tk_client_order_id order)"

lemma find_dict_set:
  assumes "dict_get d key = Some v" "P v = P v'"
  shows "map_option fst (find (\<lambda>(k, v). P v) (dict_set key v' d)) = map_option fst (find (\<lambda>(k, v). P v) d)"
    "map fst (filter (\<lambda>(k, v). P v) (dict_set key v' d)) = map fst (filter (\<lambda>(k, v). P v) d)"
  using assms by (induction key v' d rule: dict_set.induct) (auto split: if_splits)

lemma single_key: "(case xs of [(key, _)] \<Rightarrow> Some key | _ \<Rightarrow> None) = (case map fst xs of [key] \<Rightarrow> Some key | _ \<Rightarrow> None)"
  by (auto split: list.splits)

lemma resolve_order_set:
  assumes "dict_get orders key = Some order" "order_view order' = order_view order"
  shows "resolve_order s (dict_set key order' orders) = resolve_order s orders"
proof -
  have v: "tk_exchange order' = tk_exchange order" "tk_symbol order' = tk_symbol order"
    "tk_exchange_order_id order' = tk_exchange_order_id order" "tk_client_order_id order' = tk_client_order_id order"
    using assms(2) by (simp_all add: order_view_def)
  note f = find_dict_set(1)[OF assms(1), where v' = order'] find_dict_set(2)[OF assms(1), where v' = order']
  show ?thesis
    unfolding resolve_order_def Let_def single_key by (subst f | simp add: v)+
qed

lemma dict_set_same: "dict_get d key = Some v \<Longrightarrow> dict_set key v d = d"
  by (induction key v d rule: dict_set.induct) (auto split: if_splits)

lemma fill_of_event:
  "fill_of (order_event now source order u) = (if ou_event_type u \<in> set FILL_EVENT_TYPES
     then (case ou_quantity u of Fin x \<Rightarrow> x | _ \<Rightarrow> 0) else 0)"
  by (auto simp: fill_of_def order_event_def split: pyfloat.splits)

lemma apply_consistent:
  assumes w: "tracking_ok lw" "in_range (snd clocks)" and q: "\<forall>t \<in> set FILL_EVENT_TYPES. routed (lw_broker lw) t q"
    and key: "resolve_order s (lw_orders lw) = Some key" "dict_get (lw_orders lw) key = Some order" "adopt_ids s order = order"
    and s: "consistent_report r s" "tk_reported_filled order = Fin (of_int b)" "tk_requested_quantity order = Fin (of_int r)"
      "0 \<le> b" "b \<le> r" "r < 2 ^ 53"
  obtains x lw' order' ms where "apply_snapshot clocks source s lw = (Inr x, lw')" "tracking_ok lw'"
    "\<And>t. routed (lw_broker lw') t q = routed (lw_broker lw) t q" "\<And>s. resolve_order s (lw_orders lw') = resolve_order s (lw_orders lw)"
    "dict_get (lw_orders lw') key = Some order'" "order_view order' = order_view order"
    "tk_requested_quantity order' = Fin (of_int r)" "tk_reported_filled order' = Fin (of_int (max b (report_total s)))"
    "queue_contents q (lw_broker lw') = queue_contents q (lw_broker lw) @ ms"
    "sum_list (map fill_of ms) = of_int (max b (report_total s) - b)"
  using w
proof (cases rule: apply_snapshot_cases[where source = source and snapshot = s])
  case ignored
  then show ?thesis using key by simp
next
  case (adopted k o1)
  then have k: "k = key" "o1 = order" using key by simp_all
  have "put_order key order lw = lw" using key(2) by (simp add: put_order_def dict_set_same)
  then show ?thesis using adopted k key plan_consistent[OF s] w s by (intro that[of False lw order "[]"]) simp_all
next
  case (published k o1 u lw')
  then have k: "k = key" "o1 = order" using key by simp_all
  let ?o2 = "order\<lparr>tk_emitted_events := tk_emitted_events order + 1\<rparr>"
  let ?o3 = "updated_order (fst clocks) s u order"
  let ?e = "order_event (snd clocks) source ?o2 u"
  have p: "lw_orders lw' = dict_set key ?o3 (dict_set key ?o2 (lw_orders lw))"
    "\<And>t. routed (lw_broker lw') t q = routed (lw_broker lw) t q"
    "queue_contents q (lw_broker lw') = queue_contents q (lw_broker lw) @ (if routed (lw_broker lw) (ou_event_type u) q then [?e] else [])"
    using published(5) by (simp_all add: published_def Let_def updated_order_def k key(3))
  have u: "ou_total_filled u = Fin (of_int (max b (report_total s)))" "ou_event_type u \<in> set FILL_EVENT_TYPES \<Longrightarrow> ou_quantity u = Fin (of_int (max b (report_total s) - b))"
    "ou_event_type u \<notin> set FILL_EVENT_TYPES \<Longrightarrow> max b (report_total s) = b"
    using plan_consistent[OF s] published(3) by (auto simp: k key(3) split: if_splits)
  have view: "order_view ?o2 = order_view order" "order_view ?o3 = order_view order"
    by (simp_all add: order_view_def updated_order_def commit_update_def key(3) Let_def)
  show ?thesis
  proof (rule that[OF published(4) _ p(2) _ _ view(2) _ _ p(3)])
    show "tracking_ok lw'" using published_ok[OF w(1) published(2,5)] .
    show "resolve_order s' (lw_orders lw') = resolve_order s' (lw_orders lw)" for s'
      using resolve_order_set[of "dict_set key ?o2 (lw_orders lw)" key ?o2 ?o3 s'] resolve_order_set[OF key(2) view(1), of s']
      by (simp add: p view)
    show "tk_reported_filled ?o3 = Fin (of_int (max b (report_total s)))"
      using s(4) by (auto simp: updated_order_def commit_update_def key(3) Let_def s(2) u(1) fmax_def)
    show "sum_list (map fill_of (if routed (lw_broker lw) (ou_event_type u) q then [?e] else [])) = of_int (max b (report_total s) - b)"
      using q u(2,3) by (auto simp: fill_of_event)
  qed (simp_all add: p updated_order_def commit_update_def key(3) Let_def s(3))
qed


lemma apply_consistent_reports:
  assumes "clocks_in_range io" "r < 2 ^ 53" "order_view order = view"
    and "tracking_ok lw" "\<forall>t \<in> set FILL_EVENT_TYPES. routed (lw_broker lw) t q"
    and "list_all (\<lambda>s. resolve_order s (lw_orders lw) = Some key \<and> consistent_report r s
        \<and> (\<forall>order. order_view order = view \<longrightarrow> adopt_ids s order = order)) reports"
    and "dict_get (lw_orders lw) key = Some order"
    and "tk_reported_filled order = Fin (of_int b)" "tk_requested_quantity order = Fin (of_int r)" "0 \<le> b" "b \<le> r"
  shows "\<exists>x lw' ms order'. apply_private io i did_work reports lw = (Inr x, lw')
    \<and> queue_contents q (lw_broker lw') = queue_contents q (lw_broker lw) @ ms
    \<and> dict_get (lw_orders lw') key = Some order'
    \<and> tk_reported_filled order' = Fin (of_int (fold max (map report_total reports) b))
    \<and> sum_list (map fill_of ms) = of_int (fold max (map report_total reports) b - b)"
  using assms(3-)
proof (induction reports arbitrary: i did_work lw order b)
  case Nil
  then show ?case by (simp add: slift_def)
next
  case (Cons s reports)
  let ?c = "li_apply io ''private_stream'' i"
  have c: "in_range (snd ?c)" using assms(1) by (simp add: clocks_in_range_def)
  have s: "resolve_order s (lw_orders lw) = Some key" "adopt_ids s order = order" "consistent_report r s"
    using Cons.prems by simp_all
  obtain x lw1 o1 ms where a: "apply_snapshot ?c ''private_stream'' s lw = (Inr x, lw1)" "tracking_ok lw1"
    "\<And>t. routed (lw_broker lw1) t q = routed (lw_broker lw) t q" "\<And>s. resolve_order s (lw_orders lw1) = resolve_order s (lw_orders lw)"
    "dict_get (lw_orders lw1) key = Some o1" "order_view o1 = order_view order"
    "tk_requested_quantity o1 = Fin (of_int r)" "tk_reported_filled o1 = Fin (of_int (max b (report_total s)))"
    "queue_contents q (lw_broker lw1) = queue_contents q (lw_broker lw) @ ms"
    "sum_list (map fill_of ms) = of_int (max b (report_total s) - b)"
    by (rule apply_consistent[where source = "''private_stream''", OF Cons.prems(2) c Cons.prems(3) s(1) Cons.prems(5) s(2,3) Cons.prems(6-9) assms(2)]) blast
  have n: "0 \<le> report_total s" "report_total s \<le> r" using s(3) by (simp_all add: consistent_report_def)
  have view: "order_view o1 = view" using a(6) Cons.prems(1) by simp
  have routes: "\<forall>t \<in> set FILL_EVENT_TYPES. routed (lw_broker lw1) t q" using a(3) Cons.prems(3) by simp
  have rest: "list_all (\<lambda>s. resolve_order s (lw_orders lw1) = Some key \<and> consistent_report r s
      \<and> (\<forall>order. order_view order = view \<longrightarrow> adopt_ids s order = order)) reports"
    using Cons.prems(4) a(4) by simp
  have bounds: "0 \<le> max b (report_total s)" "max b (report_total s) \<le> r" using n Cons.prems(8,9) by simp_all
  obtain y lw2 ns o2 where "apply_private io (Suc i) (did_work \<or> x) reports lw1 = (Inr y, lw2)"
    "queue_contents q (lw_broker lw2) = queue_contents q (lw_broker lw1) @ ns" "dict_get (lw_orders lw2) key = Some o2"
    "tk_reported_filled o2 = Fin (of_int (fold max (map report_total reports) (max b (report_total s))))"
    "sum_list (map fill_of ns) = of_int (fold max (map report_total reports) (max b (report_total s)) - max b (report_total s))"
    using Cons.IH[OF view a(2) routes rest a(5,8,7) bounds, of "Suc i" "did_work \<or> x"] by blast
  then show ?case using a by (auto simp: sbind_def max.commute)
qed


lemma adopt_known:
  "has_text (tk_exchange_order_id order) \<Longrightarrow> has_text (tk_client_order_id order) \<Longrightarrow> order_view order' = order_view order
    \<Longrightarrow> adopt_ids s order' = order'"
  by (simp add: adopt_ids_def order_view_def)

text \<open>C13: Whatever mix of reports arrives about a tracked order with known identifiers and nothing reported yet, in any
  order and any number of times, the fills that are published add up to the largest total reported, and
  that total is what the table keeps. The order is of fewer than \<open>2 ^ 53\<close> whole lots, a complete fill
  reports all of them, a partial one some, and other reports carry no quantity.\<close>

theorem published_fills_add_up:
  assumes "clocks_in_range io" "tracking_ok lw" "\<forall>t \<in> set FILL_EVENT_TYPES. routed (lw_broker lw) t q"
    and "dict_get (lw_orders lw) key = Some order" "has_text (tk_exchange_order_id order)" "has_text (tk_client_order_id order)"
    and "tk_reported_filled order = Fin 0" "tk_requested_quantity order = Fin (of_int r)" "0 \<le> r" "r < 2 ^ 53"
    and "list_all (\<lambda>s. resolve_order s (lw_orders lw) = Some key \<and> consistent_report r s) reports"
  shows "\<exists>x lw' ms order'. apply_private io 0 False reports lw = (Inr x, lw')
    \<and> queue_contents q (lw_broker lw') = queue_contents q (lw_broker lw) @ ms
    \<and> sum_list (map fill_of ms) = of_int (Max (insert 0 (report_total ` set reports)))
    \<and> dict_get (lw_orders lw') key = Some order' \<and> tk_reported_filled order' = Fin (sum_list (map fill_of ms))"
proof -
  have "list_all (\<lambda>s. resolve_order s (lw_orders lw) = Some key \<and> consistent_report r s
      \<and> (\<forall>o'. order_view o' = order_view order \<longrightarrow> adopt_ids s o' = o')) reports"
    using assms(11) adopt_known[OF assms(5,6)] by (auto simp: list_all_iff)
  from apply_consistent_reports[OF assms(1,10) refl assms(2,3) this assms(4) _ assms(8), of 0 0 False] assms(7,9)
  obtain x lw' ms o' where "apply_private io 0 False reports lw = (Inr x, lw')"
    "queue_contents q (lw_broker lw') = queue_contents q (lw_broker lw) @ ms" "dict_get (lw_orders lw') key = Some o'"
    "tk_reported_filled o' = Fin (of_int (fold max (map report_total reports) 0))"
    "sum_list (map fill_of ms) = of_int (fold max (map report_total reports) 0)"
    by auto
  moreover have "fold max (map report_total reports) 0 = Max (insert 0 (report_total ` set reports))"
    using Max.set_eq_fold[of 0 "map report_total reports"] by simp
  ultimately show ?thesis by auto
qed

text \<open>C8: Through any number of rounds, failing ones included, the table of orders stays within its capacity and
  an open order is never lost: it is still open in the table, with the same identity and no less reported as
  filled or paid, or a valid message announcing its end was added to every queue that listens.\<close>

theorem live_orders_are_followed:
  assumes "tracking_ok lw" "listens q lw" "list_all clocks_in_range ios"
  shows "int (length (lw_orders (lifecycle_rounds timeout_seconds ios lw))) \<le> lw_max_tracked_orders lw
    \<and> (\<exists>ms. queue_contents q (lw_broker (lifecycle_rounds timeout_seconds ios lw)) = queue_contents q (lw_broker lw) @ ms
      \<and> (\<forall>key order. dict_get (lw_orders lw) key = Some order \<longrightarrow> \<not> order_terminal order \<longrightarrow>
          (\<exists>m \<in> set ms. announces order m)
          \<or> (\<exists>order'. dict_get (lw_orders (lifecycle_rounds timeout_seconds ios lw)) key = Some order'
              \<and> succeeds order order' \<and> \<not> order_terminal order')))"
  using round_ok_rounds[OF assms(3) round_ok_start[OF assms(1,2)], of timeout_seconds]
  by (simp add: round_ok_def tracking_ok_def followed_def)


section \<open>Examples\<close>

definition sample_tracked :: tracked_order where
  "sample_tracked =
     \<lparr>tk_tracking_key = ''k1'', tk_trace_id = ''123e4567-e89b-12d3-a456-426614174000'',
      tk_decision_id = ''123e4567-e89b-12d3-a456-426614174001'', tk_mode = ''REAL'', tk_idempotency_key = ''k1'',
      tk_strategy_id = ''s'', tk_exchange = ''binance'', tk_symbol = ''BTCUSDT'', tk_action = ''BUY'', tk_order_type = ''MARKET'',
      tk_time_in_force = None, tk_limit_price = None, tk_trigger_price = None, tk_reduce_only = False,
      tk_requested_quantity = Fin 10, tk_client_order_id = Some ''c1'', tk_exchange_order_id = Some ''x1'',
      tk_status = ''submitted'', tk_reported_filled = Fin 0, tk_reported_fee = Fin 0, tk_average_price = None,
      tk_emitted_events = 0, tk_terminal_marked_at = None\<rparr>"

definition sample_lifecycle_worker :: lifecycle_worker where
  "sample_lifecycle_worker =
     (lifecycle_init \<lparr>bk_queues = [(''intents'', []), (''orders'', [])], bk_bindings = [(''oms.order.*'', [''orders''])]\<rparr>
        ''intents'' True (Fin 30) (Fin 5) (Fin 300) 100)\<lparr>lw_orders := [(''k1'', sample_tracked)]\<rparr>"

definition sample_report :: "string \<Rightarrow> rat \<Rightarrow> lifecycle_snapshot" where
  "sample_report status filled =
     \<lparr>ls_exchange = ''binance'', ls_symbol = ''BTCUSDT'', ls_status = status, ls_exchange_order_id = Some ''x1'',
      ls_client_order_id = None, ls_filled_quantity_total = Fin filled, ls_average_price = Some (Fin 100),
      ls_fee_total = None, ls_raw_response = []\<rparr>"

definition sample_lifecycle_io :: "lifecycle_snapshot list \<Rightarrow> lifecycle_io" where
  "sample_lifecycle_io reports =
     \<lparr>li_poll_updates = (\<lambda>_. Inr reports), li_fetch_status = (\<lambda>_. Inr None), li_track_at = Fin 0, li_private_at = Fin 0,
      li_check_at = Fin 0, li_polled_at = Fin 0, li_evict_at = Fin 0, li_apply = (\<lambda>_ _. (Fin 0, 0))\<rparr>"

text \<open>What a series of reports about the sample order publishes as filled, and the order it leaves\<close>

definition sample_outcome :: "lifecycle_snapshot list \<Rightarrow> rat \<times> (string \<times> pyfloat) option" where
  "sample_outcome reports =
     (let lw' = snd (apply_private (sample_lifecycle_io []) 0 False reports sample_lifecycle_worker) in
      (sum_list (map fill_of (queue_contents ''orders'' (lw_broker lw'))),
       map_option (\<lambda>order. (tk_status order, tk_reported_filled order)) (dict_get (lw_orders lw') ''k1'')))"

lemma sample_tracking_ok: "tracking_ok sample_lifecycle_worker"
proof -
  have "uuid_ok (tk_trace_id sample_tracked)" "uuid_ok (tk_decision_id sample_tracked)" by code_simp+
  then have "order_ok ''k1'' sample_tracked" by (simp add: order_ok_def) (simp add: sample_tracked_def)
  then show ?thesis
    by (simp add: tracking_ok_def sample_lifecycle_worker_def lifecycle_init_def dict_wf_def broker_ok_def)
qed

lemma sample_routes:
  "list_all (\<lambda>t. routed (lw_broker sample_lifecycle_worker) t ''orders'') (FILL_EVENT_TYPES @ closing_events)"
  by code_simp

lemma sample_clocks: "clocks_in_range (sample_lifecycle_io reports)"
proof -
  have "in_range 0" by code_simp
  then show ?thesis by (simp add: clocks_in_range_def sample_lifecycle_io_def)
qed

lemma sample_reports:
  "list_all (\<lambda>s. resolve_order s (lw_orders sample_lifecycle_worker) = Some ''k1'' \<and> consistent_report 10 s)
     [sample_report ''partially_filled'' 7, sample_report ''partial_fill'' 4, sample_report ''open'' 0, sample_report ''closed'' 10,
      sample_report ''filled'' 10]"
  by code_simp

theorem published_fills_add_up_witness:
  "\<exists>x lw' ms order'. apply_private (sample_lifecycle_io []) 0 False
      [sample_report ''partially_filled'' 7, sample_report ''partial_fill'' 4, sample_report ''open'' 0, sample_report ''closed'' 10,
       sample_report ''filled'' 10] sample_lifecycle_worker = (Inr x, lw')
    \<and> queue_contents ''orders'' (lw_broker lw') = ms \<and> sum_list (map fill_of ms) = 10
    \<and> dict_get (lw_orders lw') ''k1'' = Some order' \<and> tk_reported_filled order' = Fin (sum_list (map fill_of ms))"
proof -
  have o: "dict_get (lw_orders sample_lifecycle_worker) ''k1'' = Some sample_tracked" "tk_reported_filled sample_tracked = Fin 0"
    "has_text (tk_exchange_order_id sample_tracked)" "has_text (tk_client_order_id sample_tracked)"
    "tk_requested_quantity sample_tracked = Fin (of_int 10)"
    "queue_contents ''orders'' (lw_broker sample_lifecycle_worker) = []"
    by (simp_all add: sample_lifecycle_worker_def lifecycle_init_def sample_tracked_def has_text_def queue_contents_def
        dict_get_default_def)
  have "\<forall>t \<in> set FILL_EVENT_TYPES. routed (lw_broker sample_lifecycle_worker) t ''orders''"
    using sample_routes by (simp add: list_all_iff)
  from published_fills_add_up[OF sample_clocks sample_tracking_ok this o(1,3,4,2,5) _ _ sample_reports, of "[]"] show ?thesis
    by (simp add: o(6) report_total_def sample_report_def)
qed

theorem live_orders_are_followed_witness:
  "\<exists>ms. queue_contents ''orders'' (lw_broker (lifecycle_rounds (Fin 1) [sample_lifecycle_io [sample_report ''closed'' 10]]
        sample_lifecycle_worker)) = ms
      \<and> ((\<exists>m \<in> set ms. announces sample_tracked m)
          \<or> (\<exists>order'. dict_get (lw_orders (lifecycle_rounds (Fin 1) [sample_lifecycle_io [sample_report ''closed'' 10]]
                sample_lifecycle_worker)) ''k1'' = Some order' \<and> succeeds sample_tracked order' \<and> \<not> order_terminal order'))"
proof -
  have l: "listens ''orders'' sample_lifecycle_worker"
    using sample_routes by (simp add: list_all_iff listens_def) (simp add: sample_lifecycle_worker_def lifecycle_init_def)
  have o: "dict_get (lw_orders sample_lifecycle_worker) ''k1'' = Some sample_tracked" "\<not> order_terminal sample_tracked"
    "queue_contents ''orders'' (lw_broker sample_lifecycle_worker) = []"
    by (simp_all add: sample_lifecycle_worker_def lifecycle_init_def sample_tracked_def order_terminal_def TERMINAL_STATUSES_def
        queue_contents_def dict_get_default_def)
  from live_orders_are_followed[OF sample_tracking_ok l, of "[sample_lifecycle_io [sample_report ''closed'' 10]]" "Fin 1"]
  show ?thesis using o sample_clocks by auto
qed

text \<open>A complete fill that is reported first without and then with its quantity is published twice: twenty lots of
  an order of ten.\<close>

lemma complete_fill_published_twice:
  "sample_outcome [sample_report ''closed'' 0, sample_report ''closed'' 10] = (20, Some (''filled'', Fin 10))"
  by code_simp

text \<open>Fills that a cancellation reports are counted in the table, but never published.\<close>

lemma fills_of_canceled_order_lost:
  "sample_outcome [sample_report ''canceled'' 4, sample_report ''canceled'' 4] = (0, Some (''canceled'', Fin 4))"
  by code_simp

text \<open>A stale report takes a canceled order back to submitted.\<close>

lemma canceled_order_reopened:
  "sample_outcome [sample_report ''canceled'' 0, sample_report ''open'' 0] = (0, Some (''submitted'', Fin 0))"
  by code_simp


end
