(* ===== verification/Oms_Worker.thy ===== *)
theory Oms_Worker
  imports Oms_Reconciliation Oms_Portfolio Shared_Broker Py_Actions
begin

text \<open>
  The worker that keeps orders and positions up to date from order events
  (\<open>services/workers/oms_lifecycle.py\<close>, with \<open>_resolve_requested_quantity\<close> of \<open>services/workers/helpers.py\<close>): each message is
  reconciled with the events seen for its order, its fill is booked on the position of its symbol, and the
  portfolio is marked again. It is modelled with its state in memory, without the SQL store. The ledger
  of \<open>Oms_Position\<close> works on finite decimals, so a message with an infinite or undefined quantity,
  price or fee is outside the model: there the step is \<open>None\<close>. The lemmas show that the positions
  stay well formed and marked, and by how much exactly one message moves which position; the examples
  show fills that are refused, booked twice, or taken for complete.
\<close>

section \<open>Reading a message\<close>

text \<open>\<open>Decimal(text)\<close>: underscores are dropped, and any number of digits is kept.\<close>

definition decimal_of_str :: "string \<Rightarrow> xdec result" where
  "decimal_of_str s =
     (case split_sign (drop_underscores (py_strip s)) of (neg, u) \<Rightarrow>
      let l = py_lower u in
      if l \<in> {''inf'', ''infinity''} then Inr (if neg then DNInf else DPInf)
      else if starts_with ''nan'' l \<and> list_all is_digit (drop 3 l) \<or> starts_with ''snan'' l \<and> list_all is_digit (drop 4 l)
      then Inr DNaN
      else (case decimal_literal u of
          None \<Rightarrow> Inl invalid_operation
        | Some x \<Rightarrow> Inr (Dec (if neg then - x else x))))"

text \<open>\<open>Decimal(str(value))\<close>; the text of a truth value, a list or a dictionary is not a number.\<close>

fun decimal_of_val :: "pyval \<Rightarrow> xdec result" where
  "decimal_of_val (PFloat f) = Inr (xdec_of_float f)"
| "decimal_of_val (PInt n) = Inr (Dec (of_int n))"
| "decimal_of_val (PStr s) = decimal_of_str s"
| "decimal_of_val v = Inl invalid_operation"

definition resolve_requested_quantity :: "pyval \<Rightarrow> xdec result" where
  "resolve_requested_quantity raw_quantity =
     (if raw_quantity = PNone then Inl (Exc ValueError ''requested_quantity must be positive (got None)'')
      else rbind (decimal_of_val raw_quantity) (\<lambda>d.
        let quantity = xabs d in
        rbind (xle quantity (Dec 0)) (\<lambda>small.
        if small then Inl (Exc ValueError (''requested_quantity must be positive (got '' @ py_str raw_quantity @ '')''))
        else Inr quantity)))"

definition event_quantity :: "pydict \<Rightarrow> pyfloat result" where
  "event_quantity payload =
     rbind (py_float (py_or (pget payload ''quantity'' (PFloat (Fin 0))) (PFloat (Fin 0)))) (\<lambda>q. Inr (fabs q))"

definition event_price :: "pydict \<Rightarrow> pyfloat result" where
  "event_price payload =
     py_float (py_or (pget payload ''fill_price'' (pget payload ''price'' (PFloat (Fin 0)))) (PFloat (Fin 0)))"

definition event_fee :: "pydict \<Rightarrow> pyfloat result" where
  "event_fee payload =
     py_float (py_or (pget payload ''fee_paid'' (pget payload ''fee'' (PFloat (Fin 0)))) (PFloat (Fin 0)))"

text \<open>The clock readings of one round, as text\<close>

record oms_clock =
  oc_read :: string
  oc_fill_id :: string
  oc_booked :: string
  oc_position :: "string \<times> string"
  oc_snapshot :: string

definition emitted_at :: "string \<Rightarrow> pydict \<Rightarrow> string" where
  "emitted_at now envelope = py_str (pget envelope ''emitted_at'' (PStr now))"

definition position_fill_to_reconciliation_fill :: "oms_clock \<Rightarrow> position_fill \<Rightarrow> reconciliation_fill" where
  "position_fill_to_reconciliation_fill ck fill =
     \<lparr>rf_fill_id = ''fill:'' @ fill_order_id fill @ '':'' @ str_or (fill_filled_at fill) (oc_fill_id ck),
      rf_order_id = fill_order_id fill, rf_quantity = dabs (fill_quantity fill), rf_price = fill_price fill,
      rf_fee = fill_fee fill, rf_source = ''runtime_worker''\<rparr>"

text \<open>The event of a message; \<open>None\<close> when a number of its fill is not finite.\<close>

definition to_lifecycle_event :: "oms_clock \<Rightarrow> pydict \<Rightarrow> lifecycle_event option result" where
  "to_lifecycle_event ck envelope =
     (let event_type = py_str (pget envelope ''event_type'' (PStr []));
          plain = Inr (Some \<lparr>le_event_type = event_type, le_status = None, le_fill = None\<rparr>) in
      case pget envelope ''payload'' PNone of
        PDict payload \<Rightarrow>
          (let order_id = py_str (pget payload ''order_id'' (PStr [])) in
           if event_type \<notin> {''oms.order.filled'', ''oms.order.partially_filled''} \<or> order_id = [] then plain
           else rbind (event_quantity payload) (\<lambda>quantity.
             rbind (event_price payload) (\<lambda>price.
             rbind (event_fee payload) (\<lambda>fee.
             Inr (case (xdec_of_float quantity, xdec_of_float price, xdec_of_float fee) of
                 (Dec q, Dec p, Dec f) \<Rightarrow>
                   Some \<lparr>le_event_type = event_type, le_status = None,
                     le_fill = Some (position_fill_to_reconciliation_fill ck
                       \<lparr>fill_order_id = order_id, fill_mode = py_str (pget payload ''mode'' (PStr ''MOCK'')),
                        fill_symbol = py_str (pget payload ''symbol'' (PStr [])),
                        fill_side = py_str (pget payload ''action'' (PStr ''BUY'')), fill_quantity = q, fill_price = p,
                        fill_fee = f, fill_filled_at = Some (emitted_at (oc_read ck) envelope)\<rparr>)\<rparr>
               | _ \<Rightarrow> None)))))
      | _ \<Rightarrow> plain)"

section \<open>The worker\<close>

record oms_activity =
  oa_event :: string
  oa_trace_id :: string
  oa_decision_id :: string
  oa_order :: reconciliation_order
  oa_positions_total :: nat
  oa_snapshot :: portfolio_snapshot

text \<open>A mark is kept as the float it was read from; the code keeps its decimal text, which is what a position
  is marked at.\<close>

record oms_worker =
  ow_base_balance :: pyfloat
  ow_orders :: "(string, reconciliation_order) dict"
  ow_events :: "(string, lifecycle_event list) dict"
  ow_positions :: "(string, position_state) dict"
  ow_marks :: "(string, pyfloat) dict"
  ow_last_activity :: "oms_activity option"
  ow_broker :: broker

definition oms_worker_init :: "broker \<Rightarrow> pyfloat \<Rightarrow> oms_worker" where
  "oms_worker_init broker base_balance_usd =
     \<lparr>ow_base_balance = base_balance_usd, ow_orders = [], ow_events = [], ow_positions = [], ow_marks = [],
      ow_last_activity = None, ow_broker = broker\<rparr>"

text \<open>What a usable message is about\<close>

record order_message =
  om_order_id :: string
  om_symbol :: string
  om_mode :: string
  om_side :: string
  om_event :: lifecycle_event
  om_price :: pyfloat
  om_emitted_at :: string

text \<open>Orders and their events: the order as it was or a new one, and the reconciled one.\<close>

definition order_before :: "order_message \<Rightarrow> decimal \<Rightarrow> oms_worker \<Rightarrow> reconciliation_order" where
  "order_before m requested_quantity w = dict_get_default (ow_orders w) (om_order_id m)
     \<lparr>ro_order_id = om_order_id m, ro_symbol = om_symbol m, ro_mode = om_mode m,
      ro_requested_quantity = requested_quantity, ro_status = ''NEW'', ro_filled_quantity = 0, ro_average_price = None\<rparr>"

definition record_event :: "order_message \<Rightarrow> oms_worker \<Rightarrow> oms_worker" where
  "record_event m w =
     w\<lparr>ow_events := dict_set (om_order_id m) (dict_get_default (ow_events w) (om_order_id m) [] @ [om_event m]) (ow_events w)\<rparr>"

definition reconcile_order ::
    "order_message \<Rightarrow> reconciliation_order \<Rightarrow> (oms_worker, reconciliation_order) action" where
  "reconcile_order m existing w =
     (case reconcile existing (dict_get_default (ow_events w) (om_order_id m) []) None of
        Inl e \<Rightarrow> (Inl e, w)
      | Inr r \<Rightarrow>
          (let updated = \<lparr>ro_order_id = om_order_id m, ro_symbol = om_symbol m, ro_mode = om_mode m,
                 ro_requested_quantity = ro_requested_quantity existing, ro_status = state_name (rr_status r),
                 ro_filled_quantity = rr_filled_quantity r, ro_average_price = rr_average_price r\<rparr>
           in (Inr updated, w\<lparr>ow_orders := dict_set (om_order_id m) updated (ow_orders w)\<rparr>)))"

definition booked_fill :: "order_message \<Rightarrow> reconciliation_fill \<Rightarrow> position_fill" where
  "booked_fill m fill =
     \<lparr>fill_order_id = om_order_id m, fill_mode = om_mode m, fill_symbol = om_symbol m, fill_side = om_side m,
      fill_quantity = rf_quantity fill, fill_price = rf_price fill, fill_fee = rf_fee fill,
      fill_filled_at = Some (om_emitted_at m)\<rparr>"

definition book_fill :: "oms_clock \<Rightarrow> order_message \<Rightarrow> (oms_worker, unit) action" where
  "book_fill ck m w = (case le_fill (om_event m) of
      None \<Rightarrow> (Inr (), w)
    | Some fill \<Rightarrow>
        (case apply_fill (fst (oc_position ck)) (snd (oc_position ck)) (dict_get (ow_positions w) (om_symbol m)) (booked_fill m fill) of
           Inl e \<Rightarrow> (Inl e, w)
         | Inr u \<Rightarrow> (Inr (), w\<lparr>ow_positions := dict_set (om_symbol m) (upd_current u) (ow_positions w),
             ow_marks := dict_set (om_symbol m) (om_price m) (ow_marks w)\<rparr>)))"

definition mark_portfolio :: "oms_clock \<Rightarrow> string \<Rightarrow> oms_worker \<Rightarrow> portfolio_snapshot result" where
  "mark_portfolio ck mode w =
     (let positions = map snd (ow_positions w) in
      build_snapshot (oc_snapshot ck) mode (xdec_of_float (ow_base_balance w)) (Dec 0) positions (ow_marks w)
        (Some (Dec (realized_sum 0 positions))) None)"

definition process_order_message ::
    "oms_clock \<Rightarrow> pydict \<Rightarrow> order_message \<Rightarrow> decimal \<Rightarrow> (oms_worker, bool) action" where
  "process_order_message ck envelope m requested_quantity w0 =
     (let existing = order_before m requested_quantity w0 in
      sbind (reconcile_order m existing) (\<lambda>updated.
      sbind (book_fill ck m) (\<lambda>_ w. case mark_portfolio ck (om_mode m) w of
          Inl e \<Rightarrow> (Inl e, w)
        | Inr snapshot \<Rightarrow> (Inr True, w\<lparr>ow_last_activity := Some
            \<lparr>oa_event = py_str (pget envelope ''event_type'' (PStr [])), oa_trace_id = py_str (pget envelope ''trace_id'' (PStr [])),
             oa_decision_id = py_str (pget envelope ''decision_id'' (PStr [])), oa_order = updated,
             oa_positions_total = length (ow_positions w), oa_snapshot = snapshot\<rparr>\<rparr>))) (record_event m w0))"

datatype reading = Skipped | Outside | Usable order_message decimal

definition read_order_message :: "oms_clock \<Rightarrow> pydict \<Rightarrow> reading result" where
  "read_order_message ck envelope = (case pget envelope ''payload'' PNone of
      PDict payload \<Rightarrow>
        (let order_id = py_strip (py_str (pget payload ''order_id'' (PStr [])));
             symbol = py_strip (py_str (pget payload ''symbol'' (PStr [])));
             mode = norm_upper (py_str (pget payload ''mode'' (PStr ''MOCK''))) in
         if order_id = [] \<or> symbol = [] then Inr Skipped
         else rbind (resolve_requested_quantity (pget payload ''quantity'' PNone)) (\<lambda>quantity. case quantity of
             Dec requested_quantity \<Rightarrow>
               rbind (to_lifecycle_event ck envelope) (\<lambda>ev. case ev of
                   None \<Rightarrow> Inr Outside
                 | Some event \<Rightarrow> Inr (Usable
                     \<lparr>om_order_id = order_id, om_symbol = symbol, om_mode = (if mode = [] then ''MOCK'' else mode),
                      om_side = py_upper (py_str (pget payload ''action'' (PStr ''BUY''))), om_event = event,
                      om_price = (case event_price payload of Inr price \<Rightarrow> price | Inl _ \<Rightarrow> NaN),
                      om_emitted_at = emitted_at (oc_booked ck) envelope\<rparr> requested_quantity))
           | _ \<Rightarrow> Inr Outside))
    | _ \<Rightarrow> Inr Skipped)"

definition handle_order_message ::
    "oms_clock \<Rightarrow> pydict \<Rightarrow> oms_worker \<Rightarrow> (bool result \<times> oms_worker) option" where
  "handle_order_message ck envelope w = (case read_order_message ck envelope of
      Inl e \<Rightarrow> Some (Inl e, w)
    | Inr Skipped \<Rightarrow> Some (Inr False, w)
    | Inr Outside \<Rightarrow> None
    | Inr (Usable m requested_quantity) \<Rightarrow> Some (process_order_message ck envelope m requested_quantity w))"

definition ORDER_UPDATES :: string where
  "ORDER_UPDATES = ''oms.events.order_updates''"

definition oms_run_once :: "oms_clock \<Rightarrow> pyfloat \<Rightarrow> oms_worker \<Rightarrow> (bool result \<times> oms_worker) option" where
  "oms_run_once ck timeout_seconds w =
     (case broker_consume ORDER_UPDATES (Some timeout_seconds) (ow_broker w) of
        Inl e \<Rightarrow> Some (Inl e, w)
      | Inr (Received envelope, b) \<Rightarrow> handle_order_message ck envelope (w\<lparr>ow_broker := b\<rparr>)
      | Inr (_, b) \<Rightarrow> Some (Inr False, w\<lparr>ow_broker := b\<rparr>))"

text \<open>The figures of \<open>activity_snapshot\<close>\<close>

definition oms_activity_snapshot :: "oms_worker \<Rightarrow> nat \<times> nat \<times> oms_activity option" where
  "oms_activity_snapshot w = (length (ow_orders w), length (ow_positions w), ow_last_activity w)"

section \<open>Positions as running totals\<close>

text \<open>Orders and events that can be reconciled, and the positions of one mode, each under its symbol, well formed
  and with a finite mark\<close>

definition books_ok :: "oms_worker \<Rightarrow> bool" where
  "books_ok w \<longleftrightarrow> (\<forall>k order. dict_get (ow_orders w) k = Some order \<longrightarrow> (\<exists>st. ro_status order = state_name st))
     \<and> (\<forall>k events. dict_get (ow_events w) k = Some events \<longrightarrow> list_all (\<lambda>e. le_status e = None) events)"

definition oms_ok :: "string \<Rightarrow> oms_worker \<Rightarrow> bool" where
  "oms_ok mode w \<longleftrightarrow> books_ok w \<and> dict_wf (ow_positions w) \<and> finite_marks (ow_marks w)
     \<and> (\<forall>s p. dict_get (ow_positions w) s = Some p \<longrightarrow>
          position_ok p \<and> pos_symbol p = s \<and> pos_mode p = mode \<and> dict_get (ow_marks w) s \<noteq> None)"

text \<open>What a message books on the position of a symbol\<close>

definition moves :: "string \<Rightarrow> oms_clock \<times> pydict \<Rightarrow> decimal list" where
  "moves s msg = (case read_order_message (fst msg) (snd msg) of
      Inr (Usable m _) \<Rightarrow>
        (case le_fill (om_event m) of
           Some fill \<Rightarrow> if om_symbol m = s then
               (case fill_signed_quantity (booked_fill m fill) of Inr sq \<Rightarrow> [sq] | Inl _ \<Rightarrow> [])
             else []
         | None \<Rightarrow> [])
    | _ \<Rightarrow> [])"

definition in_mode :: "string \<Rightarrow> oms_clock \<times> pydict \<Rightarrow> bool" where
  "in_mode mode msg = (case read_order_message (fst msg) (snd msg) of Inr (Usable m _) \<Rightarrow> om_mode m = mode | _ \<Rightarrow> True)"

text \<open>Messages one after the other, whatever a message raises\<close>

fun handle_order_messages :: "(oms_clock \<times> pydict) list \<Rightarrow> oms_worker \<Rightarrow> oms_worker option" where
  "handle_order_messages [] w = Some w"
| "handle_order_messages ((ck, envelope) # msgs) w = (case handle_order_message ck envelope w of
      None \<Rightarrow> None
    | Some (_, w') \<Rightarrow> handle_order_messages msgs w')"

lemma xdec_of_float_Dec: "xdec_of_float f = Dec x \<Longrightarrow> \<exists>y. f = Fin y"
  by (cases f) (simp_all add: xdec_of_float_def)

lemma event_price_finite:
  assumes "to_lifecycle_event ck envelope = Inr (Some event)" "le_fill event = Some fill"
  obtains payload y where "pget envelope ''payload'' PNone = PDict payload" "event_price payload = Inr (Fin y)"
    "rf_price fill = repr_dec y"
proof -
  obtain payload where p: "pget envelope ''payload'' PNone = PDict payload"
    using assms by (auto simp: to_lifecycle_event_def Let_def split: pyval.splits)
  have fill: "py_str (pget envelope ''event_type'' (PStr [])) \<in> {''oms.order.filled'', ''oms.order.partially_filled''}"
    "py_str (pget payload ''order_id'' (PStr [])) \<noteq> []"
    using assms p by (auto simp: to_lifecycle_event_def Let_def split: if_splits)
  obtain q pr f where n: "event_quantity payload = Inr q" "event_price payload = Inr pr" "event_fee payload = Inr f"
    using assms(1) p fill by (auto simp: to_lifecycle_event_def Let_def rbind_def split: sum.splits)
  have r: "(case (xdec_of_float q, xdec_of_float pr, xdec_of_float f) of
      (Dec q, Dec p, Dec f) \<Rightarrow> Some p | _ \<Rightarrow> None) = Some (rf_price fill)"
    using assms p fill n by (auto simp: to_lifecycle_event_def Let_def result_simps position_fill_to_reconciliation_fill_def
        split: xdec.splits)
  then obtain y where "pr = Fin y" "rf_price fill = repr_dec y"
    by (cases "xdec_of_float q"; cases "xdec_of_float f"; cases pr) (auto simp: xdec_of_float_def)
  then show ?thesis using p n that by simp
qed

lemma read_usable:
  assumes "read_order_message ck envelope = Inr (Usable m q)"
  obtains payload event where "pget envelope ''payload'' PNone = PDict payload"
    "resolve_requested_quantity (pget payload ''quantity'' PNone) = Inr (Dec q)"
    "to_lifecycle_event ck envelope = Inr (Some event)" "om_event m = event"
    "om_order_id m = py_strip (py_str (pget payload ''order_id'' (PStr [])))" "om_order_id m \<noteq> []"
    "om_symbol m = py_strip (py_str (pget payload ''symbol'' (PStr [])))" "om_symbol m \<noteq> []"
    "om_side m = py_upper (py_str (pget payload ''action'' (PStr ''BUY'')))"
    "om_price m = (case event_price payload of Inr price \<Rightarrow> price | Inl _ \<Rightarrow> NaN)"
proof -
  obtain payload where p: "pget envelope ''payload'' PNone = PDict payload"
    using assms by (auto simp: read_order_message_def split: pyval.splits)
  obtain x where x: "resolve_requested_quantity (pget payload ''quantity'' PNone) = Inr x"
    using assms p by (auto simp: read_order_message_def Let_def rbind_def split: if_splits sum.splits)
  obtain d where d: "x = Dec d"
    using assms p x by (cases x) (auto simp: read_order_message_def Let_def result_simps split: if_splits)
  obtain ev where ev: "to_lifecycle_event ck envelope = Inr ev"
    using assms p x d by (auto simp: read_order_message_def Let_def rbind_def split: if_splits sum.splits)
  show ?thesis
    using assms p x d ev that by (cases ev) (auto simp: read_order_message_def Let_def result_simps split: if_splits)
qed

lemma usable_price:
  assumes "read_order_message ck envelope = Inr (Usable m q)" "le_fill (om_event m) = Some fill"
  obtains y where "om_price m = Fin y" "rf_price fill = repr_dec y"
proof -
  obtain payload event where r: "pget envelope ''payload'' PNone = PDict payload"
    "to_lifecycle_event ck envelope = Inr (Some event)" "om_event m = event"
    "om_price m = (case event_price payload of Inr price \<Rightarrow> price | Inl _ \<Rightarrow> NaN)"
    using read_usable[OF assms(1)] by metis
  from assms(2) r(3) have "le_fill event = Some fill" by simp
  with r(2) obtain p y where "pget envelope ''payload'' PNone = PDict p" "event_price p = Inr (Fin y)" "rf_price fill = repr_dec y"
    by (rule event_price_finite)
  then show ?thesis using r(1,4) that by simp
qed

lemma finite_marks_set: "finite_marks marks \<Longrightarrow> finite_marks (dict_set s (Fin y) marks)"
  by (induction s "Fin y" marks rule: dict_set.induct) (auto simp: finite_marks_def finite_float_def)

lemma state_names: "range state_name = set (map state_name OMS_STATES)"
proof -
  have "st \<in> set OMS_STATES" for st by (cases st) (simp_all add: OMS_STATES_def)
  then show ?thesis by auto
qed

lemma event_types_known: "snd ` set EVENT_STATUS_MAP \<subseteq> range state_name"
  unfolding state_names by (simp add: EVENT_STATUS_MAP_def OMS_STATES_def)

lemma event_status_known:
  assumes "le_status e = None"
  shows "\<exists>s. event_status e = Inr s"
proof (cases "dict_get EVENT_STATUS_MAP (le_event_type e)")
  case (Some st)
  then have "st \<in> range state_name" using event_types_known map_of_SomeD[OF Some] by (metis image_subset_iff snd_conv)
  then show ?thesis using assms Some by (auto simp: event_status_def)
qed (simp add: event_status_def assms)

lemma to_lifecycle_event_status: "to_lifecycle_event ck envelope = Inr (Some event) \<Longrightarrow> le_status event = None"
  by (auto simp: to_lifecycle_event_def Let_def rbind_def split: pyval.splits if_splits sum.splits xdec.splits)

lemma reconciles:
  assumes "ro_status order = state_name st" "list_all (\<lambda>e. le_status e = None) events"
  shows "\<exists>r. reconcile order events None = Inr r"
proof -
  have "list_all (\<lambda>e. \<exists>s. event_status e = Inr s) events"
    using assms(2) event_status_known by (simp add: list_all_iff)
  from collect_events_total[OF this] show ?thesis
    by (simp add: reconcile_def assms(1) normalize_state_name fallback_status_def Let_def)
qed

lemma books_ok_positions [simp]: "books_ok (w\<lparr>ow_positions := ps, ow_marks := ms\<rparr>) = books_ok w"
  by (simp add: books_ok_def)

text \<open>The position of the symbol after a fill, whether accepted or refused\<close>

lemma book_fill_effect:
  assumes ok: "oms_ok mode w" and m: "om_mode m = mode" "\<And>fill. le_fill (om_event m) = Some fill \<Longrightarrow> \<exists>y. om_price m = Fin y"
    and b: "book_fill ck m w = (r, w')"
  shows "oms_ok mode w' \<and> net_quantity (dict_get (ow_positions w') s) = ledger (net_quantity (dict_get (ow_positions w) s))
    (case le_fill (om_event m) of
       Some fill \<Rightarrow> if om_symbol m = s then (case fill_signed_quantity (booked_fill m fill) of Inr sq \<Rightarrow> [sq] | Inl _ \<Rightarrow> []) else []
     | None \<Rightarrow> [])"
proof (cases "le_fill (om_event m)")
  case None
  then show ?thesis using ok b by (simp add: book_fill_def)
next
  case (Some fill)
  let ?p = "dict_get (ow_positions w) (om_symbol m)" and ?f = "booked_fill m fill"
  have pok: "position_opt_ok ?p" using ok by (auto simp: oms_ok_def position_opt_ok_def split: option.splits)
  show ?thesis
  proof (cases "apply_fill (fst (oc_position ck)) (snd (oc_position ck)) ?p ?f")
    case (Inl e)
    have "fill_signed_quantity ?f = Inr sq \<Longrightarrow> False" for sq
      using Inl ok m(1) by (auto simp: apply_fill_def Let_def rbind_def validate_position_compatibility_def booked_fill_def
          oms_ok_def empty_position_def split: sum.splits option.splits if_splits prod.splits)
    then have "\<exists>e'. fill_signed_quantity ?f = Inl e'" by (cases "fill_signed_quantity ?f") auto
    then show ?thesis using Inl Some ok b by (auto simp: book_fill_def)
  next
    case (Inr u)
    obtain y where y: "om_price m = Fin y" using m(2)[OF Some] by blast
    obtain sq where sq: "fill_signed_quantity ?f = Inr sq" "pos_quantity (upd_current u) = snap (dec (net_quantity ?p + sq))"
      using apply_fill_step(2)[OF pok Inr] by blast
    from Inr obtain nq na where "upd_current u = \<lparr>pos_mode = fill_mode ?f, pos_symbol = fill_symbol ?f,
       pos_quantity = nq, pos_average_entry_price = na,
       pos_realized_pnl = dadd (pos_realized_pnl (upd_previous u)) (upd_realized_pnl_delta u),
       pos_status = (if dabs nq > EPSILON then ''OPEN'' else ''CLOSED''),
       pos_updated_at = str_or (fill_filled_at ?f) (snd (oc_position ck))\<rparr>"
      by (rule apply_fill_Inr)
    then have c: "pos_mode (upd_current u) = mode" "pos_symbol (upd_current u) = om_symbol m" "position_ok (upd_current u)"
      using apply_fill_step(1)[OF pok Inr] m(1) by (simp_all add: booked_fill_def)
    have w': "w' = w\<lparr>ow_positions := dict_set (om_symbol m) (upd_current u) (ow_positions w),
        ow_marks := dict_set (om_symbol m) (Fin y) (ow_marks w)\<rparr>"
      using b Some Inr y by (simp add: book_fill_def)
    have "oms_ok mode w'" using ok c by (auto simp: w' oms_ok_def finite_marks_set)
    then show ?thesis using Some sq by (simp add: w' net_quantity_def)
  qed
qed

lemma reconcile_order_ok:
  assumes "books_ok w" "le_status (om_event m) = None"
  obtains updated w' where "reconcile_order m (order_before m q w) (record_event m w) = (Inr updated, w')" "books_ok w'"
    "ow_positions w' = ow_positions w" "ow_marks w' = ow_marks w"
proof -
  let ?w1 = "record_event m w"
  have new: "\<exists>st. ''NEW'' = state_name st" by (rule exI[of _ NEW]) simp
  have "\<exists>st. ro_status (order_before m q w) = state_name st"
    using assms(1) new by (auto simp: books_ok_def order_before_def dict_get_default_def split: option.splits)
  moreover have w1: "books_ok ?w1"
    using assms by (auto simp: books_ok_def record_event_def dict_get_default_def split: option.splits)
  then have "list_all (\<lambda>e. le_status e = None) (dict_get_default (ow_events ?w1) (om_order_id m) [])"
    by (auto simp: books_ok_def dict_get_default_def split: option.splits)
  ultimately obtain r where r: "reconcile (order_before m q w) (dict_get_default (ow_events ?w1) (om_order_id m) []) None = Inr r"
    using reconciles by blast
  obtain updated where up: "reconcile_order m (order_before m q w) ?w1 =
      (Inr updated, ?w1\<lparr>ow_orders := dict_set (om_order_id m) updated (ow_orders ?w1)\<rparr>)" "ro_status updated = state_name (rr_status r)"
    by (auto simp: reconcile_order_def r Let_def)
  show ?thesis
    by (rule that[OF up(1)]) (use w1 up(2) in \<open>auto simp: books_ok_def record_event_def\<close>)
qed

lemma message_effect:
  assumes ok: "oms_ok mode w" and m: "in_mode mode (ck, envelope)"
    and h: "handle_order_message ck envelope w = Some (r, w')"
  shows "oms_ok mode w' \<and> net_quantity (dict_get (ow_positions w') s) =
    ledger (net_quantity (dict_get (ow_positions w) s)) (moves s (ck, envelope))"
proof (cases "\<exists>m q. read_order_message ck envelope = Inr (Usable m q)")
  case False
  then show ?thesis using h ok
    by (auto simp: handle_order_message_def moves_def split: sum.splits reading.splits)
next
  case True
  then obtain m q where u: "read_order_message ck envelope = Inr (Usable m q)" by blast
  have books: "books_ok w" using ok by (simp add: oms_ok_def)
  have none: "le_status (om_event m) = None"
    using read_usable[OF u] to_lifecycle_event_status by metis
  obtain updated w2 where rec: "reconcile_order m (order_before m q w) (record_event m w) = (Inr updated, w2)" "books_ok w2"
    "ow_positions w2 = ow_positions w" "ow_marks w2 = ow_marks w"
    by (rule reconcile_order_ok[OF books none])
  obtain r3 w3 where bk: "book_fill ck m w2 = (r3, w3)" by force
  have mode: "om_mode m = mode" using m by (simp add: in_mode_def u)
  have ok2: "oms_ok mode w2" using ok rec by (simp add: oms_ok_def)
  have price: "\<exists>y. om_price m = Fin y" if "le_fill (om_event m) = Some fill" for fill
    using usable_price[OF u that] by metis
  note b = book_fill_effect[OF ok2 mode price bk, where s = s]
  have p: "process_order_message ck envelope m q w = (r, w')" using h by (simp add: handle_order_message_def u)
  have w': "ow_positions w' = ow_positions w3" "ow_marks w' = ow_marks w3" "ow_orders w' = ow_orders w3" "ow_events w' = ow_events w3"
    using p by (auto simp: process_order_message_def Let_def sbind_def rec bk split: sum.splits)
  then have "oms_ok mode w' = oms_ok mode w3" by (simp add: oms_ok_def books_ok_def)
  then show ?thesis using b by (simp add: moves_def u w' rec)
qed

lemma ledger_append: "ledger q (xs @ ys) = ledger (ledger q xs) ys"
  by (induction xs arbitrary: q) simp_all

text \<open>Whatever is delivered, a position is the ledger over all deliveries.\<close>

lemma positions_follow_deliveries:
  assumes "oms_ok mode w" and "list_all (in_mode mode) msgs" and "handle_order_messages msgs w = Some w'"
  shows "oms_ok mode w' \<and> net_quantity (dict_get (ow_positions w') s) =
    ledger (net_quantity (dict_get (ow_positions w) s)) (concat (map (moves s) msgs))"
  using assms
proof (induction msgs arbitrary: w)
  case (Cons msg msgs)
  obtain ck envelope where m: "msg = (ck, envelope)" by (cases msg)
  obtain r w1 where h: "handle_order_message ck envelope w = Some (r, w1)"
    using Cons.prems(3) by (auto simp: m split: option.splits)
  have e: "oms_ok mode w1" "net_quantity (dict_get (ow_positions w1) s) =
      ledger (net_quantity (dict_get (ow_positions w) s)) (moves s msg)"
    using message_effect[OF Cons.prems(1) _ h, of s] Cons.prems(2) by (simp_all add: m)
  from Cons.IH[OF e(1)] Cons.prems(2,3) h show ?case by (simp add: m e(2) ledger_append)
qed simp

text \<open>The specification: every fill identifier counts once, with its first delivery.\<close>

definition delivered_fill :: "oms_clock \<times> pydict \<Rightarrow> (string \<times> position_fill) list" where
  "delivered_fill msg = (case read_order_message (fst msg) (snd msg) of
      Inr (Usable m _) \<Rightarrow> (case le_fill (om_event m) of
          Some fill \<Rightarrow> [(rf_fill_id fill, booked_fill m fill)]
        | None \<Rightarrow> [])
    | _ \<Rightarrow> [])"

fun first_deliveries :: "string set \<Rightarrow> (string \<times> position_fill) list \<Rightarrow> position_fill list" where
  "first_deliveries seen [] = []"
| "first_deliveries seen ((i, fill) # fills) =
     (if i \<in> seen then first_deliveries seen fills else fill # first_deliveries (insert i seen) fills)"

definition signed_fills :: "string \<Rightarrow> position_fill list \<Rightarrow> decimal list" where
  "signed_fills s fills = concat (map (\<lambda>fill. case fill_signed_quantity fill of
      Inr sq \<Rightarrow> if fill_symbol fill = s then [sq] else []
    | Inl _ \<Rightarrow> []) fills)"

lemma moves_signed: "moves s msg = signed_fills s (map snd (delivered_fill msg))"
  by (auto simp: moves_def signed_fills_def delivered_fill_def booked_fill_def split: sum.splits reading.splits option.splits)

lemma moves_signed_all: "concat (map (moves s) msgs) = signed_fills s (map snd (concat (map delivered_fill msgs)))"
proof -
  have "signed_fills s (xs @ ys) = signed_fills s xs @ signed_fills s ys" for xs ys by (simp add: signed_fills_def)
  then show ?thesis by (induction msgs) (simp_all add: moves_signed, simp add: signed_fills_def)
qed

lemma first_deliveries_distinct:
  "distinct (map fst fills) \<Longrightarrow> fst ` set fills \<inter> seen = {} \<Longrightarrow> first_deliveries seen fills = map snd fills"
  by (induction seen fills rule: first_deliveries.induct) auto

text \<open>C6: The positions of the order worker are running totals: after any sequence of order messages of one mode
  with finite numbers, failing ones included, in which no fill identifier is delivered twice, every position
  is well formed, under its symbol and marked, and holds the abstract ledger over the fills of its
  symbol that the position engine accepts, each identifier counted once; a message about another
  symbol does not touch it.\<close>

theorem positions_are_running_totals:
  assumes "oms_ok mode w" and "list_all (in_mode mode) msgs" and "handle_order_messages msgs w = Some w'"
    and "distinct (map fst (concat (map delivered_fill msgs)))"
  shows "oms_ok mode w' \<and> net_quantity (dict_get (ow_positions w') s) =
    ledger (net_quantity (dict_get (ow_positions w) s))
      (signed_fills s (first_deliveries {} (concat (map delivered_fill msgs))))"
  using positions_follow_deliveries[OF assms(1-3), of s] first_deliveries_distinct[OF assms(4)]
  by (simp add: moves_signed_all)

section \<open>Examples\<close>

definition sample_oms_clock :: oms_clock where
  "sample_oms_clock = \<lparr>oc_read = ''t0'', oc_fill_id = ''t1'', oc_booked = ''t2'', oc_position = (''t3'', ''t4''), oc_snapshot = ''t5''\<rparr>"

definition sample_message_at :: "string \<Rightarrow> string \<Rightarrow> string \<Rightarrow> rat \<Rightarrow> pyval \<Rightarrow> oms_clock \<times> pydict" where
  "sample_message_at time event_type action quantity price = (sample_oms_clock,
     [(''event_type'', PStr event_type), (''emitted_at'', PStr time),
      (''payload'', PDict [(''order_id'', PStr ''o1''), (''symbol'', PStr ''BTCUSDT''), (''mode'', PStr ''REAL''),
         (''action'', PStr action), (''quantity'', PFloat (Fin quantity)), (''fill_price'', price)])])"

definition sample_order_message :: "string \<Rightarrow> string \<Rightarrow> rat \<Rightarrow> pyval \<Rightarrow> oms_clock \<times> pydict" where
  "sample_order_message = sample_message_at ''2026-01-01T00:00:00Z''"

definition sample_oms :: oms_worker where
  "sample_oms = oms_worker_init \<lparr>bk_queues = [(ORDER_UPDATES, [])], bk_bindings = []\<rparr> (Fin 1000)"

text \<open>Status and fills of the order, and quantity and average price of the position, after some messages\<close>

definition sample_books :: "(oms_clock \<times> pydict) list \<Rightarrow> ((string \<times> decimal) option \<times> (decimal \<times> decimal) option) option" where
  "sample_books msgs = map_option (\<lambda>w.
     (map_option (\<lambda>order. (ro_status order, ro_filled_quantity order)) (dict_get (ow_orders w) ''o1''),
      map_option (\<lambda>p. (pos_quantity p, pos_average_entry_price p)) (dict_get (ow_positions w) ''BTCUSDT'')))
     (handle_order_messages msgs sample_oms)"

lemma sample_oms_ok: "oms_ok mode sample_oms"
  by (simp add: oms_ok_def books_ok_def sample_oms_def oms_worker_init_def dict_wf_def finite_marks_def)

definition sample_messages :: "(oms_clock \<times> pydict) list" where
  "sample_messages = [sample_message_at ''2026-01-01T00:00:00Z'' ''oms.order.partially_filled'' ''BUY'' 4 (PFloat (Fin 100)),
     sample_message_at ''2026-01-01T00:00:01Z'' ''oms.order.canceled'' ''BUY'' 4 PNone,
     sample_message_at ''2026-01-01T00:00:02Z'' ''oms.order.filled'' ''SELL'' 1 (PFloat (Fin 110))]"

theorem positions_are_running_totals_witness:
  "case handle_order_messages sample_messages sample_oms of
   Some w \<Rightarrow> oms_ok ''REAL'' w \<and> net_quantity (dict_get (ow_positions w) ''BTCUSDT'') = ledger 0 [4, - 1]
       \<and> net_quantity (dict_get (ow_positions w) ''ETHUSDT'') = 0
   | None \<Rightarrow> False"
proof -
  have "list_all (in_mode ''REAL'') sample_messages" by code_simp
  moreover have "handle_order_messages sample_messages sample_oms \<noteq> None" by code_simp
  then obtain w where w: "handle_order_messages sample_messages sample_oms = Some w" by blast
  moreover have "distinct (map fst (concat (map delivered_fill sample_messages)))" by code_simp
  moreover have "signed_fills ''BTCUSDT'' (first_deliveries {} (concat (map delivered_fill sample_messages))) = [4, - 1]"
    "signed_fills ''ETHUSDT'' (first_deliveries {} (concat (map delivered_fill sample_messages))) = []" by code_simp+
  moreover have "net_quantity (dict_get (ow_positions sample_oms) s) = 0" for s
    by (simp add: sample_oms_def oms_worker_init_def net_quantity_def)
  ultimately show ?thesis
    using positions_are_running_totals[OF sample_oms_ok, of "''REAL''" sample_messages w "''BTCUSDT''"]
      positions_are_running_totals[OF sample_oms_ok, of "''REAL''" sample_messages w "''ETHUSDT''"]
    by (simp only: w option.case) simp
qed

text \<open>A fill that is delivered twice is counted once for the order and twice for the position: the worker keeps no
  record of the fills it has booked.\<close>

lemma redelivered_fill_booked_twice:
  "sample_books [sample_order_message ''oms.order.filled'' ''BUY'' 2 (PFloat (Fin 100)),
      sample_order_message ''oms.order.filled'' ''BUY'' 2 (PFloat (Fin 100))]
    = Some (Some (''FILLED'', 2), Some (4, 100))"
  by code_simp

text \<open>A first message that reports a part of an order completes it: its quantity is taken for the requested one.\<close>

lemma first_partial_fill_completes_order:
  "sample_books [sample_order_message ''oms.order.partially_filled'' ''BUY'' 4 (PFloat (Fin 100))]
    = Some (Some (''FILLED'', 4), Some (4, 100))"
  by code_simp

text \<open>A fill that is published without a price is booked at the price zero.\<close>

lemma fill_without_price_booked_at_zero:
  "sample_books [sample_order_message ''oms.order.filled'' ''BUY'' 2 PNone] = Some (Some (''FILLED'', 2), Some (2, 0))"
  by code_simp

text \<open>The fill of a closing order is refused by the ledger, so no closing order ever reduces a position.\<close>

lemma close_orders_never_booked:
  assumes "read_order_message ck envelope = Inr (Usable m q)" "om_side m = ''CLOSE''"
  shows "moves s (ck, envelope) = []"
proof -
  have "py_upper (py_strip ''CLOSE'') = ''CLOSE''" by code_simp
  then show ?thesis using assms
    by (auto simp: moves_def fill_signed_quantity_def booked_fill_def Let_def split: option.splits)
qed


end
