(* ===== verification/Oms_Position_Any.thy ===== *)
theory Oms_Position_Any
  imports Oms_Position Py_Decimal
begin

text \<open>
  The position engine of \<open>services/oms/position_engine.py\<close> once more, on \<open>Decimal\<close>s that may be infinite or
  not a number, with the \<open>InvalidOperation\<close> that arithmetic and comparisons raise there. The lemmas show
  that it agrees with the engine of \<open>Oms_Position\<close> on finite numbers, and which exception a refused fill
  raises. A signalling not-a-number, which raises at the first operation, is not told apart from a
  quiet one, which raises at the first comparison.
\<close>

section \<open>Data\<close>




section \<open>Operations\<close>


text \<open>\<open>a and b\<close> and \<open>a or b\<close>, which look at the second operand only when they have to\<close>

definition rand :: "bool result \<Rightarrow> bool result \<Rightarrow> bool result" where
  "rand a b = rbind a (\<lambda>x. if x then b else Inr False)"

definition ror :: "bool result \<Rightarrow> bool result \<Rightarrow> bool result" where
  "ror a b = rbind a (\<lambda>x. if x then Inr True else b)"

definition any_same_direction :: "xdec \<Rightarrow> xdec \<Rightarrow> bool result" where
  "any_same_direction left right =
     ror (rand (xlt (Dec 0) left) (xlt (Dec 0) right)) (rand (xlt left (Dec 0)) (xlt right (Dec 0)))"



text \<open>\<open>min(a, b)\<close>: the first argument unless the second compares smaller.\<close>

definition xmin :: "xdec \<Rightarrow> xdec \<Rightarrow> xdec result" where
  "xmin a b = rbind (xlt b a) (\<lambda>c. Inr (if c then b else a))"



section \<open>Agreement on finite numbers\<close>




lemma any_same_direction_Dec [simp]: "any_same_direction (Dec x) (Dec y) = Inr (same_direction x y)"
  by (simp add: any_same_direction_def same_direction_def rand_def ror_def)

lemma xmin_Dec [simp]: "xmin (Dec a) (Dec b) = Inr (Dec (min a b))"
  by (auto simp: xmin_def min_def)





section \<open>What can be raised\<close>

















section \<open>Properties\<close>


end
