(* ===== verification/Spec2Isabelle.thy ===== *)
theory Spec2Isabelle
  imports Oms_Risk_Policy Oms_Reconciliation Oms_Risk_Observability Sim_Worker Notify_Dispatch Api_Rate_Limiter
    Market_Runtime Agent_Orchestrator Exec_Lifecycle Oms_Worker Oms_Position_Any
begin

text \<open>
  openTrader is an agent-driven trading system in Python. Market data comes in through
  \<open>services/market_ingestion\<close>, is published on a topic broker, and is turned into a decision by
  \<open>services/agent_orchestrator\<close>. A decision that passes its guardrails becomes an execution intent.
  In MOCK mode \<open>services/simulation_execution\<close> fills the intent; in REAL mode an exchange does, and
  \<open>services/workers/execution_lifecycle.py\<close> follows the order there. Either way order events are published;
  \<open>services/workers/oms_lifecycle.py\<close> reads them and keeps orders, positions and the portfolio with
  the engines of \<open>services/oms\<close>. The risk policy of \<open>services/oms\<close> allows or denies orders, and
  \<open>services/notification_service\<close> tells operators. \<open>services/api\<close> limits the requests of its clients.

  \<^bold>\<open>Modelling.\<close> A class or a dataclass is a record, a method a function from its object to a result and
  the new object, \<open>'a result = exc + 'a\<close> with the class and the text of the exception. Methods with effects on
  more than one object are actions (\<open>Py_Actions\<close>): a raised exception keeps the updates made before it.
  A dictionary is an association list in insertion order. \<open>Decimal\<close> is a rational rounded to 28 digits
  half-even after each operation, and \<open>float\<close> a rational rounded to a double, or an infinity, or not
  a number; signed zeros are not distinguished. Text is ASCII. Clock readings,
  random identifiers, replies of exchanges, of language models and of gateways, and the stores behind the
  agent memory are arguments of the definitions that use them.

  \<^bold>\<open>The language.\<close>
  \<^item> \<open>Py_Prelude\<close>: results, text and dictionaries, with the collection \<open>result_simps\<close>.
  \<^item> \<open>Py_Actions\<close>: composition of actions, what they keep (\<open>keeps\<close>) and bring about (\<open>completes\<close>).
  \<^item> \<open>Py_Numbers\<close>: rounding to a number of digits, monotone and idempotent (locales \<open>rounding\<close> and
    \<open>significand\<close>, interpreted for decimals and doubles); \<open>Py_Decimal\<close>, \<open>Py_Float\<close>: the two types,
    \<open>Py_Convert\<close>: conversions and powers.
  \<^item> \<open>Py_Values\<close>: dynamically typed values, \<open>str\<close>, \<open>repr\<close>, \<open>float\<close> and UUID syntax.
  \<^item> \<open>Py_Datetime\<close>, \<open>Py_Clock\<close>: ISO timestamps and that a printed one parses back.
  \<^item> \<open>Py_Hash\<close>: SHA-1 and SHA-256 on words, for identifiers computed from text.
  \<^item> \<open>Py_Window\<close>: a sliding window admits at most its budget (locale \<open>sliding_window\<close>, interpreted in
    \<open>Api_Rate_Limiter\<close> and \<open>Notify_Router\<close>).

  \<^bold>\<open>Shared contracts\<close> (\<open>services/shared\<close>).
  \<^item> \<open>Shared_Envelope\<close>: message validation and trace context; exactly which messages are accepted.
  \<^item> \<open>Shared_Broker\<close>: the broker in memory; topic patterns agree with their inductive specification, a
    message arrives once in exactly the queues bound to it, queues are first-in first-out (locale \<open>fifo\<close>).

  \<^bold>\<open>Order management\<close> (\<open>services/oms\<close>).
  \<^item> \<open>Oms_State\<close>: the order state machine; a life cycle is bounded.
  \<^item> \<open>Oms_Position\<close>: the netted ledger refines a running total, keeps its invariant, and obeys the
    accounting identity of profit and fees. \<open>Oms_Position_Any\<close>: the same engine on infinite and undefined
    numbers too, which agrees with it on finite ones; exactly which fills raise which exception.
  \<^item> \<open>Oms_Portfolio\<close>: snapshots and the drawdown guard; falling prices never unblock.
  \<^item> \<open>Oms_Reconciliation\<close>: orders from events and exchange snapshots; redelivery changes nothing, fills
    count once, and a status goes back only where FILLED was reported without its fills.
  \<^item> \<open>Oms_Risk_Rules\<close>, \<open>Oms_Risk_Controls\<close>, \<open>Oms_Risk_Policy\<close>: core rules, kill switch and circuit breaker
    as a reachability relation, and their composition (locale \<open>risk_stage\<close>, interpreted for each stage).
  \<^item> \<open>Oms_Risk_Observability\<close>: the counters add up and denials become notifications.
  \<^item> \<open>Oms_Worker\<close> (\<open>services/workers/oms_lifecycle.py\<close>): positions are running totals of the
    fills, each counted once, as long as no fill is delivered twice.

  \<^bold>\<open>Execution.\<close>
  \<^item> \<open>Sim_Engine\<close>, \<open>Sim_Worker\<close> (\<open>services/simulation_execution\<close>): all order types; events are valid, a
    plain intent fills against the trader, a pair of legs fills one, a cycle publishes all or nothing.
  \<^item> \<open>Exec_Lifecycle\<close> (\<open>services/workers/execution_lifecycle.py\<close>): no live order is lost unannounced, and the
    fills published add up to the largest total reported.

  \<^bold>\<open>Market data\<close> (\<open>services/market_ingestion\<close>, \<open>services/workers/runtime_pipeline.py\<close>).
  \<^item> \<open>Market_Book\<close>: order books and gap detection (locale \<open>level_store\<close>); \<open>Market_Kline\<close>: candle validation;
    \<open>Market_Feed\<close>: adapter, canonical messages, reconnection delays; \<open>Market_Runtime\<close>: the worker, which
    survives a failing stream and publishes what its book holds.

  \<^bold>\<open>Decisions\<close> (\<open>services/agent_orchestrator\<close>).
  \<^item> \<open>Agent_Decision\<close>: the agents and the guardrails; \<open>Agent_Orchestrator\<close>: a whole decision. An intent that is
    published is within its guardrails, a decision publishes all its events in its own mode.

  \<^bold>\<open>Notifications and API.\<close>
  \<^item> \<open>Notify_Events\<close>, \<open>Notify_Router\<close>, \<open>Notify_Dispatch\<close>: intake, routing within limits, and delivery that accounts
    for every message; \<open>Api_Rate_Limiter\<close>: requests stay within their budget.

  This theory holds what spans components: an order the policy allows never fills further beyond the position limit,
  a denial reaches the operators, and a MOCK decision is filled by the simulation.

  \<^bold>\<open>Bounds and fuel.\<close> Text replacement recurses on fuel of one more than the length of the text, which each
  step shortens. Every other loop is structural or has a measure. Worker loops, endless in the code,
  are sequences of rounds of any length.
  Timestamps are printed for the years 1 to 9999, and a statement about printed
  ones says so. Statements about exact sums of floats ask for whole numbers below \<open>2 ^ 53\<close>.

  \<^bold>\<open>Not modelled.\<close> Exchanges, language model providers, mail and HTTP gateways, RabbitMQ, Redis and SQL are
  outside the program: their clients are parameters where a modelled component calls them, and what only
  consists of such calls (adapters, SQL stores, migrations, FastAPI routes, scripts, dashboard) is left out.
  The order worker is modelled with its state in memory, and, like the ledger it uses, for finite numbers only.
  Not covered although they have logic of their own: the LLM gateway, the news services, decision replay, the
  orchestrator and notification worker processes, and the execution service in Go, which is in another
  language with concurrency of its own. Scheduling inside one round is not modelled either: a round runs without
  interleaving with other tasks of its process.
\<close>

section \<open>Risk policy and positions\<close>

lemma allowed_position_check:
  assumes "core_evaluate c order p eq ex pnl peak = Inr ev" "cre_allowed ev" "validate_order order = Inr no"
    and "po_quantity no = NDec (Dec qty)"
  shows "xle (xabs (Dec (dadd (net_quantity p) (signed_order_quantity no)))) (xdec_exact (cr_max_position_abs c)) = Inr True"
proof -
  have "order_signed_quantity (po_side no) (po_quantity no) = Dec (signed_order_quantity no)"
    using assms(4) by (simp add: signed_order_quantity_def order_signed_quantity_def num_dec_def Let_def)
  then show ?thesis
    using assms(1-3) by (auto simp: core_evaluate_def Let_def result_simps core_check_def split: if_splits)
qed

text \<open>A fill of the order: of its side and at most its size.\<close>

definition fill_of_order :: "decimal \<Rightarrow> decimal \<Rightarrow> bool" where
  "fill_of_order ordered filled \<longleftrightarrow> 0 \<le> filled \<and> filled \<le> ordered \<or> ordered \<le> filled \<and> filled \<le> 0"

lemma dec_between:
  assumes "fill_of_order ordered filled" "dec q = q" "\<bar>q\<bar> \<le> bound" "\<bar>dec (q + ordered)\<bar> \<le> bound"
  shows "\<bar>dec (q + filled)\<bar> \<le> bound"
proof -
  consider "q \<le> q + filled" "q + filled \<le> q + ordered" | "q + ordered \<le> q + filled" "q + filled \<le> q"
    using assms(1) by (auto simp: fill_of_order_def)
  then show ?thesis
  proof cases
    case 1
    then show ?thesis using decr.mono[OF 1(1)] decr.mono[OF 1(2)] assms(2-4) by auto
  next
    case 2
    then show ?thesis using decr.mono[OF 2(1)] decr.mono[OF 2(2)] assms(2-4) by auto
  qed
qed

text \<open>C2: The position limit holds through execution: if the policy allows an order of finite size, then after
  any fill of the order, in part or in full, of a well-formed position, the position the ledger holds is well formed and in
  magnitude at most the limit or, if it was beyond the limit before, at most what it was; after the
  full fill it is within the limit whatever it was before. Dust and rounding are included.\<close>

theorem allowed_orders_fill_within_limit:
  assumes "policy_evaluate rec order p s peak ex clock now t d st pe = (Inr decision, pe')" and "pd_allowed decision"
    and "validate_order order = Inr no" and "po_quantity no = NDec (Dec qty)"
    and "cr_max_position_abs (rp_core (pe_config pe)) = Fin bound"
    and "position_opt_ok p"
    and "apply_fill now0 now1 p fill = Inr u" and "fill_signed_quantity fill = Inr filled"
    and "fill_of_order (signed_order_quantity no) filled"
  shows "\<bar>pos_quantity (upd_current u)\<bar> \<le> max bound \<bar>net_quantity p\<bar>
    \<and> (filled = signed_order_quantity no \<longrightarrow> \<bar>pos_quantity (upd_current u)\<bar> \<le> bound)
    \<and> position_ok (upd_current u)"
proof -
  note P = policy_evaluate_Inr[OF assms(1)]
  have "cre_blocked_by (pd_core decision) = []"
    using P(4,5) assms(2) by (simp add: merge_blocked_def merge_names_Nil)
  then have "cre_allowed (pd_core decision)"
    using core_stage.stage_law[of "(rp_core (pe_config pe), order, p, float_of_xdec (snap_total_balance_usd s), ex, Fin 0, Fin 0)"] P(1)
    by simp
  from allowed_position_check[OF P(1) this assms(3,4)] assms(5)
  have b: "\<bar>dec (net_quantity p + signed_order_quantity no)\<bar> \<le> bound"
    by (simp add: xdec_exact_def dadd_def dabs_def dec_abs)
  have fit: "dec (net_quantity p) = net_quantity p"
    using assms(6) by (auto simp: position_opt_ok_def position_ok_def net_quantity_def split: option.splits)
  have "pos_quantity (upd_current u) = snap (dec (net_quantity p + filled))"
    using apply_fill_step(2)[OF assms(6,7)] assms(8) by auto
  moreover have "0 \<le> bound" using b by linarith
  moreover have "\<bar>dec (net_quantity p + filled)\<bar> \<le> max bound \<bar>net_quantity p\<bar>"
    by (rule dec_between[OF assms(9) fit]) (use b in auto)
  ultimately show ?thesis
    using b apply_fill_step(1)[OF assms(6,7)] by (auto simp: snap_def)
qed


section \<open>Denied orders and notifications\<close>

lemma policy_evaluate_recorded:
  assumes "policy_evaluate rec order p s peak ex clock now t d st pe = (Inr decision, pe')" "pe_observability pe = Some sink"
  shows "\<exists>sink'. rec t d st order decision sink = (Inr (), sink') \<and> pe_observability pe' = Some sink'"
  using assms by (auto simp: policy_evaluate_def Let_def split: sum.splits prod.splits option.splits)

definition denial_severity :: "string list \<Rightarrow> severity" where
  "denial_severity blocked_by = (if set blocked_by \<inter> {''kill_switch'', ''circuit_breaker''} \<noteq> {} then CRITICAL else WARNING)"

lemma denial_read_back:
  assumes "in_range now" "\<not> pd_allowed decision" "pd_blocked_by decision \<noteq> []" "mode \<in> {''MOCK'', ''REAL''}"
  shows "returns (\<lambda>e. ne_severity e = denial_severity (pd_blocked_by decision) \<and> ne_event_type e = ''notify.risk.event'')
    (normalize_event (PDict (dict_set ''mode'' (PStr mode) (denial_envelope now fresh t d st order decision))))"
proof -
  let ?ev = "decision_event now t d st order decision" and ?b = "pd_blocked_by decision"
  let ?p = "denial_payload st order decision ?ev"
  let ?env = "dict_set ''mode'' (PStr mode) (denial_envelope now fresh t d st order decision)"
  have "timestamp_ok (re_occurred_at ?ev)" using timestamp_ok_iso[OF assms(1)] by (simp add: decision_event_def)
  then have ok: "envelope_ok (PDict ?env)"
    using envelope_ok_mode[OF risk_envelope_ok assms(4)] by (simp add: denial_envelope_def Let_def)
  have f: "dict_get ?env ''event_type'' = Some (PStr ''notify.risk.event'')" "dict_get ?env ''payload'' = Some (PDict ?p)"
    by (simp_all add: denial_envelope_def risk_envelope_def Let_def)
  have "policy_severity ?b = severity_value (denial_severity ?b)"
    using assms(3) by (auto simp: policy_severity_def denial_severity_def CRITICAL_BLOCKERS_def list_ex_iff)
  then have "declared_severity ?p = Some (denial_severity ?b)"
    by (intro declared_severity_value) (simp add: denial_payload_def decision_event_def)
  then have "classify_severity ''notify.risk.event'' ?p = denial_severity ?b"
    by (intro classify_bridge_types) simp_all
  then show ?thesis using normalize_event_ok[OF ok f] by simp
qed

text \<open>C12: A denied order is reported: the decision the policy records leaves the collector as one notification more, and
  the intake of the notification service reads from it a critical severity exactly when the kill
  switch or the circuit breaker blocked the order, and a warning otherwise.\<close>

theorem denials_reach_operators:
  assumes "policy_evaluate (record_policy_decision now fresh) order p s peak ex clock dt t d st pe = (Inr decision, pe')"
    and "pe_observability pe = Some rc" and "\<not> pd_allowed decision" and "in_range now"
    and "\<forall>env \<in> set (rc_notifications rc). envelope_ok (PDict env)" and "mode \<in> {''MOCK'', ''REAL''}"
  shows "\<exists>rc' env. pe_observability pe' = Some rc'
    \<and> drain_notification_events mode rc' =
        (Inr (map (dict_set ''mode'' (PStr mode)) (rc_notifications rc) @ [env]), rc'\<lparr>rc_notifications := []\<rparr>)
    \<and> returns (\<lambda>e. ne_severity e = denial_severity (pd_blocked_by decision) \<and> ne_event_type e = ''notify.risk.event'')
        (normalize_event (PDict env))"
proof -
  have b: "pd_blocked_by decision \<noteq> []" using policy_evaluate_Inr(5)[OF assms(1)] assms(3) by simp
  have m: "norm_upper mode = mode" using assms(6)
    by (auto simp: norm_upper_def py_strip_def strip_chars_def py_upper_def upper_char_def is_space_def)
  obtain rc' where rc': "record_policy_decision now fresh t d st order decision rc = (Inr (), rc')" "pe_observability pe' = Some rc'"
    using policy_evaluate_recorded[OF assms(1,2)] by blast
  let ?env = "denial_envelope now fresh t d st order decision"
  have n: "rc_notifications rc' = rc_notifications rc @ [?env]"
    using rc'(1) record_policy_decision_value[OF assms(4), of fresh t d st order decision rc] assms(3) by auto
  have "timestamp_ok (re_occurred_at (decision_event now t d st order decision))"
    using timestamp_ok_iso[OF assms(4)] by (simp add: decision_event_def)
  then have "envelope_ok (PDict ?env)" by (simp add: denial_envelope_def Let_def risk_envelope_ok)
  then have "drain_notification_events mode rc' = (Inr (map (dict_set ''mode'' (PStr mode)) (rc_notifications rc)
      @ [dict_set ''mode'' (PStr mode) ?env]), rc'\<lparr>rc_notifications := []\<rparr>)"
    using drain_value[of rc' mode] n assms(5,6) m by auto
  then show ?thesis using denial_read_back[OF assms(4,3) b assms(6)] rc'(2) by blast
qed

section \<open>From a market event to a simulated fill\<close>






definition sample_order_fill :: position_fill where
  "sample_order_fill = \<lparr>fill_order_id = ''o1'', fill_mode = ''MOCK'', fill_symbol = ''BTC/USDT'', fill_side = ''SELL'',
     fill_quantity = 1, fill_price = 100, fill_fee = 0, fill_filled_at = None\<rparr>"

theorem allowed_orders_fill_within_limit_witness:
  "returns (\<lambda>decision. pd_allowed decision) (fst (sample_decision (Fin 0) (Fin 0) False 1000 0 (Fin 1000)))
    \<and> returns (\<lambda>u. pos_quantity (upd_current u) = - 1 \<and> \<bar>pos_quantity (upd_current u)\<bar> \<le> 10) (apply_fill ''t0'' ''t1'' None sample_order_fill)"
proof -
  have r: "returns (\<lambda>decision. pd_allowed decision) (fst (sample_decision (Fin 0) (Fin 0) False 1000 0 (Fin 1000)))"
    by code_simp
  then obtain decision pe' where d: "sample_decision (Fin 0) (Fin 0) False 1000 0 (Fin 1000) = (Inr decision, pe')" "pd_allowed decision"
    by (auto simp: returns_iff prod_eq_iff)
  have v: "returns (\<lambda>no. po_quantity no = NDec (Dec 2) \<and> signed_order_quantity no = - 2) (validate_order (sample_order ''sell'' 2 100))"
    by code_simp
  then obtain no where no: "validate_order (sample_order ''sell'' 2 100) = Inr no" "po_quantity no = NDec (Dec 2)"
    "signed_order_quantity no = - 2" by (auto simp: returns_iff)
  have f: "fill_signed_quantity sample_order_fill = Inr (- 1)" by code_simp
  have u: "returns (\<lambda>u. pos_quantity (upd_current u) = - 1) (apply_fill ''t0'' ''t1'' None sample_order_fill)" by code_simp
  then obtain u where u: "apply_fill ''t0'' ''t1'' None sample_order_fill = Inr u" "pos_quantity (upd_current u) = - 1"
    by (auto simp: returns_iff)
  have l: "cr_max_position_abs (rp_core (pe_config (sample_policy (Fin 0) (Fin 0) False))) = Fin 10"
    by (simp add: sample_policy_def sample_config_def finite_config_def)
  have "\<bar>pos_quantity (upd_current u)\<bar> \<le> 10"
    using allowed_orders_fill_within_limit[OF d(1)[unfolded sample_decision_def] d(2) no(1,2) l _ u(1) f]
    by (simp add: position_opt_ok_def net_quantity_def no(3) fill_of_order_def)
  then show ?thesis using r u by (simp add: returns_iff)
qed

definition sample_watched_policy :: "risk_collector policy_engine" where
  "sample_watched_policy =
     \<lparr>pe_config = pe_config (sample_policy (Fin 0) (Fin 0) True), pe_controls = pe_controls (sample_policy (Fin 0) (Fin 0) True),
      pe_observability = Some new_collector\<rparr>"

definition sample_denial :: "policy_decision result \<times> risk_collector policy_engine" where
  "sample_denial = policy_evaluate (record_policy_decision 0 ''u'') (sample_order ''sell'' 2 100) None
     (sample_snapshot 1000 0) (Fin 1000) (Fin 0) 0 None (Some ''12345678-1234-5678-1234-567812345678'')
     (Some ''12345678-1234-5678-1234-567812345679'') None sample_watched_policy"

theorem denials_reach_operators_witness:
  "case sample_denial of (Inr decision, pe') \<Rightarrow> \<not> pd_allowed decision
      \<and> (case drain_notification_events ''MOCK'' (the (pe_observability pe')) of
          (Inr [env], rc') \<Rightarrow> returns (\<lambda>e. ne_severity e = CRITICAL) (normalize_event (PDict env)) | _ \<Rightarrow> False)
   | _ \<Rightarrow> False"
proof -
  have "returns (\<lambda>dcs. \<not> pd_allowed dcs \<and> pd_blocked_by dcs = [''kill_switch'']) (fst sample_denial)" by code_simp
  then obtain decision pe' where d: "sample_denial = (Inr decision, pe')" "\<not> pd_allowed decision" "pd_blocked_by decision = [''kill_switch'']"
    by (auto simp: returns_iff prod_eq_iff)
  have o: "pe_observability sample_watched_policy = Some new_collector" by (simp add: sample_watched_policy_def)
  from denials_reach_operators[OF d(1)[unfolded sample_denial_def] o d(2) epoch_in_range, of "''MOCK''"]
  obtain rc' env where "pe_observability pe' = Some rc'"
    "drain_notification_events ''MOCK'' rc' = (Inr [env], rc'\<lparr>rc_notifications := []\<rparr>)"
    "returns (\<lambda>e. ne_severity e = denial_severity [''kill_switch''] \<and> ne_event_type e = ''notify.risk.event'') (normalize_event (PDict env))"
    by (auto simp: new_collector_def d(3))
  then show ?thesis using d(2) unfolding d(1) prod.case sum.case by (auto simp: denial_severity_def returns_iff)
qed

end
